(* ===== verification/Unicode.thy ===== *)
theory Unicode
  imports Main
begin

section \<open>Unicode: package strings on UTF-8\<close>

text \<open>
  A Go string is a sequence of bytes; the functions of package \<^verbatim>\<open>strings\<close> that the backend calls read it
  as UTF-8.  This theory follows \<^verbatim>\<open>unicode/utf8\<close> (decoding, with a byte that starts no valid sequence read
  as U+FFFD, and encoding), the simple case mappings of \<^verbatim>\<open>unicode\<close> (Unicode 15.0, the version of the Go
  release the module asks for) and, on top of them, \<^verbatim>\<open>strings.ToUpper\<close>, \<^verbatim>\<open>ToLower\<close>, \<^verbatim>\<open>EqualFold\<close> and
  \<^verbatim>\<open>TrimSpace\<close>.  On ASCII strings they are what they are on bytes; the lemmas \<open>ascii_text\<close> say so.
\<close>

named_theorems ascii_text \<open>the functions of package strings on ASCII\<close>

subsection \<open>utf8\<close>

definition RuneError :: int where "RuneError = 0xFFFD"

definition ascii :: "string \<Rightarrow> bool" where
  "ascii s \<longleftrightarrow> list_all (\<lambda>c. of_char c < (128 :: int)) s"

text \<open>How many bytes follow a leading byte, and between which bounds the first of them lies.\<close>

definition lead :: "int \<Rightarrow> (nat \<times> int \<times> int) option" where
  "lead n =
     (if 0xC2 \<le> n \<and> n \<le> 0xDF then Some (1, 0x80, 0xBF)
      else if n = 0xE0 then Some (2, 0xA0, 0xBF)
      else if n = 0xED then Some (2, 0x80, 0x9F)
      else if 0xE1 \<le> n \<and> n \<le> 0xEF then Some (2, 0x80, 0xBF)
      else if n = 0xF0 then Some (3, 0x90, 0xBF)
      else if n = 0xF4 then Some (3, 0x80, 0x8F)
      else if 0xF1 \<le> n \<and> n \<le> 0xF3 then Some (3, 0x80, 0xBF)
      else None)"

text \<open>The first rune of a string and how many bytes after the first belong to it.\<close>

definition decode_rune :: "char \<Rightarrow> string \<Rightarrow> int \<times> nat" where
  "decode_rune a rest =
     (let n = of_char a
      in if n < 0x80 then (n, 0)
         else case lead n of
                None \<Rightarrow> (RuneError, 0)
              | Some (k, low, high) \<Rightarrow>
                  (let cs = map of_char (take k rest)
                   in if length cs = k \<and> low \<le> hd cs \<and> hd cs \<le> high \<and> list_all (\<lambda>c. 0x80 \<le> c \<and> c \<le> 0xBF) cs
                      then (foldl (\<lambda>x c. x * 64 + (c - 0x80)) (n mod 2 ^ (6 - k)) cs, k)
                      else (RuneError, 0)))"

fun decode_runes :: "string \<Rightarrow> int list" where
  "decode_runes [] = []"
| "decode_runes (a # rest) = (case decode_rune a rest of (r, k) \<Rightarrow> r # decode_runes (drop k rest))"

definition rune_start :: "char \<Rightarrow> bool" where
  "rune_start c \<longleftrightarrow> of_char c div (64 :: int) \<noteq> 2"

text \<open>The last rune of a string and its width.\<close>

definition decode_last :: "string \<Rightarrow> int \<times> nat" where
  "decode_last s =
     (if of_char (last s) < (0x80 :: int) then (of_char (last s), 1)
      else case filter (\<lambda>k. k \<le> length s \<and> rune_start (s ! (length s - k))) [2, 3, 4] of
             [] \<Rightarrow> (RuneError, 1)
           | k # _ \<Rightarrow>
               (case drop (length s - k) s of
                  [] \<Rightarrow> (RuneError, 1)
                | a # rest \<Rightarrow> (case decode_rune a rest of (r, w) \<Rightarrow> if w + 1 = k then (r, k) else (RuneError, 1))))"

definition continuation :: "int \<Rightarrow> char" where
  "continuation n = char_of (0x80 + n mod 64)"

definition encode_rune :: "int \<Rightarrow> string" where
  "encode_rune r =
     (let r = (if r < 0 \<or> 0x10FFFF < r \<or> 0xD800 \<le> r \<and> r \<le> 0xDFFF then RuneError else r)
      in if r < 0x80 then [char_of r]
         else if r < 0x800 then [char_of (0xC0 + r div 64), continuation r]
         else if r < 0x10000 then [char_of (0xE0 + r div 4096), continuation (r div 64), continuation r]
         else [char_of (0xF0 + r div 262144), continuation (r div 4096), continuation (r div 64), continuation r])"

subsection \<open>unicode\<close>

text \<open>
  The case mappings: a range whose runes all move by the same amounts to upper and to lower case, or a
  range in which an upper case rune and its lower case alternate.
\<close>

datatype case_range = Shift int int int int | UpperLower int int

definition CaseRanges :: "case_range list" where
  "CaseRanges = [
    Shift 0x00B5 0x00B5 743 0, Shift 0x00C0 0x00D6 0 32, Shift 0x00D8 0x00DE 0 32, Shift 0x00E0 0x00F6 (- 32) 0,
    Shift 0x00F8 0x00FE (- 32) 0, Shift 0x00FF 0x00FF 121 0, UpperLower 0x0100 0x012F, Shift 0x0130 0x0130 0 (- 199),
    Shift 0x0131 0x0131 (- 232) 0, UpperLower 0x0132 0x0137, UpperLower 0x0139 0x0148, UpperLower 0x014A 0x0177,
    Shift 0x0178 0x0178 0 (- 121), UpperLower 0x0179 0x017E, Shift 0x017F 0x017F (- 300) 0, Shift 0x0180 0x0180 195 0,
    Shift 0x0181 0x0181 0 210, UpperLower 0x0182 0x0185, Shift 0x0186 0x0186 0 206, UpperLower 0x0187 0x0188,
    Shift 0x0189 0x018A 0 205, UpperLower 0x018B 0x018C, Shift 0x018E 0x018E 0 79, Shift 0x018F 0x018F 0 202,
    Shift 0x0190 0x0190 0 203, UpperLower 0x0191 0x0192, Shift 0x0193 0x0193 0 205, Shift 0x0194 0x0194 0 207,
    Shift 0x0195 0x0195 97 0, Shift 0x0196 0x0196 0 211, Shift 0x0197 0x0197 0 209, UpperLower 0x0198 0x0199,
    Shift 0x019A 0x019A 163 0, Shift 0x019C 0x019C 0 211, Shift 0x019D 0x019D 0 213, Shift 0x019E 0x019E 130 0,
    Shift 0x019F 0x019F 0 214, UpperLower 0x01A0 0x01A5, Shift 0x01A6 0x01A6 0 218, UpperLower 0x01A7 0x01A8,
    Shift 0x01A9 0x01A9 0 218, UpperLower 0x01AC 0x01AD, Shift 0x01AE 0x01AE 0 218, UpperLower 0x01AF 0x01B0,
    Shift 0x01B1 0x01B2 0 217, UpperLower 0x01B3 0x01B6, Shift 0x01B7 0x01B7 0 219, UpperLower 0x01B8 0x01B9,
    UpperLower 0x01BC 0x01BD, Shift 0x01BF 0x01BF 56 0, Shift 0x01C4 0x01C4 0 2, Shift 0x01C5 0x01C5 (- 1) 1,
    Shift 0x01C6 0x01C6 (- 2) 0, Shift 0x01C7 0x01C7 0 2, Shift 0x01C8 0x01C8 (- 1) 1, Shift 0x01C9 0x01C9 (- 2) 0,
    Shift 0x01CA 0x01CA 0 2, Shift 0x01CB 0x01CB (- 1) 1, Shift 0x01CC 0x01CC (- 2) 0, UpperLower 0x01CD 0x01DC,
    Shift 0x01DD 0x01DD (- 79) 0, UpperLower 0x01DE 0x01EF, Shift 0x01F1 0x01F1 0 2, Shift 0x01F2 0x01F2 (- 1) 1,
    Shift 0x01F3 0x01F3 (- 2) 0, UpperLower 0x01F4 0x01F5, Shift 0x01F6 0x01F6 0 (- 97), Shift 0x01F7 0x01F7 0 (- 56),
    UpperLower 0x01F8 0x021F, Shift 0x0220 0x0220 0 (- 130), UpperLower 0x0222 0x0233, Shift 0x023A 0x023A 0 10795,
    UpperLower 0x023B 0x023C, Shift 0x023D 0x023D 0 (- 163), Shift 0x023E 0x023E 0 10792, Shift 0x023F 0x0240 10815 0,
    UpperLower 0x0241 0x0242, Shift 0x0243 0x0243 0 (- 195), Shift 0x0244 0x0244 0 69, Shift 0x0245 0x0245 0 71,
    UpperLower 0x0246 0x024F, Shift 0x0250 0x0250 10783 0, Shift 0x0251 0x0251 10780 0, Shift 0x0252 0x0252 10782 0,
    Shift 0x0253 0x0253 (- 210) 0, Shift 0x0254 0x0254 (- 206) 0, Shift 0x0256 0x0257 (- 205) 0, Shift 0x0259 0x0259 (- 202) 0,
    Shift 0x025B 0x025B (- 203) 0, Shift 0x025C 0x025C 42319 0, Shift 0x0260 0x0260 (- 205) 0, Shift 0x0261 0x0261 42315 0,
    Shift 0x0263 0x0263 (- 207) 0, Shift 0x0265 0x0265 42280 0, Shift 0x0266 0x0266 42308 0, Shift 0x0268 0x0268 (- 209) 0,
    Shift 0x0269 0x0269 (- 211) 0, Shift 0x026A 0x026A 42308 0, Shift 0x026B 0x026B 10743 0, Shift 0x026C 0x026C 42305 0,
    Shift 0x026F 0x026F (- 211) 0, Shift 0x0271 0x0271 10749 0, Shift 0x0272 0x0272 (- 213) 0, Shift 0x0275 0x0275 (- 214) 0,
    Shift 0x027D 0x027D 10727 0, Shift 0x0280 0x0280 (- 218) 0, Shift 0x0282 0x0282 42307 0, Shift 0x0283 0x0283 (- 218) 0,
    Shift 0x0287 0x0287 42282 0, Shift 0x0288 0x0288 (- 218) 0, Shift 0x0289 0x0289 (- 69) 0, Shift 0x028A 0x028B (- 217) 0,
    Shift 0x028C 0x028C (- 71) 0, Shift 0x0292 0x0292 (- 219) 0, Shift 0x029D 0x029D 42261 0, Shift 0x029E 0x029E 42258 0,
    Shift 0x0345 0x0345 84 0, UpperLower 0x0370 0x0373, UpperLower 0x0376 0x0377, Shift 0x037B 0x037D 130 0,
    Shift 0x037F 0x037F 0 116, Shift 0x0386 0x0386 0 38, Shift 0x0388 0x038A 0 37, Shift 0x038C 0x038C 0 64,
    Shift 0x038E 0x038F 0 63, Shift 0x0391 0x03A1 0 32, Shift 0x03A3 0x03AB 0 32, Shift 0x03AC 0x03AC (- 38) 0,
    Shift 0x03AD 0x03AF (- 37) 0, Shift 0x03B1 0x03C1 (- 32) 0, Shift 0x03C2 0x03C2 (- 31) 0, Shift 0x03C3 0x03CB (- 32) 0,
    Shift 0x03CC 0x03CC (- 64) 0, Shift 0x03CD 0x03CE (- 63) 0, Shift 0x03CF 0x03CF 0 8, Shift 0x03D0 0x03D0 (- 62) 0,
    Shift 0x03D1 0x03D1 (- 57) 0, Shift 0x03D5 0x03D5 (- 47) 0, Shift 0x03D6 0x03D6 (- 54) 0, Shift 0x03D7 0x03D7 (- 8) 0,
    UpperLower 0x03D8 0x03EF, Shift 0x03F0 0x03F0 (- 86) 0, Shift 0x03F1 0x03F1 (- 80) 0, Shift 0x03F2 0x03F2 7 0,
    Shift 0x03F3 0x03F3 (- 116) 0, Shift 0x03F4 0x03F4 0 (- 60), Shift 0x03F5 0x03F5 (- 96) 0, UpperLower 0x03F7 0x03F8,
    Shift 0x03F9 0x03F9 0 (- 7), UpperLower 0x03FA 0x03FB, Shift 0x03FD 0x03FF 0 (- 130), Shift 0x0400 0x040F 0 80,
    Shift 0x0410 0x042F 0 32, Shift 0x0430 0x044F (- 32) 0, Shift 0x0450 0x045F (- 80) 0, UpperLower 0x0460 0x0481,
    UpperLower 0x048A 0x04BF, Shift 0x04C0 0x04C0 0 15, UpperLower 0x04C1 0x04CE, Shift 0x04CF 0x04CF (- 15) 0,
    UpperLower 0x04D0 0x052F, Shift 0x0531 0x0556 0 48, Shift 0x0561 0x0586 (- 48) 0, Shift 0x10A0 0x10C5 0 7264,
    Shift 0x10C7 0x10C7 0 7264, Shift 0x10CD 0x10CD 0 7264, Shift 0x10D0 0x10FA 3008 0, Shift 0x10FD 0x10FF 3008 0,
    Shift 0x13A0 0x13EF 0 38864, Shift 0x13F0 0x13F5 0 8, Shift 0x13F8 0x13FD (- 8) 0, Shift 0x1C80 0x1C80 (- 6254) 0,
    Shift 0x1C81 0x1C81 (- 6253) 0, Shift 0x1C82 0x1C82 (- 6244) 0, Shift 0x1C83 0x1C84 (- 6242) 0, Shift 0x1C85 0x1C85 (- 6243) 0,
    Shift 0x1C86 0x1C86 (- 6236) 0, Shift 0x1C87 0x1C87 (- 6181) 0, Shift 0x1C88 0x1C88 35266 0, Shift 0x1C90 0x1CBA 0 (- 3008),
    Shift 0x1CBD 0x1CBF 0 (- 3008), Shift 0x1D79 0x1D79 35332 0, Shift 0x1D7D 0x1D7D 3814 0, Shift 0x1D8E 0x1D8E 35384 0,
    UpperLower 0x1E00 0x1E95, Shift 0x1E9B 0x1E9B (- 59) 0, Shift 0x1E9E 0x1E9E 0 (- 7615), UpperLower 0x1EA0 0x1EFF,
    Shift 0x1F00 0x1F07 8 0, Shift 0x1F08 0x1F0F 0 (- 8), Shift 0x1F10 0x1F15 8 0, Shift 0x1F18 0x1F1D 0 (- 8),
    Shift 0x1F20 0x1F27 8 0, Shift 0x1F28 0x1F2F 0 (- 8), Shift 0x1F30 0x1F37 8 0, Shift 0x1F38 0x1F3F 0 (- 8),
    Shift 0x1F40 0x1F45 8 0, Shift 0x1F48 0x1F4D 0 (- 8), Shift 0x1F51 0x1F51 8 0, Shift 0x1F53 0x1F53 8 0,
    Shift 0x1F55 0x1F55 8 0, Shift 0x1F57 0x1F57 8 0, Shift 0x1F59 0x1F59 0 (- 8), Shift 0x1F5B 0x1F5B 0 (- 8),
    Shift 0x1F5D 0x1F5D 0 (- 8), Shift 0x1F5F 0x1F5F 0 (- 8), Shift 0x1F60 0x1F67 8 0, Shift 0x1F68 0x1F6F 0 (- 8),
    Shift 0x1F70 0x1F71 74 0, Shift 0x1F72 0x1F75 86 0, Shift 0x1F76 0x1F77 100 0, Shift 0x1F78 0x1F79 128 0,
    Shift 0x1F7A 0x1F7B 112 0, Shift 0x1F7C 0x1F7D 126 0, Shift 0x1F80 0x1F87 8 0, Shift 0x1F88 0x1F8F 0 (- 8),
    Shift 0x1F90 0x1F97 8 0, Shift 0x1F98 0x1F9F 0 (- 8), Shift 0x1FA0 0x1FA7 8 0, Shift 0x1FA8 0x1FAF 0 (- 8),
    Shift 0x1FB0 0x1FB1 8 0, Shift 0x1FB3 0x1FB3 9 0, Shift 0x1FB8 0x1FB9 0 (- 8), Shift 0x1FBA 0x1FBB 0 (- 74),
    Shift 0x1FBC 0x1FBC 0 (- 9), Shift 0x1FBE 0x1FBE (- 7205) 0, Shift 0x1FC3 0x1FC3 9 0, Shift 0x1FC8 0x1FCB 0 (- 86),
    Shift 0x1FCC 0x1FCC 0 (- 9), Shift 0x1FD0 0x1FD1 8 0, Shift 0x1FD8 0x1FD9 0 (- 8), Shift 0x1FDA 0x1FDB 0 (- 100),
    Shift 0x1FE0 0x1FE1 8 0, Shift 0x1FE5 0x1FE5 7 0, Shift 0x1FE8 0x1FE9 0 (- 8), Shift 0x1FEA 0x1FEB 0 (- 112),
    Shift 0x1FEC 0x1FEC 0 (- 7), Shift 0x1FF3 0x1FF3 9 0, Shift 0x1FF8 0x1FF9 0 (- 128), Shift 0x1FFA 0x1FFB 0 (- 126),
    Shift 0x1FFC 0x1FFC 0 (- 9), Shift 0x2126 0x2126 0 (- 7517), Shift 0x212A 0x212A 0 (- 8383), Shift 0x212B 0x212B 0 (- 8262),
    Shift 0x2132 0x2132 0 28, Shift 0x214E 0x214E (- 28) 0, Shift 0x2160 0x216F 0 16, Shift 0x2170 0x217F (- 16) 0,
    UpperLower 0x2183 0x2184, Shift 0x24B6 0x24CF 0 26, Shift 0x24D0 0x24E9 (- 26) 0, Shift 0x2C00 0x2C2F 0 48,
    Shift 0x2C30 0x2C5F (- 48) 0, UpperLower 0x2C60 0x2C61, Shift 0x2C62 0x2C62 0 (- 10743), Shift 0x2C63 0x2C63 0 (- 3814),
    Shift 0x2C64 0x2C64 0 (- 10727), Shift 0x2C65 0x2C65 (- 10795) 0, Shift 0x2C66 0x2C66 (- 10792) 0, UpperLower 0x2C67 0x2C6C,
    Shift 0x2C6D 0x2C6D 0 (- 10780), Shift 0x2C6E 0x2C6E 0 (- 10749), Shift 0x2C6F 0x2C6F 0 (- 10783),
    Shift 0x2C70 0x2C70 0 (- 10782), UpperLower 0x2C72 0x2C73, UpperLower 0x2C75 0x2C76, Shift 0x2C7E 0x2C7F 0 (- 10815),
    UpperLower 0x2C80 0x2CE3, UpperLower 0x2CEB 0x2CEE, UpperLower 0x2CF2 0x2CF3, Shift 0x2D00 0x2D25 (- 7264) 0,
    Shift 0x2D27 0x2D27 (- 7264) 0, Shift 0x2D2D 0x2D2D (- 7264) 0, UpperLower 0xA640 0xA66D, UpperLower 0xA680 0xA69B,
    UpperLower 0xA722 0xA72F, UpperLower 0xA732 0xA76F, UpperLower 0xA779 0xA77C, Shift 0xA77D 0xA77D 0 (- 35332),
    UpperLower 0xA77E 0xA787, UpperLower 0xA78B 0xA78C, Shift 0xA78D 0xA78D 0 (- 42280), UpperLower 0xA790 0xA793,
    Shift 0xA794 0xA794 48 0, UpperLower 0xA796 0xA7A9, Shift 0xA7AA 0xA7AA 0 (- 42308), Shift 0xA7AB 0xA7AB 0 (- 42319),
    Shift 0xA7AC 0xA7AC 0 (- 42315), Shift 0xA7AD 0xA7AD 0 (- 42305), Shift 0xA7AE 0xA7AE 0 (- 42308),
    Shift 0xA7B0 0xA7B0 0 (- 42258), Shift 0xA7B1 0xA7B1 0 (- 42282), Shift 0xA7B2 0xA7B2 0 (- 42261), Shift 0xA7B3 0xA7B3 0 928,
    UpperLower 0xA7B4 0xA7C3, Shift 0xA7C4 0xA7C4 0 (- 48), Shift 0xA7C5 0xA7C5 0 (- 42307), Shift 0xA7C6 0xA7C6 0 (- 35384),
    UpperLower 0xA7C7 0xA7CA, UpperLower 0xA7D0 0xA7D1, UpperLower 0xA7D6 0xA7D9, UpperLower 0xA7F5 0xA7F6,
    Shift 0xAB53 0xAB53 (- 928) 0, Shift 0xAB70 0xABBF (- 38864) 0, Shift 0xFF21 0xFF3A 0 32, Shift 0xFF41 0xFF5A (- 32) 0,
    Shift 0x10400 0x10427 0 40, Shift 0x10428 0x1044F (- 40) 0, Shift 0x104B0 0x104D3 0 40, Shift 0x104D8 0x104FB (- 40) 0,
    Shift 0x10570 0x1057A 0 39, Shift 0x1057C 0x1058A 0 39, Shift 0x1058C 0x10592 0 39, Shift 0x10594 0x10595 0 39,
    Shift 0x10597 0x105A1 (- 39) 0, Shift 0x105A3 0x105B1 (- 39) 0, Shift 0x105B3 0x105B9 (- 39) 0, Shift 0x105BB 0x105BC (- 39) 0,
    Shift 0x10C80 0x10CB2 0 64, Shift 0x10CC0 0x10CF2 (- 64) 0, Shift 0x118A0 0x118BF 0 32, Shift 0x118C0 0x118DF (- 32) 0,
    Shift 0x16E40 0x16E5F 0 32, Shift 0x16E60 0x16E7F (- 32) 0, Shift 0x1E900 0x1E921 0 34, Shift 0x1E922 0x1E943 (- 34) 0]"

fun in_range :: "int \<Rightarrow> case_range \<Rightarrow> bool" where
  "in_range r (Shift low high up down) \<longleftrightarrow> low \<le> r \<and> r \<le> high"
| "in_range r (UpperLower low high) \<longleftrightarrow> low \<le> r \<and> r \<le> high"

fun range_upper :: "int \<Rightarrow> case_range \<Rightarrow> int" where
  "range_upper r (Shift low high up down) = r + up"
| "range_upper r (UpperLower low high) = low + (r - low) div 2 * 2"

fun range_lower :: "int \<Rightarrow> case_range \<Rightarrow> int" where
  "range_lower r (Shift low high up down) = r + down"
| "range_lower r (UpperLower low high) = low + (r - low) div 2 * 2 + 1"

definition upper_rune :: "int \<Rightarrow> int" where
  "upper_rune r =
     (if r < 128 then if 97 \<le> r \<and> r \<le> 122 then r - 32 else r
      else case find (in_range r) CaseRanges of None \<Rightarrow> r | Some e \<Rightarrow> range_upper r e)"

definition lower_rune :: "int \<Rightarrow> int" where
  "lower_rune r =
     (if r < 128 then if 65 \<le> r \<and> r \<le> 90 then r + 32 else r
      else case find (in_range r) CaseRanges of None \<Rightarrow> r | Some e \<Rightarrow> range_lower r e)"

text \<open>
  The representative of a rune under simple folding: the orbits of \<^verbatim>\<open>SimpleFold\<close> are the runes with the
  same upper case, lowered, except that the dotted I and the dotless i stand alone.
\<close>

definition fold_rune :: "int \<Rightarrow> int" where
  "fold_rune r = (if r \<in> {0x130, 0x131} then r else lower_rune (upper_rune r))"

definition is_space_rune :: "int \<Rightarrow> bool" where
  "is_space_rune r \<longleftrightarrow>
     r \<in> {9, 10, 11, 12, 13, 32, 0x85, 0xA0, 0x1680, 0x2028, 0x2029, 0x202F, 0x205F, 0x3000} \<or> 0x2000 \<le> r \<and> r \<le> 0x200A"

subsection \<open>strings\<close>

definition is_space :: "char \<Rightarrow> bool" where
  "is_space c \<longleftrightarrow> of_char c \<in> {9, 10, 11, 12, 13, 32 :: nat}"

definition to_upper_char :: "char \<Rightarrow> char" where
  "to_upper_char c =
     (let n = of_char c :: nat in if 97 \<le> n \<and> n \<le> 122 then char_of (n - 32) else c)"

definition to_lower_char :: "char \<Rightarrow> char" where
  "to_lower_char c =
     (let n = of_char c :: nat in if 65 \<le> n \<and> n \<le> 90 then char_of (n + 32) else c)"

definition ToUpper :: "string \<Rightarrow> string" where
  "ToUpper s =
     (if ascii s then map to_upper_char s
      else concat (map (\<lambda>r. encode_rune (upper_rune r)) (decode_runes s)))"

definition ToLower :: "string \<Rightarrow> string" where
  "ToLower s =
     (if ascii s then map to_lower_char s
      else concat (map (\<lambda>r. encode_rune (lower_rune r)) (decode_runes s)))"

definition fold_text :: "string \<Rightarrow> int list" where
  "fold_text s = map fold_rune (decode_runes s)"

definition EqualFold :: "string \<Rightarrow> string \<Rightarrow> bool" where
  "EqualFold s t \<longleftrightarrow> fold_text s = fold_text t"

fun TrimLeftSpace :: "string \<Rightarrow> string" where
  "TrimLeftSpace [] = []"
| "TrimLeftSpace (a # rest) =
     (case decode_rune a rest of (r, k) \<Rightarrow> if is_space_rune r then TrimLeftSpace (drop k rest) else a # rest)"

lemma decode_last_width: "s \<noteq> [] \<Longrightarrow> decode_last s = (r, k) \<Longrightarrow> 0 < k"
  by (auto simp: decode_last_def split: if_splits list.splits prod.splits)

function TrimRightSpace :: "string \<Rightarrow> string" where
  "TrimRightSpace s =
     (if s = [] then []
      else case decode_last s of (r, k) \<Rightarrow> if is_space_rune r then TrimRightSpace (take (length s - k) s) else s)"
  by pat_completeness auto
termination
proof (relation "measure length")
  show "wf (measure length)" by simp
next
  fix s r k assume "s \<noteq> []" "(r, k) = decode_last s" "is_space_rune r"
  then show "(take (length s - k) s, s) \<in> measure length" using decode_last_width [of s r k] by simp
qed

declare TrimRightSpace.simps [simp del]

definition TrimSpace :: "string \<Rightarrow> string" where
  "TrimSpace s = TrimRightSpace (TrimLeftSpace s)"

subsection \<open>ASCII\<close>

lemma ascii_simps [simp]: "ascii []" "ascii (c # s) \<longleftrightarrow> of_char c < (128 :: int) \<and> ascii s"
  by (simp_all add: ascii_def)

lemma ascii_append [simp]: "ascii (s @ t) \<longleftrightarrow> ascii s \<and> ascii t"
  by (simp add: ascii_def)

lemma ascii_drop: "ascii s \<Longrightarrow> ascii (drop k s)"
  by (auto simp: ascii_def list_all_iff dest: in_set_dropD)

lemma decode_rune_ascii [simp]: "of_char a < (128 :: int) \<Longrightarrow> decode_rune a rest = (of_char a, 0)"
  by (simp add: decode_rune_def)

lemma decode_runes_ascii: "ascii s \<Longrightarrow> decode_runes s = map of_char s"
  by (induction s) simp_all

lemma ToUpper_ascii [ascii_text]: "ascii s \<Longrightarrow> ToUpper s = map to_upper_char s"
  by (simp add: ToUpper_def)

lemma ToLower_ascii [ascii_text]: "ascii s \<Longrightarrow> ToLower s = map to_lower_char s"
  by (simp add: ToLower_def)

lemma is_space_rune_ascii: "of_char c < (128 :: int) \<Longrightarrow> is_space_rune (of_char c) \<longleftrightarrow> is_space c"
proof -
  assume a: "of_char c < (128 :: int)"
  have "(of_char c :: int) = int (of_char c)" by (simp add: of_nat_of_char)
  then show ?thesis using a unfolding is_space_rune_def is_space_def by auto
qed

lemma TrimLeftSpace_ascii: "ascii s \<Longrightarrow> TrimLeftSpace s = dropWhile is_space s"
  by (induction s) (simp_all add: is_space_rune_ascii)

lemma TrimRightSpace_ascii: "ascii s \<Longrightarrow> TrimRightSpace s = rev (dropWhile is_space (rev s))"
proof (induction s rule: rev_induct)
  case (snoc c s)
  then show ?case
    by (simp add: TrimRightSpace.simps [of "s @ [c]"] decode_last_def is_space_rune_ascii)
qed (simp add: TrimRightSpace.simps)

lemma TrimSpace_ascii [ascii_text]:
  "ascii s \<Longrightarrow> TrimSpace s = rev (dropWhile is_space (rev (dropWhile is_space s)))"
proof -
  assume a: "ascii s"
  have "ascii (dropWhile is_space s)" using a by (metis ascii_drop dropWhile_eq_drop)
  then show ?thesis using a by (simp add: TrimSpace_def TrimLeftSpace_ascii TrimRightSpace_ascii)
qed

lemma of_char_int: "(of_char c :: int) = int (of_char c)"
  by (simp add: of_nat_of_char)

lemma of_char_to_lower: "of_char c < (128 :: int) \<Longrightarrow> of_char (to_lower_char c) = lower_rune (of_char c)"
proof -
  assume a: "of_char c < (128 :: int)"
  define n where "n = (of_char c :: nat)"
  have "n < 128" using a by (simp add: of_char_int n_def)
  then have "(of_char (to_lower_char c) :: nat) = (if 65 \<le> n \<and> n \<le> 90 then n + 32 else n)"
    by (simp add: to_lower_char_def n_def Let_def)
  then show ?thesis using \<open>n < 128\<close> unfolding of_char_int lower_rune_def n_def [symmetric] by simp
qed

lemma of_char_to_upper: "of_char c < (128 :: int) \<Longrightarrow> of_char (to_upper_char c) = upper_rune (of_char c)"
proof -
  assume a: "of_char c < (128 :: int)"
  define n where "n = (of_char c :: nat)"
  have "n < 128" using a by (simp add: of_char_int n_def)
  then have "(of_char (to_upper_char c) :: nat) = (if 97 \<le> n \<and> n \<le> 122 then n - 32 else n)"
    by (simp add: to_upper_char_def n_def Let_def)
  then show ?thesis using \<open>n < 128\<close> unfolding of_char_int upper_rune_def n_def [symmetric] by simp
qed

lemma fold_rune_ascii: "of_char c < (128 :: int) \<Longrightarrow> fold_rune (of_char c) = lower_rune (of_char c)"
  by (auto simp: fold_rune_def lower_rune_def upper_rune_def)

lemma EqualFold_ascii [ascii_text]:
  "ascii s \<Longrightarrow> ascii t \<Longrightarrow> EqualFold s t \<longleftrightarrow> map to_lower_char s = map to_lower_char t"
proof -
  have f: "map fold_rune (decode_runes s) = map of_char (map to_lower_char s)" if "ascii s" for s
    using that by (simp add: decode_runes_ascii) (auto simp: ascii_def list_all_iff fold_rune_ascii of_char_to_lower)
  have "inj (of_char :: char \<Rightarrow> int)" by (auto intro: injI)
  then show "ascii s \<Longrightarrow> ascii t \<Longrightarrow> ?thesis" by (simp add: EqualFold_def fold_text_def f inj_map_eq_map del: map_map)
qed

lemma EqualFold_refl [simp]: "EqualFold s s"
  by (simp add: EqualFold_def)

lemma EqualFold_sym: "EqualFold s t \<Longrightarrow> EqualFold t s"
  by (simp add: EqualFold_def)

lemma TrimSpace_Nil [simp]: "TrimSpace [] = []"
  by (simp add: TrimSpace_def TrimRightSpace.simps)

lemma length_TrimSpace: "length (TrimSpace s) \<le> length s"
proof -
  have "length (TrimLeftSpace s) \<le> length s"
  proof (induction s rule: TrimLeftSpace.induct)
    case (2 a rest)
    obtain r k where "decode_rune a rest = (r, k)" by fastforce
    then show ?case using "2.IH" by (auto intro: le_SucI order_trans)
  qed simp
  moreover have "length (TrimRightSpace t) \<le> length t" for t
  proof (induction t rule: TrimRightSpace.induct)
    case (1 s)
    then show ?case by (subst TrimRightSpace.simps) (auto split: prod.split intro: order_trans)
  qed
  ultimately show ?thesis unfolding TrimSpace_def by (meson order_trans)
qed

subsection \<open>Upper case\<close>

lemma encode_rune_ascii: "0 \<le> r \<Longrightarrow> r < 128 \<Longrightarrow> encode_rune r = [char_of r]"
  by (simp add: encode_rune_def)

lemma of_char_char_of_int: "0 \<le> n \<Longrightarrow> n < 256 \<Longrightarrow> of_char (char_of n) = (n :: int)"
  by simp

lemma encode_rune_high:
  assumes "\<not> (0 \<le> r \<and> r < 128)"
  shows "encode_rune r \<noteq> []" "\<forall>c \<in> set (encode_rune r). 128 \<le> (of_char c :: int)"
proof -
  define q where "q = (if r < 0 \<or> 0x10FFFF < r \<or> 0xD800 \<le> r \<and> r \<le> 0xDFFF then RuneError else r)"
  have q: "128 \<le> q" "q \<le> 0x10FFFF" using assms by (auto simp: q_def RuneError_def)
  have e: "encode_rune r =
     (if q < 0x800 then [char_of (0xC0 + q div 64), continuation q]
      else if q < 0x10000 then [char_of (0xE0 + q div 4096), continuation (q div 64), continuation q]
      else [char_of (0xF0 + q div 262144), continuation (q div 4096), continuation (q div 64), continuation q])"
    using q(1) unfolding encode_rune_def Let_def q_def [symmetric] by simp
  have c: "128 \<le> (of_char (continuation n) :: int)" for n
  proof -
    have "0 \<le> n mod 64 \<and> n mod 64 < 64" by simp
    then show ?thesis unfolding continuation_def by (subst of_char_char_of_int) linarith+
  qed
  have b: "128 \<le> (of_char (char_of (k + q div d)) :: int)" if "128 \<le> k" "k + q div d < 256" "0 < d" for k d
  proof -
    have "0 \<le> q div d" using q that by (simp add: pos_imp_zdiv_nonneg_iff)
    then show ?thesis using that by (subst of_char_char_of_int) linarith+
  qed
  show "encode_rune r \<noteq> []" by (simp add: e)
  show "\<forall>c \<in> set (encode_rune r). 128 \<le> (of_char c :: int)"
    using q by (auto simp: e intro!: c b)
qed

lemma ToUpper_runes: "ToUpper s = concat (map (\<lambda>r. encode_rune (upper_rune r)) (decode_runes s))"
proof -
  have "encode_rune (upper_rune (of_char c)) = [to_upper_char c]" if "of_char c < (128 :: int)" for c
  proof -
    have "0 \<le> (of_char c :: int)" by (metis of_nat_0_le_iff of_nat_of_char)
    then have "0 \<le> upper_rune (of_char c) \<and> upper_rune (of_char c) < 128" using that by (auto simp: upper_rune_def)
    then have "encode_rune (upper_rune (of_char c)) = [char_of (upper_rune (of_char c))]" by (simp add: encode_rune_ascii)
    also have "\<dots> = [to_upper_char c]" by (simp flip: of_char_to_upper [OF that])
    finally show ?thesis .
  qed
  then have "concat (map (\<lambda>r. encode_rune (upper_rune r)) (map of_char s)) = map to_upper_char s" if "ascii s"
    using that by (induction s) simp_all
  then show ?thesis by (simp add: ToUpper_def decode_runes_ascii)
qed

lemma encode_runes_ascii:
  "ascii t \<Longrightarrow> concat (map encode_rune rs) = t \<longleftrightarrow> rs = map of_char t"
proof (induction rs arbitrary: t)
  case Nil
  then show ?case by (cases t) auto
next
  case (Cons r rs)
  show ?case
  proof (cases "0 \<le> r \<and> r < 128")
    case True
    then show ?thesis using Cons by (cases t) (auto simp: encode_rune_ascii)
  next
    case False
    then obtain c cs where c: "encode_rune r = c # cs" "128 \<le> (of_char c :: int)"
      using encode_rune_high [OF False] by (cases "encode_rune r") auto
    have "0 \<le> (of_char d :: int)" for d by (metis of_nat_0_le_iff of_nat_of_char)
    then show ?thesis using Cons.prems False c by (cases t) auto
  qed
qed

text \<open>What the entries above ASCII can map into it: the dotless i and the long s, and nothing else.\<close>

lemma CaseRanges_high:
  "list_all (\<lambda>e. case e of Shift low high up down \<Rightarrow> 128 \<le> low + up \<or> e \<in> {Shift 0x131 0x131 (- 232) 0, Shift 0x17F 0x17F (- 300) 0}
     | UpperLower low high \<Rightarrow> 128 \<le> low) CaseRanges"
  by code_simp

lemma CaseRanges_low: "upper_rune 0x131 = 73" "upper_rune 0x17F = 83"
  by code_simp+

lemma upper_rune_into_ascii:
  assumes "n < 128"
  shows "upper_rune r = n \<longleftrightarrow>
    r = n \<and> \<not> (97 \<le> n \<and> n \<le> 122) \<or> r = n + 32 \<and> 65 \<le> n \<and> n \<le> 90 \<or> r = 0x131 \<and> n = 73 \<or> r = 0x17F \<and> n = 83"
proof (cases "r < 128")
  case True
  then show ?thesis using assms by (auto simp: upper_rune_def)
next
  case False
  have "upper_rune r \<ge> 128" if "r \<noteq> 0x131" "r \<noteq> 0x17F"
  proof (cases "find (in_range r) CaseRanges")
    case (Some e)
    then have "e \<in> set CaseRanges" and range: "in_range r e" by (auto simp: find_Some_iff)
    from this(1) have high: "case e of Shift low high up down \<Rightarrow> 128 \<le> low + up \<or>
        e \<in> {Shift 0x131 0x131 (- 232) 0, Shift 0x17F 0x17F (- 300) 0} | UpperLower low high \<Rightarrow> 128 \<le> low"
      using CaseRanges_high unfolding list_all_iff by (rule bspec [rotated])
    have "upper_rune r = range_upper r e" using False Some by (simp add: upper_rune_def)
    moreover have "0 \<le> (r - low) div 2 * 2" if "low \<le> r" for low using that by (simp add: pos_imp_zdiv_nonneg_iff)
    then have "range_upper r (UpperLower low hi) \<ge> low" if "low \<le> r" for low hi using that by simp
    ultimately show ?thesis using that range high by (cases e rule: case_range.exhaust) (auto intro: order_trans simp del: range_upper.simps(2))
  qed (use False in \<open>simp add: upper_rune_def\<close>)
  then show ?thesis using False assms CaseRanges_low by (cases "r = 0x131 \<or> r = 0x17F") auto
qed

text \<open>
  How a name in capitals may be spelt for \<open>ToUpper\<close> to give it: each letter in either case, and the dotless i
  for an I and the long s for an S.
\<close>

definition spells :: "int \<Rightarrow> char \<Rightarrow> bool" where
  "spells r c \<longleftrightarrow> r = of_char c \<or> r = of_char (to_lower_char c) \<or> r = 0x131 \<and> c = CHR ''I'' \<or> r = 0x17F \<and> c = CHR ''S''"

definition capitals :: "string \<Rightarrow> bool" where
  "capitals t \<longleftrightarrow> list_all (\<lambda>c. c = CHR ''_'' \<or> 65 \<le> (of_char c :: int) \<and> of_char c \<le> (90 :: int)) t"

lemma ToUpper_capitals:
  assumes "capitals t" shows "ToUpper s = t \<longleftrightarrow> list_all2 spells (decode_runes s) t"
proof -
  have "upper_rune r = of_char c \<longleftrightarrow> spells r c" if "c = CHR ''_'' \<or> 65 \<le> (of_char c :: int) \<and> of_char c \<le> (90 :: int)" for r c
  proof -
    have less: "of_char c < (128 :: int)" using that by auto
    have I: "(of_char c :: int) = 73 \<longleftrightarrow> c = CHR ''I''" and S: "(of_char c :: int) = 83 \<longleftrightarrow> c = CHR ''S''"
      using of_char_eq_iff [of c "CHR ''I''"] of_char_eq_iff [of c "CHR ''S''"] by simp_all
    show ?thesis
      unfolding upper_rune_into_ascii [OF less] spells_def of_char_to_lower [OF less] I S
      using that by (auto simp: lower_rune_def)
  qed
  then have "list_all2 (\<lambda>r c. upper_rune r = of_char c) rs t = list_all2 spells rs t" for rs
    using assms by (intro list.rel_cong refl) (simp add: capitals_def list_all_iff)
  moreover have "map upper_rune rs = map of_char t \<longleftrightarrow> list_all2 (\<lambda>r c. upper_rune r = of_char c) rs t" for rs
    unfolding list_all2_eq list_all2_map1 list_all2_map2 ..
  ultimately have step: "map upper_rune rs = map of_char t \<longleftrightarrow> list_all2 spells rs t" for rs by simp
  have "ascii t" using assms unfolding ascii_def capitals_def by (rule list.pred_mono_strong) auto
  then show ?thesis
    using encode_runes_ascii [of t "map upper_rune (decode_runes s)"] step by (simp add: ToUpper_runes comp_def)
qed

text \<open>A sequence of two bytes or more never decodes to an ASCII rune.\<close>

lemma decode_rune_high:
  assumes "decode_rune a rest = (r, k)" "128 \<le> (of_char a :: int)" shows "128 \<le> r"
proof (cases "lead (of_char a)")
  case (Some e)
  obtain w low high where e: "e = (w, low, high)" by (metis prod_cases3)
  define n where "n = (of_char a :: int)"
  define cs where "cs = map (of_char :: char \<Rightarrow> int) (take w rest)"
  have split: "decode_rune a rest = (if length cs = w \<and> low \<le> hd cs \<and> hd cs \<le> high \<and> list_all (\<lambda>c. 0x80 \<le> c \<and> c \<le> 0xBF) cs
      then (foldl (\<lambda>x c. x * 64 + (c - 0x80)) (n mod 2 ^ (6 - w)) cs, w) else (RuneError, 0))"
    using assms(2) Some unfolding decode_rune_def Let_def e cs_def n_def by simp
  show ?thesis
  proof (cases "length cs = w \<and> low \<le> hd cs \<and> hd cs \<le> high \<and> list_all (\<lambda>c. 0x80 \<le> c \<and> c \<le> 0xBF) cs")
    case True
    then have "decode_rune a rest = (foldl (\<lambda>x c. x * 64 + (c - 0x80)) (n mod 2 ^ (6 - w)) cs, w)" using split by meson
    then have r: "r = foldl (\<lambda>x c. x * 64 + (c - 0x80)) (n mod 2 ^ (6 - w)) cs" using assms(1) by simp
    have "w = 1 \<and> 2 \<le> n mod 32 \<or> w = 2 \<and> (1 \<le> n mod 16 \<or> 0xA0 \<le> low) \<or> w = 3 \<and> (1 \<le> n mod 8 \<or> 0x90 \<le> low)"
      using Some e unfolding lead_def n_def [symmetric] by (auto split: if_splits) presburger+
    then consider (two) "w = 1" "2 \<le> n mod 32" | (three) "w = 2" "1 \<le> n mod 16 \<or> 0xA0 \<le> low" | (four) "w = 3" "1 \<le> n mod 8 \<or> 0x90 \<le> low"
      by blast
    then show ?thesis
    proof cases
      case two
      then obtain c where "cs = [c]" using True by (auto simp: length_Suc_conv)
      then show ?thesis using True r two by simp
    next
      case three
      then obtain c d where "cs = [c, d]" using True by (auto simp: length_Suc_conv numeral_eq_Suc)
      moreover have "0 \<le> n mod 16" by simp
      ultimately show ?thesis using True r three by auto
    next
      case four
      then obtain c d e where "cs = [c, d, e]" using True by (auto simp: length_Suc_conv numeral_eq_Suc)
      moreover have "0 \<le> n mod 8" by simp
      ultimately show ?thesis using True r four by auto
    qed
  next
    case False
    then have "decode_rune a rest = (RuneError, 0)" using split by meson
    then show ?thesis using assms(1) by (simp add: RuneError_def)
  qed
qed (use assms in \<open>simp add: decode_rune_def RuneError_def\<close>)

lemma decode_rune_char:
  assumes "decode_rune a rest = (r, k)" "r = of_char c" "of_char c < (128 :: int)" shows "a = c \<and> k = 0"
  using assms decode_rune_high [OF assms(1)] by (cases "of_char a < (128 :: int)") auto

lemma decode_runes_char: "of_char c < (128 :: int) \<Longrightarrow> of_char c \<in> set (decode_runes s) \<Longrightarrow> c \<in> set s"
proof (induction s rule: decode_runes.induct)
  case (2 a rest)
  obtain r k where d: "decode_rune a rest = (r, k)" by fastforce
  then show ?case using 2 decode_rune_char [OF d] by (auto dest: in_set_dropD)
qed simp

text \<open>An ASCII character below the capitals comes from itself.\<close>

lemma ToUpper_char:
  assumes "c \<in> set (ToUpper s)" "of_char c < (65 :: int)" shows "c \<in> set s"
proof -
  obtain r where r: "r \<in> set (decode_runes s)" "c \<in> set (encode_rune (upper_rune r))"
    using assms(1) by (auto simp: ToUpper_runes)
  have "0 \<le> upper_rune r \<and> upper_rune r < 128" using r(2) assms(2) encode_rune_high(2) [of "upper_rune r"] by force
  then have "upper_rune r = of_char c" using r(2) by (auto simp: encode_rune_ascii)
  then have "r = of_char c" using upper_rune_into_ascii [of "of_char c" r] assms(2) by auto
  then show ?thesis using decode_runes_char r(1) assms(2) by auto
qed

end
