(* ===== verification/Prelude.thy ===== *)
theory Prelude
  imports
    Main
    "HOL-Library.Word"
    "HOL-Library.Multiset"
    "HOL-Library.Char_ord"
    "HOL-Library.List_Lexorder"
    Unicode
begin

section \<open>Prelude: the parts of Go the backend is written in\<close>

text \<open>
  What every component of the NETRA control plane uses of the Go language and its standard
  library: 64-bit integers, \<^verbatim>\<open>time.Time\<close> and \<^verbatim>\<open>time.Duration\<close>, \<^verbatim>\<open>uuid.UUID\<close>, byte strings with
  the functions of package \<^verbatim>\<open>strings\<close>, \<^verbatim>\<open>sort.SliceStable\<close>, and the way a database call fails.

  \<^item> A Go \<^verbatim>\<open>int\<close> is an \<^typ>\<open>int\<close>; \<open>wrap64\<close> is written where an operation can leave the 64-bit range.
  \<^item> A Go string is a \<^typ>\<open>string\<close>, one \<^typ>\<open>char\<close> per byte, so \<open>length\<close> is Go's \<^verbatim>\<open>len\<close>.  Case folding
    and trimming read it as UTF-8 (theory \<open>Unicode\<close>).
  \<^item> An instant is the number of nanoseconds since the Unix epoch, a duration a signed 64-bit
    number of nanoseconds; \<open>time_Sub\<close> saturates as \<^verbatim>\<open>Time.Sub\<close> does.
  \<^item> A statement sent to PostgreSQL may fail for reasons outside the program.  The statements that
    fail in one call are named by their error prefixes in a list of \<open>faults\<close>.
\<close>

named_theorems go_simps \<open>rewrite rules for the Go primitives\<close>
named_theorems go_consts \<open>definitions of the program's constants\<close>

subsection \<open>64-bit integers\<close>

definition wrap64 :: "int \<Rightarrow> int" where
  "wrap64 n = (n + 2 ^ 63) mod 2 ^ 64 - 2 ^ 63"

definition fits64 :: "int \<Rightarrow> bool" where
  "fits64 n \<longleftrightarrow> - (2 ^ 63) \<le> n \<and> n < 2 ^ 63"

lemma wrap64_id [go_simps]: "fits64 n \<Longrightarrow> wrap64 n = n"
  by (simp add: fits64_def wrap64_def)

lemma fits64_wrap64: "fits64 (wrap64 n)"
proof -
  have "0 \<le> (n + 2 ^ 63) mod (2 ^ 64 :: int)" "(n + 2 ^ 63) mod (2 ^ 64 :: int) < 2 ^ 64"
    by simp_all
  then show ?thesis by (simp add: fits64_def wrap64_def)
qed

lemma wrap64_idem [simp]: "wrap64 (wrap64 n) = wrap64 n"
  by (rule wrap64_id [OF fits64_wrap64])

lemma fits64_small [intro]: "\<bar>n\<bar> < 2 ^ 63 \<Longrightarrow> fits64 n"
  by (auto simp: fits64_def)

text \<open>Integer division of Go truncates towards zero.\<close>

definition go_div :: "int \<Rightarrow> int \<Rightarrow> int" where
  "go_div a b = sgn a * sgn b * (\<bar>a\<bar> div \<bar>b\<bar>)"

lemma go_div_nonneg [go_simps]: "0 \<le> a \<Longrightarrow> 0 < b \<Longrightarrow> go_div a b = a div b"
  by (cases "a = 0") (simp_all add: go_div_def)

subsection \<open>Instants and durations\<close>

type_synonym time = int
type_synonym duration = int

definition nanosecond :: duration where [go_consts]: "nanosecond = 1"
definition microsecond :: duration where [go_consts]: "microsecond = 1000"
definition second :: duration where [go_consts]: "second = 1000000000"
definition minute :: duration where [go_consts]: "minute = 60000000000"
definition hour :: duration where [go_consts]: "hour = 3600000000000"
definition day :: duration where [go_consts]: "day = 86400000000000"

definition max_duration :: duration where "max_duration = 2 ^ 63 - 1"
definition min_duration :: duration where "min_duration = - (2 ^ 63)"

text \<open>\<^verbatim>\<open>Time.Sub\<close>: the difference, or the nearest representable duration.\<close>

definition time_Sub :: "time \<Rightarrow> time \<Rightarrow> duration" where
  "time_Sub t u =
     (if t - u < min_duration then min_duration
      else if t - u > max_duration then max_duration
      else t - u)"

definition time_Add :: "time \<Rightarrow> duration \<Rightarrow> time" where
  "time_Add t d = t + d"

definition time_After :: "time \<Rightarrow> time \<Rightarrow> bool" where
  "time_After t u \<longleftrightarrow> u < t"

text \<open>\<^verbatim>\<open>AddDate(0, 0, n)\<close> on a UTC instant moves by whole days.\<close>

definition time_AddDays :: "time \<Rightarrow> int \<Rightarrow> time" where
  "time_AddDays t n = t + n * day"

definition time_Hour :: "time \<Rightarrow> nat" where
  "time_Hour t = nat ((t div hour) mod 24)"

text \<open>
  \<^verbatim>\<open>time.Unix(s, 0)\<close> keeps the seconds since year 1 in a signed 64-bit field, which wraps, and
  \<^verbatim>\<open>Unix\<close> undoes it.
\<close>

definition time_of_Unix :: "int \<Rightarrow> time" where
  "time_of_Unix s = (wrap64 (s + 62135596800) - 62135596800) * second"

definition time_Unix :: "time \<Rightarrow> int" where
  "time_Unix t = wrap64 (t div second)"

text \<open>The zero \<^verbatim>\<open>time.Time\<close> is the first of January of year 1.\<close>

definition zero_time :: time where
  "zero_time = - 62135596800 * second"

definition time_IsZero :: "time \<Rightarrow> bool" where
  "time_IsZero t \<longleftrightarrow> t = zero_time"

definition time_Truncate_us :: "time \<Rightarrow> time" where
  "time_Truncate_us t = t - t mod microsecond"

text \<open>Negating the least duration leaves it unchanged, as every two's complement negation does.\<close>

definition duration_neg :: "duration \<Rightarrow> duration" where
  "duration_neg d = wrap64 (- d)"

lemma time_Hour_less [simp]: "time_Hour t < 24"
  by (simp add: time_Hour_def nat_less_iff)

lemma time_Sub_exact: "fits64 (t - u) \<Longrightarrow> time_Sub t u = t - u"
  by (simp add: time_Sub_def fits64_def min_duration_def max_duration_def)

lemma fits64_time_Sub: "fits64 (time_Sub t u)"
  by (simp add: time_Sub_def fits64_def min_duration_def max_duration_def)

lemma time_Sub_gt_iff:
  "\<bar>d\<bar> < max_duration \<Longrightarrow> time_Sub t u > d \<longleftrightarrow> t - u > d"
  by (auto simp: time_Sub_def min_duration_def max_duration_def)

lemma time_Sub_less_iff:
  "\<bar>d\<bar> < max_duration \<Longrightarrow> time_Sub t u < d \<longleftrightarrow> t - u < d"
  by (auto simp: time_Sub_def min_duration_def max_duration_def)

lemma duration_neg_min: "duration_neg min_duration = min_duration"
  by (simp add: duration_neg_def min_duration_def wrap64_def)

lemma duration_neg_other:
  "fits64 d \<Longrightarrow> d \<noteq> min_duration \<Longrightarrow> duration_neg d = - d"
  by (simp add: duration_neg_def min_duration_def wrap64_id fits64_def)

lemma wrap64_wrap_add [simp]: "wrap64 (wrap64 a + b) = wrap64 (a + b)"
proof -
  have "wrap64 a + b + 2 ^ 63 = (a + 2 ^ 63) mod 2 ^ 64 + b" by (simp add: wrap64_def)
  then show ?thesis
    unfolding wrap64_def [of "wrap64 a + b"] wrap64_def [of "a + b"] by (simp add: mod_simps ac_simps)
qed

lemma time_Unix_of_Unix: "fits64 s \<Longrightarrow> time_Unix (time_of_Unix s) = s"
  using wrap64_wrap_add [of "s + 62135596800" "- 62135596800"]
  by (simp add: time_Unix_def time_of_Unix_def second_def wrap64_id)

lemma time_Truncate_us_idem [simp]:
  "time_Truncate_us (time_Truncate_us t) = time_Truncate_us t"
  by (simp add: time_Truncate_us_def microsecond_def minus_mod_eq_mult_div)

subsection \<open>Strings\<close>

fun Join :: "string list \<Rightarrow> string \<Rightarrow> string" where
  "Join [] sep = []"
| "Join [s] sep = s"
| "Join (s # ss) sep = s @ sep @ Join ss sep"

text \<open>The first character of a string, found or not: \<^verbatim>\<open>strings.Cut\<close> with a one-byte separator.\<close>

definition Cut :: "string \<Rightarrow> char \<Rightarrow> string \<times> string \<times> bool" where
  "Cut s c =
     (if c \<in> set s
      then (takeWhile (\<lambda>x. x \<noteq> c) s, tl (dropWhile (\<lambda>x. x \<noteq> c) s), True)
      else (s, [], False))"

definition newline :: char where "newline = CHR 0x0A"

definition is_digit :: "char \<Rightarrow> bool" where
  "is_digit c \<longleftrightarrow> 48 \<le> (of_char c :: nat) \<and> (of_char c :: nat) \<le> 57"

definition digit_char :: "nat \<Rightarrow> char" where
  "digit_char d = char_of (48 + d)"

lemma of_char_digit_char [simp]: "d < 10 \<Longrightarrow> (of_char (digit_char d) :: nat) = 48 + d"
  by (simp add: digit_char_def)

lemma is_digit_digit_char [simp]: "d < 10 \<Longrightarrow> is_digit (digit_char d)"
  by (simp add: is_digit_def)

lemma digit_char_eval [simp]:
  "digit_char 0 = CHR ''0''" "digit_char 1 = CHR ''1''" "digit_char 2 = CHR ''2''"
  "digit_char 3 = CHR ''3''" "digit_char 4 = CHR ''4''" "digit_char 5 = CHR ''5''"
  "digit_char 6 = CHR ''6''" "digit_char 7 = CHR ''7''" "digit_char 8 = CHR ''8''"
  "digit_char 9 = CHR ''9''"
  by (simp_all add: digit_char_def char_of_def bit_0)

text \<open>\<^verbatim>\<open>fmt.Sprint\<close> on a non-negative integer.\<close>

fun show_nat :: "nat \<Rightarrow> string" where
  "show_nat n = (if n < 10 then [digit_char n] else show_nat (n div 10) @ [digit_char (n mod 10)])"

declare show_nat.simps [simp del]

definition show_int :: "int \<Rightarrow> string" where
  "show_int n = (if n < 0 then CHR ''-'' # show_nat (nat (- n)) else show_nat (nat n))"

fun nat_of_digits :: "string \<Rightarrow> nat" where
  "nat_of_digits s = foldl (\<lambda>n c. 10 * n + (of_char c - 48)) 0 s"

declare nat_of_digits.simps [simp del]

lemma nat_of_digits_snoc:
  "nat_of_digits (s @ [c]) = 10 * nat_of_digits s + (of_char c - 48)"
  by (simp add: nat_of_digits.simps)

lemma nat_of_digits_show_nat [simp]: "nat_of_digits (show_nat n) = n"
proof (induction n rule: show_nat.induct)
  case (1 n)
  then show ?case
    by (cases "n < 10")
      (simp_all add: show_nat.simps [of n] nat_of_digits_snoc, simp add: nat_of_digits.simps)
qed

lemma show_nat_digits: "\<forall>c\<in>set (show_nat n). is_digit c"
proof (induction n rule: show_nat.induct)
  case (1 n)
  then show ?case
    by (cases "n < 10") (auto simp: show_nat.simps [of n])
qed

lemma show_nat_inject [simp]: "show_nat m = show_nat n \<longleftrightarrow> m = n"
  by (metis nat_of_digits_show_nat)

lemma show_nat_nonempty [simp]: "show_nat n \<noteq> []"
  by (subst show_nat.simps) simp

lemma show_int_chars: "c \<in> set (show_int n) \<Longrightarrow> is_digit c \<or> c = CHR ''-''"
  by (auto simp: show_int_def show_nat_digits split: if_splits)

lemma minus_not_digit [simp]: "\<not> is_digit (CHR ''-'')"
  by (simp add: is_digit_def)

lemma newline_not_digit [simp]: "\<not> is_digit newline"
  by (simp add: is_digit_def newline_def)

lemma show_int_no_newline [simp]: "newline \<notin> set (show_int n)"
  using show_int_chars [of newline n] by (auto simp: newline_def is_digit_def)

lemma show_int_inject [simp]: "show_int m = show_int n \<longleftrightarrow> m = n"
proof
  assume eq: "show_int m = show_int n"
  have neq: "show_nat k \<noteq> CHR ''-'' # show_nat l" for k l
    using show_nat_digits [of k] by auto
  show "m = n"
    using eq neq neq [symmetric] by (auto simp: show_int_def split: if_splits)
qed simp

text \<open>A separator that does not occur in a field tells where the field ends.\<close>

lemma split_at_first:
  assumes "x @ c # y = x' @ c # y'" "c \<notin> set x" "c \<notin> set x'" shows "x = x' \<and> y = y'"
proof -
  have "takeWhile (\<lambda>d. d \<noteq> c) (z @ c # w) = z" if "c \<notin> set z" for z w
    using that by (induction z) auto
  then have "x = x'" using assms by metis
  with assms(1) show ?thesis by simp
qed

lemma split_at_last:
  assumes "x @ c # y = x' @ c # y'" "c \<notin> set y" "c \<notin> set y'" shows "x = x' \<and> y = y'"
  using split_at_first [of "rev y" c "rev x" "rev y'" "rev x'"] arg_cong [OF assms(1), of rev] assms(2,3) by simp

subsection \<open>Identifiers\<close>

text \<open>A \<^verbatim>\<open>uuid.UUID\<close> is 128 bits; \<^verbatim>\<open>String\<close> writes it as 8-4-4-4-12 lower-case hexadecimal digits.\<close>

type_synonym uuid = "128 word"

definition uuid_Nil :: uuid where "uuid_Nil = 0"

definition hex_digit :: "nat \<Rightarrow> char" where
  "hex_digit d = (if d < 10 then char_of (48 + d) else char_of (87 + d))"

definition uuid_nibble :: "uuid \<Rightarrow> nat \<Rightarrow> nat" where
  "uuid_nibble u i = unat u div 16 ^ (31 - i) mod 16"

definition uuid_hex :: "uuid \<Rightarrow> string" where
  "uuid_hex u = map (\<lambda>i. hex_digit (uuid_nibble u i)) [0..<32]"

definition uuid_String :: "uuid \<Rightarrow> string" where
  "uuid_String u =
     (let h = uuid_hex u in
      take 8 h @ ''-'' @ take 4 (drop 8 h) @ ''-'' @ take 4 (drop 12 h) @ ''-'' @
      take 4 (drop 16 h) @ ''-'' @ drop 20 h)"

lemma hex_digit_eval [simp]:
  "hex_digit 0 = CHR ''0''" "hex_digit (Suc 0) = CHR ''1''" "hex_digit 2 = CHR ''2''"
  "hex_digit 3 = CHR ''3''" "hex_digit 4 = CHR ''4''" "hex_digit 5 = CHR ''5''"
  "hex_digit 6 = CHR ''6''" "hex_digit 7 = CHR ''7''" "hex_digit 8 = CHR ''8''"
  "hex_digit 9 = CHR ''9''" "hex_digit 10 = CHR ''a''" "hex_digit 11 = CHR ''b''"
  "hex_digit 12 = CHR ''c''" "hex_digit 13 = CHR ''d''" "hex_digit 14 = CHR ''e''"
  "hex_digit 15 = CHR ''f''"
  by (simp_all add: hex_digit_def char_of_def bit_0)

lemma hex_digit_inj: "a < 16 \<Longrightarrow> b < 16 \<Longrightarrow> hex_digit a = hex_digit b \<Longrightarrow> a = b"
proof -
  assume lt: "a < 16" "b < 16" and eq: "hex_digit a = hex_digit b"
  have "(of_char (hex_digit a) :: nat) = of_char (hex_digit b)" using eq by simp
  with lt show ?thesis by (auto simp: hex_digit_def split: if_splits)
qed

lemma length_uuid_hex [simp]: "length (uuid_hex u) = 32"
  by (simp add: uuid_hex_def)

lemma length_uuid_String: "length (uuid_String u) = 36"
  by (simp add: uuid_String_def Let_def)

lemma hex_digits_determine:
  "(\<forall>i < k. m div 16 ^ i mod 16 = n div 16 ^ i mod 16) \<Longrightarrow> m mod 16 ^ k = n mod (16 ^ k :: nat)"
proof (induction k)
  case 0
  then show ?case by simp
next
  case (Suc k)
  have step: "j mod 16 ^ Suc k = 16 ^ k * (j div 16 ^ k mod 16) + j mod 16 ^ k" for j :: nat
    by (simp add: mod_mult2_eq [of j "16 ^ k" 16, symmetric] mult.commute)
  from Suc have "m mod 16 ^ k = n mod 16 ^ k" "m div 16 ^ k mod 16 = n div 16 ^ k mod 16"
    by simp_all
  then show ?case unfolding step by simp
qed

lemma uuid_hex_inject: "uuid_hex u = uuid_hex v \<Longrightarrow> u = v"
proof -
  assume eq: "uuid_hex u = uuid_hex v"
  have nib: "uuid_nibble u i = uuid_nibble v i" if "i < 32" for i
  proof -
    have "uuid_hex u ! i = uuid_hex v ! i" using eq by simp
    then show ?thesis using that
      by (intro hex_digit_inj) (simp_all add: uuid_hex_def uuid_nibble_def)
  qed
  have "\<forall>i < 32. unat u div 16 ^ i mod 16 = unat v div 16 ^ i mod 16"
  proof (intro allI impI)
    fix i :: nat assume "i < 32"
    then show "unat u div 16 ^ i mod 16 = unat v div 16 ^ i mod 16"
      using nib [of "31 - i"] by (simp add: uuid_nibble_def)
  qed
  then have "unat u mod 16 ^ 32 = unat v mod 16 ^ 32" by (rule hex_digits_determine)
  moreover have "unat w < 16 ^ 32" for w :: uuid
    using unsigned_less [of w] by simp
  ultimately show ?thesis by (simp add: word_unat_eq_iff)
qed

lemma uuid_String_inject: "uuid_String u = uuid_String v \<longleftrightarrow> u = v"
proof
  let ?h = "\<lambda>s. take 8 s @ take 4 (drop 9 s) @ take 4 (drop 14 s) @ take 4 (drop 19 s) @ drop 24 s"
  have h: "?h (uuid_String w) = uuid_hex w" for w
  proof -
    have split: "take n s @ take m (drop n s) = take (n + m) s" for n m and s :: string
      by (simp add: take_add)
    have "take 8 (uuid_hex w) @ take 4 (drop 8 (uuid_hex w)) @ take 4 (drop 12 (uuid_hex w)) @
        take 4 (drop 16 (uuid_hex w)) @ drop 20 (uuid_hex w) = uuid_hex w"
      using split [of 8 "uuid_hex w" 4] split [of 12 "uuid_hex w" 4] split [of 16 "uuid_hex w" 4]
      by (simp flip: append_assoc)
    then show ?thesis by (simp add: uuid_String_def Let_def)
  qed
  assume "uuid_String u = uuid_String v"
  then have "uuid_hex u = uuid_hex v" using h by metis
  then show "u = v" by (rule uuid_hex_inject)
qed simp

subsection \<open>Database columns and faults\<close>

lemma find_SomeD: "find P xs = Some x \<Longrightarrow> x \<in> set xs \<and> P x"
  by (induction xs) (auto split: if_splits)

text \<open>A \<^verbatim>\<open>SMALLINT\<close> column takes 16-bit integers.\<close>

definition fits16 :: "int \<Rightarrow> bool" where
  "fits16 n \<longleftrightarrow> - 32768 \<le> n \<and> n \<le> 32767"

type_synonym faults = "string list"

definition fault :: "faults \<Rightarrow> string \<Rightarrow> bool" where
  "fault fs stmt \<longleftrightarrow> stmt \<in> set fs"

lemma fault_Nil [simp]: "\<not> fault [] s"
  by (simp add: fault_def)

end
