(* ===== verification/Slices.thy ===== *)
theory Slices
  imports Prelude
begin

section \<open>Slices: \<^verbatim>\<open>sort.SliceStable\<close> and its contract\<close>

text \<open>
  The risk engine and the policy engine order slices with \<^verbatim>\<open>sort.SliceStable\<close> and a comparison
  closure.  The result of a stable sort is determined by the comparison alone, so the library
  routine is modelled by stable insertion.  The contract of the comparison is the locale
  \<open>slice_order\<close>, a strict weak order; its lemmas (the result is a permutation, ordered, keeps the
  order of equivalent elements, and does not depend on the order of the input when no two elements
  are equivalent) are proved once here and used through one interpretation per comparison.
\<close>

fun insert_stable :: "('a \<Rightarrow> 'a \<Rightarrow> bool) \<Rightarrow> 'a \<Rightarrow> 'a list \<Rightarrow> 'a list" where
  "insert_stable lt x [] = [x]"
| "insert_stable lt x (y # ys) =
     (if lt y x then y # insert_stable lt x ys else x # y # ys)"

fun SliceStable :: "('a \<Rightarrow> 'a \<Rightarrow> bool) \<Rightarrow> 'a list \<Rightarrow> 'a list" where
  "SliceStable lt [] = []"
| "SliceStable lt (x # xs) = insert_stable lt x (SliceStable lt xs)"

lemma mset_insert_stable [simp]: "mset (insert_stable lt x ys) = add_mset x (mset ys)"
  by (induction ys) auto

lemma mset_SliceStable [simp]: "mset (SliceStable lt xs) = mset xs"
  by (induction xs) auto

lemma set_SliceStable [simp]: "set (SliceStable lt xs) = set xs"
  by (metis mset_SliceStable set_mset_mset)

lemma length_SliceStable [simp]: "length (SliceStable lt xs) = length xs"
  by (metis mset_SliceStable size_mset)

lemma SliceStable_Nil_iff [simp]: "SliceStable lt xs = [] \<longleftrightarrow> xs = []"
  by (metis length_0_conv length_SliceStable)

lemma sum_list_SliceStable [simp]:
  "sum_list (map f (SliceStable lt xs)) = sum_list (map (f :: 'a \<Rightarrow> int) xs)"
  by (metis mset_SliceStable mset_map sum_mset_sum_list)

lemma sum_list_filter_SliceStable [simp]:
  "sum_list (map f (filter P (SliceStable lt xs))) = sum_list (map (f :: 'a \<Rightarrow> int) (filter P xs))"
  by (metis mset_SliceStable mset_filter mset_map sum_mset_sum_list)

lemma sorted_wrt_unique:
  assumes "sorted_wrt R xs" "sorted_wrt R ys" "mset xs = mset ys"
    and "\<And>x y. x \<in> set xs \<Longrightarrow> y \<in> set xs \<Longrightarrow> R x y \<Longrightarrow> R y x \<Longrightarrow> x = y"
  shows "xs = ys"
  using assms
proof (induction xs arbitrary: ys)
  case Nil
  then show ?case by simp
next
  case (Cons x xs)
  then obtain y ys' where ys: "ys = y # ys'" by (cases ys) auto
  have "x = y"
  proof (rule ccontr)
    assume ne: "x \<noteq> y"
    have sets: "set (x # xs) = set ys" using Cons.prems(3) by (metis set_mset_mset)
    with ne ys have "y \<in> set xs" "x \<in> set ys'" by (metis set_ConsD list.set_intros(1))+
    then have "R x y" "R y x" using Cons.prems(1,2) ys by auto
    then show False using Cons.prems(4) [of x y] \<open>y \<in> set xs\<close> ne by simp
  qed
  with Cons.prems ys have "xs = ys'" by (intro Cons.IH) auto
  with \<open>x = y\<close> ys show ?case by simp
qed

locale slice_order =
  fixes lt :: "'a \<Rightarrow> 'a \<Rightarrow> bool"
  assumes lt_irrefl: "\<not> lt x x"
    and lt_trans: "lt x y \<Longrightarrow> lt y z \<Longrightarrow> lt x z"
    and lt_neg_trans: "\<not> lt x y \<Longrightarrow> \<not> lt y z \<Longrightarrow> \<not> lt x z"
begin

lemma lt_asym: "lt x y \<Longrightarrow> \<not> lt y x"
  using lt_irrefl lt_trans by blast

lemma insert_sorted:
  "sorted_wrt (\<lambda>x y. \<not> lt y x) ys \<Longrightarrow> sorted_wrt (\<lambda>x y. \<not> lt y x) (insert_stable lt x ys)"
proof (induction ys)
  case Nil
  then show ?case by simp
next
  case (Cons y ys)
  have "set (insert_stable lt x ys) = insert x (set ys)"
    by (metis mset_insert_stable set_mset_add_mset_insert set_mset_mset)
  with Cons show ?case by (auto dest: lt_asym lt_neg_trans)
qed

lemma SliceStable_sorted: "sorted_wrt (\<lambda>x y. \<not> lt y x) (SliceStable lt xs)"
  by (induction xs) (auto intro: insert_sorted)

lemma insert_stable_class:
  "sorted_wrt (\<lambda>x y. \<not> lt y x) ys \<Longrightarrow>
   filter (\<lambda>y. \<not> lt a y \<and> \<not> lt y a) (insert_stable lt x ys) =
   filter (\<lambda>y. \<not> lt a y \<and> \<not> lt y a) (x # ys)"
proof (induction ys)
  case Nil
  then show ?case by simp
next
  case (Cons y ys)
  then show ?case by (auto dest: lt_neg_trans)
qed

text \<open>Equivalent elements keep the order they had.\<close>

lemma SliceStable_stable:
  "filter (\<lambda>y. \<not> lt a y \<and> \<not> lt y a) (SliceStable lt xs) =
   filter (\<lambda>y. \<not> lt a y \<and> \<not> lt y a) xs"
  by (induction xs) (simp_all add: insert_stable_class SliceStable_sorted del: insert_stable.simps)

text \<open>A slice that is in order already is left as it is.\<close>

lemma SliceStable_id: "sorted_wrt (\<lambda>x y. \<not> lt y x) xs \<Longrightarrow> SliceStable lt xs = xs"
proof (induction xs)
  case (Cons x xs)
  then have "SliceStable lt xs = xs" "\<forall>y \<in> set xs. \<not> lt y x" by simp_all
  then show ?case by (cases xs) auto
qed simp

lemma SliceStable_hd_least:
  assumes "x \<in> set xs" shows "\<not> lt x (hd (SliceStable lt xs))"
proof -
  obtain y ys where "SliceStable lt xs = y # ys"
    using assms by (cases "SliceStable lt xs") auto
  moreover from this have "x \<in> set (y # ys)"
    using assms by (metis set_SliceStable)
  ultimately show ?thesis
    using SliceStable_sorted [of xs] lt_irrefl by auto
qed

lemma SliceStable_perm:
  assumes "mset xs = mset ys"
    and "\<And>x y. x \<in> set xs \<Longrightarrow> y \<in> set xs \<Longrightarrow> x \<noteq> y \<Longrightarrow> lt x y \<or> lt y x"
  shows "SliceStable lt xs = SliceStable lt ys"
  by (rule sorted_wrt_unique [OF SliceStable_sorted SliceStable_sorted])
    (use assms in \<open>auto\<close>)

end

text \<open>A comparison by a key into a linear order is such an order.\<close>

lemma slice_order_key:
  fixes key :: "'a \<Rightarrow> 'k :: linorder"
  shows "slice_order (\<lambda>x y. key x < key y)"
  by unfold_locales auto

subsection \<open>Rows in the order a query returns them\<close>

text \<open>
  \<^verbatim>\<open>ORDER BY stamp DESC\<close>.  A table is the list of its rows in the order a scan finds them, which is
  arbitrary; rows with equal stamps come in that order, so a statement about every table covers
  every way PostgreSQL may break a tie.  \<open>page_limit\<close> is the guard the list operations share.
\<close>

definition newest_first :: "('r \<Rightarrow> int) \<Rightarrow> 'r list \<Rightarrow> 'r list" where
  "newest_first stamp = SliceStable (\<lambda>a b. stamp b < stamp a)"

definition page_limit :: "int \<Rightarrow> int \<Rightarrow> int \<Rightarrow> nat" where
  "page_limit most otherwise limit = nat (if limit \<le> 0 \<or> limit > most then otherwise else limit)"

interpretation newest_order: slice_order "\<lambda>a b. (stamp b :: int) < stamp a"
  for stamp :: "'r \<Rightarrow> int"
  by unfold_locales auto

lemma set_newest_first [simp]: "set (newest_first stamp rs) = set rs"
  by (simp add: newest_first_def)

lemma mset_newest_first [simp]: "mset (newest_first stamp rs) = mset rs"
  by (simp add: newest_first_def)

lemma newest_first_Nil_iff [simp]: "newest_first stamp rs = [] \<longleftrightarrow> rs = []"
  by (simp add: newest_first_def)

lemma newest_first_sorted: "sorted_wrt (\<lambda>a b. stamp b \<le> stamp a) (newest_first stamp rs)"
  using newest_order.SliceStable_sorted [of stamp rs] by (simp add: newest_first_def not_less)

lemma newest_first_Cons:
  assumes "newest_first stamp rs = r # rest" shows "r \<in> set rs" "\<forall>x \<in> set rs. stamp x \<le> stamp r"
proof -
  have "set (r # rest) = set rs" using set_newest_first [of stamp rs] assms by simp
  then show "r \<in> set rs" "\<forall>x \<in> set rs. stamp x \<le> stamp r"
    using newest_first_sorted [of stamp rs] assms by auto
qed

lemma page_limit_le: "0 \<le> otherwise \<Longrightarrow> otherwise \<le> most \<Longrightarrow> int (page_limit most otherwise limit) \<le> most"
  by (auto simp: page_limit_def)

end
