(* ===== verification/Float64.thy ===== *)
theory Float64
  imports Prelude Complex_Main "HOL-Library.Log_Nat"
begin

section \<open>Float64: the floating-point arithmetic of the scores\<close>

text \<open>
  Risk weights, points, z-scores and access rates are Go \<^verbatim>\<open>float64\<close> values.  A finite value is the
  rational it denotes; every operation computes the exact result and rounds it to the nearest value
  with a 53-bit significand, ties to even, gradual underflow below \<open>2 powi -1022\<close> and overflow to an
  infinity, as IEEE 754 prescribes.  The two zeros are identified: no operation of the program tells
  them apart.  Conversion of an unrepresentable value to an integer gives the least integer, the
  result of the amd64 instruction.

  The lemmas are the ones the scoring proofs need: rounding is monotone, odd and exact on every
  representable value, so bounds on exact sums and products carry over to computed ones.
\<close>

subsection \<open>Rounding of rationals\<close>

definition round_half_even :: "rat \<Rightarrow> int" where
  "round_half_even x =
     (let f = \<lfloor>x\<rfloor>; d = x - of_int f
      in if d < 1 / 2 then f else if d > 1 / 2 then f + 1 else if even f then f else f + 1)"

definition ilog2 :: "rat \<Rightarrow> int" where
  "ilog2 x =
     (let (p, q) = quotient_of x; k = bitlen p - bitlen q
      in if 2 powi k \<le> x then k else k - 1)"

definition ulp_exp :: "rat \<Rightarrow> int" where
  "ulp_exp x = max (ilog2 \<bar>x\<bar> - 52) (- 1074)"

definition fround :: "rat \<Rightarrow> rat" where
  "fround x =
     (if x = 0 then 0
      else of_int (round_half_even (x / 2 powi ulp_exp x)) * 2 powi ulp_exp x)"

lemma round_half_even_of_int [simp]: "round_half_even (of_int n) = n"
  by (simp add: round_half_even_def)

lemma round_half_even_bounds: "\<lfloor>x\<rfloor> \<le> round_half_even x \<and> round_half_even x \<le> \<lfloor>x\<rfloor> + 1"
  by (simp add: round_half_even_def Let_def)

lemma round_half_even_mono: "x \<le> y \<Longrightarrow> round_half_even x \<le> round_half_even y"
proof (cases "\<lfloor>x\<rfloor> = \<lfloor>y\<rfloor>")
  case True
  moreover assume "x \<le> y"
  ultimately show ?thesis by (auto simp: round_half_even_def Let_def)
next
  case False
  moreover assume "x \<le> y"
  ultimately have "\<lfloor>x\<rfloor> + 1 \<le> \<lfloor>y\<rfloor>" using floor_mono [of x y] by simp
  then show ?thesis
    using round_half_even_bounds [of x] round_half_even_bounds [of y] by linarith
qed

lemma round_half_even_le: "x \<le> of_int n \<Longrightarrow> round_half_even x \<le> n"
  using round_half_even_mono [of x "of_int n"] by simp

lemma round_half_even_ge: "of_int n \<le> x \<Longrightarrow> n \<le> round_half_even x"
  using round_half_even_mono [of "of_int n" x] by simp

lemma round_half_even_minus: "round_half_even (- x) = - round_half_even x"
proof (cases "x = of_int \<lfloor>x\<rfloor>")
  case True
  then show ?thesis by (metis of_int_minus round_half_even_of_int)
next
  case False
  have "of_int \<lfloor>x\<rfloor> \<le> x" by simp
  with False have "of_int \<lfloor>x\<rfloor> < x" by linarith
  then have "\<lfloor>- x\<rfloor> = - \<lfloor>x\<rfloor> - 1" by linarith
  then show ?thesis by (auto simp: round_half_even_def Let_def)
qed

lemma powi_pos [simp]: "(0 :: rat) < 2 powi e"
  by (simp add: zero_less_power_int)

lemma powi_mono: "a \<le> b \<Longrightarrow> (2 :: rat) powi a \<le> 2 powi b"
  by (rule power_int_increasing) simp_all

lemma powi_le_iff [simp]: "(2 :: rat) powi a \<le> 2 powi b \<longleftrightarrow> a \<le> b"
proof (cases "a \<le> b")
  case False
  then have "(2 :: rat) powi b < 2 powi a" by (intro power_int_strict_increasing) simp_all
  with False show ?thesis by simp
qed (simp add: powi_mono)

lemma powi_less_iff [simp]: "(2 :: rat) powi a < 2 powi b \<longleftrightarrow> a < b"
  by (simp add: linorder_not_le [symmetric] del: linorder_not_le)

lemma powi_split: "(2 :: rat) powi (a + b) = 2 powi a * 2 powi b"
  by (rule power_int_add) simp

lemma powi_nat: "0 \<le> n \<Longrightarrow> (2 :: rat) powi n = 2 ^ nat n"
  by (simp add: power_int_def)

lemma ilog2_bounds:
  assumes "0 < x" shows "2 powi ilog2 x \<le> x \<and> x < 2 powi (ilog2 x + 1)"
proof -
  obtain p q where pq: "quotient_of x = (p, q)" by fastforce
  from pq have q: "0 < q" by (rule quotient_of_denom_pos)
  from pq have x: "x = of_int p / of_int q" by (rule quotient_of_div)
  with q assms have p: "0 < p" by (simp add: zero_less_divide_iff)
  have bits: "2 powi (bitlen n - 1) \<le> (of_int n :: rat) \<and> (of_int n :: rat) < 2 powi bitlen n"
    if "0 < n" for n
  proof -
    have b: "2 ^ nat (bitlen n - 1) \<le> n \<and> n < 2 ^ nat (bitlen n)"
      using that by (rule bitlen_bounds)
    have "0 < bitlen n" using that bitlen_eq_zero_iff [of n] bitlen_nonneg [of n] by simp
    with b show ?thesis
      by (simp add: powi_nat)
  qed
  define k where "k = bitlen p - bitlen q"
  have pb: "2 powi (bitlen p - 1) \<le> (of_int p :: rat)" "(of_int p :: rat) < 2 powi bitlen p"
    and qb: "2 powi (bitlen q - 1) \<le> (of_int q :: rat)" "(of_int q :: rat) < 2 powi bitlen q"
    using bits p q by blast+
  have "(2 :: rat) powi (k - 1) * of_int q \<le> 2 powi (k - 1) * 2 powi bitlen q"
    using qb(2) by (intro mult_left_mono) simp_all
  also have "\<dots> = 2 powi (bitlen p - 1)"
    unfolding k_def powi_split [symmetric] by simp
  also have "\<dots> \<le> of_int p" by (rule pb(1))
  finally have lo: "2 powi (k - 1) \<le> x" using q by (simp add: x pos_le_divide_eq)
  have "(of_int p :: rat) < 2 powi bitlen p" by (rule pb(2))
  also have "\<dots> = 2 powi (k + 1) * 2 powi (bitlen q - 1)"
    unfolding k_def powi_split [symmetric] by simp
  also have "\<dots> \<le> 2 powi (k + 1) * of_int q"
    using qb(1) by (intro mult_left_mono) simp_all
  finally have hi: "x < 2 powi (k + 1)" using q by (simp add: x pos_divide_less_eq)
  show ?thesis
    using lo hi by (auto simp: ilog2_def pq k_def [symmetric])
qed

lemma ilog2_less: "0 < x \<Longrightarrow> x < 2 powi n \<Longrightarrow> ilog2 x < n"
  using ilog2_bounds [of x] powi_less_iff [of "ilog2 x" n] by (auto simp del: powi_less_iff)

lemma ilog2_mono: "0 < x \<Longrightarrow> x \<le> y \<Longrightarrow> ilog2 x \<le> ilog2 y"
proof -
  assume "0 < x" "x \<le> y"
  then have "2 powi ilog2 x < (2 :: rat) powi (ilog2 y + 1)"
    using ilog2_bounds [of x] ilog2_bounds [of y] by linarith
  then show ?thesis by simp
qed

lemma ulp_exp_minus [simp]: "ulp_exp (- x) = ulp_exp x"
  by (simp add: ulp_exp_def)

lemma fround_0 [simp]: "fround 0 = 0"
  by (simp add: fround_def)

lemma fround_minus: "fround (- x) = - fround x"
  by (simp add: fround_def round_half_even_minus)

lemma fround_pos_mono:
  assumes "0 < x" "x \<le> y" shows "fround x \<le> fround y"
proof -
  let ?ex = "ulp_exp x" and ?ey = "ulp_exp y"
  have y: "0 < y" using assms by simp
  have le: "?ex \<le> ?ey" using ilog2_mono [OF assms] assms y by (simp add: ulp_exp_def)
  show ?thesis
  proof (cases "?ex = ?ey")
    case True
    have "round_half_even (x / 2 powi ?ey) \<le> round_half_even (y / 2 powi ?ey)"
      using assms by (intro round_half_even_mono divide_right_mono) simp_all
    then show ?thesis using True assms y by (simp add: fround_def mult_right_mono)
  next
    case False
    with le have lt: "?ex < ?ey" by simp
    then have ey: "?ey = ilog2 y - 52" using y by (auto simp: ulp_exp_def max_def split: if_splits)
    have "x < 2 powi (?ex + 53)"
    proof -
      have "x < 2 powi (ilog2 x + 1)" using ilog2_bounds [OF assms(1)] by simp
      also have "\<dots> \<le> 2 powi (?ex + 53)"
        using assms(1) by (subst powi_le_iff) (simp add: ulp_exp_def)
      finally show ?thesis .
    qed
    then have "x / 2 powi ?ex \<le> of_int (2 ^ 53)"
      by (simp add: powi_split pos_divide_le_eq mult.commute)
    then have "round_half_even (x / 2 powi ?ex) \<le> 2 ^ 53" by (rule round_half_even_le)
    then have "of_int (round_half_even (x / 2 powi ?ex)) \<le> (2 ^ 53 :: rat)"
      by (metis of_int_le_iff of_int_numeral of_int_power)
    then have fx: "fround x \<le> 2 ^ 53 * 2 powi ?ex"
      using assms(1) by (simp add: fround_def mult_right_mono)
    have "2 powi (?ey + 52) \<le> y" using ilog2_bounds [OF y] by (simp add: ey)
    then have "of_int (2 ^ 52) \<le> y / 2 powi ?ey"
      by (simp add: powi_split pos_le_divide_eq mult.commute)
    then have "2 ^ 52 \<le> round_half_even (y / 2 powi ?ey)" by (rule round_half_even_ge)
    then have "(2 ^ 52 :: rat) \<le> of_int (round_half_even (y / 2 powi ?ey))"
      by (metis of_int_le_iff of_int_numeral of_int_power)
    then have fy: "2 ^ 52 * 2 powi ?ey \<le> fround y"
      using y by (simp add: fround_def mult_right_mono)
    have "(2 ^ 53 :: rat) * 2 powi ?ex = 2 ^ 52 * 2 powi (?ex + 1)"
      by (simp add: powi_split)
    also have "\<dots> \<le> 2 ^ 52 * 2 powi ?ey"
      using lt by (intro mult_left_mono) simp_all
    finally show ?thesis using fx fy by linarith
  qed
qed

lemma fround_nonneg: "0 \<le> x \<Longrightarrow> 0 \<le> fround x"
proof -
  assume "0 \<le> x"
  then have "0 \<le> round_half_even (x / 2 powi ulp_exp x)"
    by (intro round_half_even_ge) simp
  then show ?thesis by (simp add: fround_def)
qed

lemma fround_mono: "x \<le> y \<Longrightarrow> fround x \<le> fround y"
proof -
  assume le: "x \<le> y"
  consider "0 < x" | "x \<le> 0" "0 \<le> y" | "y < 0" by linarith
  then show ?thesis
  proof cases
    case 1
    then show ?thesis using le by (rule fround_pos_mono)
  next
    case 2
    then have "0 \<le> fround (- x)" "0 \<le> fround y" by (auto intro: fround_nonneg)
    then show ?thesis by (simp add: fround_minus)
  next
    case 3
    then have "fround (- y) \<le> fround (- x)" using le by (intro fround_pos_mono) simp_all
    then show ?thesis by (simp add: fround_minus)
  qed
qed

text \<open>Every value with a 53-bit significand is its own rounding.\<close>

lemma fround_exact:
  assumes "\<bar>m\<bar> < 2 ^ 53" "- 1074 \<le> e"
  shows "fround (of_int m * 2 powi e) = of_int m * 2 powi e"
proof (cases "m = 0")
  case False
  let ?x = "of_int m * 2 powi e :: rat" and ?u = "ulp_exp (of_int m * 2 powi e)"
  have "\<bar>of_int m :: rat\<bar> < 2 powi 53"
    using assms(1) by (metis of_int_abs of_int_less_iff of_int_numeral of_int_power
        power_int_numeral)
  then have "\<bar>?x\<bar> < 2 powi (53 + e)"
    unfolding powi_split by (simp add: abs_mult)
  moreover have "0 < \<bar>?x\<bar>" using False by simp
  ultimately have "ilog2 \<bar>?x\<bar> < 53 + e" by (intro ilog2_less)
  with assms(2) have u: "?u \<le> e" by (simp add: ulp_exp_def)
  have shift: "a * 2 powi e / 2 powi u = a * 2 powi (e - u)" for a :: rat and u
    by (simp add: power_int_diff)
  have "?x / 2 powi ?u = of_int m * 2 powi (e - ?u)" by (rule shift)
  then have "?x / 2 powi ?u = of_int (m * 2 ^ nat (e - ?u))"
    using u by (simp add: powi_nat)
  then have "of_int (round_half_even (?x / 2 powi ?u)) = ?x / 2 powi ?u"
    by (metis round_half_even_of_int)
  then show ?thesis using False by (simp add: fround_def)
qed simp

lemma fround_of_int: "\<bar>m\<bar> < 2 ^ 53 \<Longrightarrow> fround (of_int m) = of_int m"
  using fround_exact [of m 0] by simp

lemma fround_half: "\<bar>m\<bar> < 2 ^ 53 \<Longrightarrow> fround (of_int m / 2) = of_int m / 2"
  using fround_exact [of m "- 1"] by (simp add: power_int_minus field_simps)

subsection \<open>Values and operations\<close>

datatype f64 = Fin rat | PInf | NInf | NaN

definition f64_round :: "rat \<Rightarrow> f64" where
  "f64_round x =
     (let r = fround x
      in if 2 ^ 1024 \<le> r then PInf else if r \<le> - (2 ^ 1024) then NInf else Fin r)"

definition inf_of :: "bool \<Rightarrow> f64" where
  "inf_of neg = (if neg then NInf else PInf)"

instantiation f64 :: "{plus, minus, times, divide, ord}"
begin

fun plus_f64 :: "f64 \<Rightarrow> f64 \<Rightarrow> f64" where
  "plus_f64 (Fin a) (Fin b) = f64_round (a + b)"
| "plus_f64 NaN _ = NaN"
| "plus_f64 _ NaN = NaN"
| "plus_f64 PInf NInf = NaN"
| "plus_f64 NInf PInf = NaN"
| "plus_f64 PInf _ = PInf"
| "plus_f64 _ PInf = PInf"
| "plus_f64 NInf _ = NInf"
| "plus_f64 _ NInf = NInf"

fun minus_f64 :: "f64 \<Rightarrow> f64 \<Rightarrow> f64" where
  "minus_f64 (Fin a) (Fin b) = f64_round (a - b)"
| "minus_f64 NaN _ = NaN"
| "minus_f64 _ NaN = NaN"
| "minus_f64 PInf PInf = NaN"
| "minus_f64 NInf NInf = NaN"
| "minus_f64 PInf _ = PInf"
| "minus_f64 _ NInf = PInf"
| "minus_f64 NInf _ = NInf"
| "minus_f64 _ PInf = NInf"

fun times_f64 :: "f64 \<Rightarrow> f64 \<Rightarrow> f64" where
  "times_f64 (Fin a) (Fin b) = f64_round (a * b)"
| "times_f64 NaN _ = NaN"
| "times_f64 _ NaN = NaN"
| "times_f64 (Fin a) PInf = (if a = 0 then NaN else inf_of (a < 0))"
| "times_f64 (Fin a) NInf = (if a = 0 then NaN else inf_of (0 < a))"
| "times_f64 PInf (Fin a) = (if a = 0 then NaN else inf_of (a < 0))"
| "times_f64 NInf (Fin a) = (if a = 0 then NaN else inf_of (0 < a))"
| "times_f64 PInf PInf = PInf"
| "times_f64 PInf NInf = NInf"
| "times_f64 NInf PInf = NInf"
| "times_f64 NInf NInf = PInf"

fun divide_f64 :: "f64 \<Rightarrow> f64 \<Rightarrow> f64" where
  "divide_f64 (Fin a) (Fin b) =
     (if b = 0 then (if a = 0 then NaN else inf_of (a < 0)) else f64_round (a / b))"
| "divide_f64 NaN _ = NaN"
| "divide_f64 _ NaN = NaN"
| "divide_f64 (Fin _) _ = Fin 0"
| "divide_f64 PInf (Fin b) = inf_of (b < 0)"
| "divide_f64 NInf (Fin b) = inf_of (0 \<le> b)"
| "divide_f64 _ _ = NaN"

fun less_f64 :: "f64 \<Rightarrow> f64 \<Rightarrow> bool" where
  "less_f64 (Fin a) (Fin b) = (a < b)"
| "less_f64 NaN _ = False"
| "less_f64 _ NaN = False"
| "less_f64 NInf NInf = False"
| "less_f64 NInf _ = True"
| "less_f64 (Fin _) PInf = True"
| "less_f64 (Fin _) NInf = False"
| "less_f64 PInf _ = False"

definition less_eq_f64 :: "f64 \<Rightarrow> f64 \<Rightarrow> bool" where
  "less_eq_f64 a b \<longleftrightarrow> a < b \<or> a = b \<and> a \<noteq> NaN"

instance ..

end

lemma f64_less_eq_simps [simp]:
  "Fin a \<le> Fin b \<longleftrightarrow> a \<le> b" "\<not> NaN \<le> y" "\<not> (x :: f64) \<le> NaN"
  "Fin a \<le> PInf" "\<not> PInf \<le> Fin a" "NInf \<le> Fin a" "\<not> Fin a \<le> NInf" "NInf \<le> PInf" "\<not> PInf \<le> NInf"
  by (auto simp: less_eq_f64_def dest: less_f64.elims(2))

definition f64_of_int :: "int \<Rightarrow> f64" where
  "f64_of_int n = f64_round (of_int n)"

definition f64_to_int :: "f64 \<Rightarrow> int" where
  "f64_to_int x =
     (case x of
        Fin r \<Rightarrow> (let t = (if 0 \<le> r then \<lfloor>r\<rfloor> else \<lceil>r\<rceil>) in if fits64 t then t else - (2 ^ 63))
      | _ \<Rightarrow> - (2 ^ 63))"

lemma f64_round_of_int:
  assumes "\<bar>n\<bar> < 2 ^ 53" shows "f64_round (of_int n) = Fin (of_int n)"
proof -
  have lt: "\<bar>of_int n :: rat\<bar> < 2 ^ 1024"
  proof -
    have "\<bar>n\<bar> < 2 ^ 1024"
      using assms power_increasing [of 53 1024 "2 :: int"] by linarith
    then show ?thesis by (metis of_int_abs of_int_less_iff of_int_numeral of_int_power)
  qed
  then show ?thesis
    using assms by (auto simp: f64_round_def Let_def fround_of_int abs_less_iff)
qed

text \<open>Rounding into a range whose ends are integers stays finite and stays in the range.\<close>

lemma f64_round_range:
  assumes "of_int m \<le> x" "x \<le> of_int n" "\<bar>m\<bar> < 2 ^ 53" "\<bar>n\<bar> < 2 ^ 53"
  shows "f64_round x = Fin (fround x)" "of_int m \<le> fround x" "fround x \<le> of_int n"
proof -
  show lo: "of_int m \<le> fround x" and hi: "fround x \<le> of_int n"
    using fround_mono [OF assms(1)] fround_mono [OF assms(2)] assms(3,4)
    by (simp_all add: fround_of_int)
  have big: "\<bar>of_int k :: rat\<bar> < 2 ^ 1024" if "\<bar>k\<bar> < 2 ^ 53" for k :: int
  proof -
    have "\<bar>k\<bar> < 2 ^ 1024"
      using that power_increasing [of 53 1024 "2 :: int"] by linarith
    then show ?thesis by (metis of_int_abs of_int_less_iff of_int_numeral of_int_power)
  qed
  show "f64_round x = Fin (fround x)"
    using lo hi big [OF assms(3)] big [OF assms(4)]
    by (auto simp: f64_round_def Let_def abs_less_iff)
qed

lemma f64_of_int_small: "\<bar>n\<bar> < 2 ^ 53 \<Longrightarrow> f64_of_int n = Fin (of_int n)"
  by (simp add: f64_of_int_def f64_round_of_int)

subsection \<open>Square root\<close>

text \<open>
  \<^verbatim>\<open>math.Sqrt\<close> is correctly rounded.  The integer square root of the scaled operand has 53 bits; the
  exact comparison with the midpoint decides the last one.
\<close>

fun isqrt_bits :: "nat \<Rightarrow> int \<Rightarrow> int \<Rightarrow> int" where
  "isqrt_bits 0 n r = r"
| "isqrt_bits (Suc k) n r = isqrt_bits k n (if (r + 2 ^ k)\<^sup>2 \<le> n then r + 2 ^ k else r)"

definition isqrt53 :: "int \<Rightarrow> int" where
  "isqrt53 n = isqrt_bits 53 n 0"

definition f64_sqrt :: "f64 \<Rightarrow> f64" where
  "f64_sqrt x =
     (case x of
        Fin a \<Rightarrow>
          if a < 0 then NaN
          else if a = 0 then Fin 0
          else
            (let e = ilog2 a div 2 - 52;
                 s = a / 2 powi (2 * e);
                 r = isqrt53 \<lfloor>s\<rfloor>;
                 mid = (of_int r + 1 / 2)\<^sup>2;
                 q = (if s < mid then r else if s > mid then r + 1 else if even r then r else r + 1)
             in Fin (of_int q * 2 powi e))
      | PInf \<Rightarrow> PInf
      | NInf \<Rightarrow> NaN
      | NaN \<Rightarrow> NaN)"

lemma isqrt_bits_spec:
  "0 \<le> r \<Longrightarrow> r\<^sup>2 \<le> n \<Longrightarrow> n < (r + 2 ^ k)\<^sup>2 \<Longrightarrow>
   0 \<le> isqrt_bits k n r \<and> (isqrt_bits k n r)\<^sup>2 \<le> n \<and> n < (isqrt_bits k n r + 1)\<^sup>2"
proof (induction k arbitrary: r)
  case 0
  then show ?case by simp
next
  case (Suc k)
  have dbl: "r + 2 ^ Suc k = r + 2 ^ k + 2 ^ k" by simp
  show ?case
  proof (cases "(r + 2 ^ k)\<^sup>2 \<le> n")
    case True
    then show ?thesis using Suc.IH [of "r + 2 ^ k"] Suc.prems unfolding dbl by simp
  next
    case False
    then show ?thesis using Suc.IH [of r] Suc.prems by simp
  qed
qed

lemma isqrt53_spec:
  "0 \<le> n \<Longrightarrow> n < 2 ^ 106 \<Longrightarrow>
   0 \<le> isqrt53 n \<and> (isqrt53 n)\<^sup>2 \<le> n \<and> n < (isqrt53 n + 1)\<^sup>2"
  unfolding isqrt53_def by (rule isqrt_bits_spec) (simp_all flip: power_mult)

lemma isqrt53_square: "0 \<le> t \<Longrightarrow> t < 2 ^ 53 \<Longrightarrow> isqrt53 (t\<^sup>2) = t"
proof -
  assume t: "0 \<le> t" "t < 2 ^ 53"
  then have "t\<^sup>2 < (2 ^ 53)\<^sup>2" by (intro power_strict_mono) simp_all
  then have spec: "0 \<le> isqrt53 (t\<^sup>2)" "(isqrt53 (t\<^sup>2))\<^sup>2 \<le> t\<^sup>2" "t\<^sup>2 < (isqrt53 (t\<^sup>2) + 1)\<^sup>2"
    using isqrt53_spec [of "t\<^sup>2"] by (simp_all flip: power_mult)
  have "isqrt53 (t\<^sup>2) \<le> t" using spec(2) t(1) by (rule power2_le_imp_le)
  moreover have "t < isqrt53 (t\<^sup>2) + 1"
    using spec(3) by (rule power2_less_imp_less) (use spec(1) in simp)
  ultimately show ?thesis by simp
qed

lemma f64_sqrt_0 [simp]: "f64_sqrt (Fin 0) = Fin 0"
  by (simp add: f64_sqrt_def)

text \<open>The root of the square of an integer is exact.\<close>

lemma f64_sqrt_square:
  assumes "0 \<le> n" "n < 2 ^ 53"
  shows "f64_sqrt (Fin ((of_int n)\<^sup>2)) = Fin (of_int n)"
proof (cases "n = 0")
  case False
  define a where "a = ((of_int n)\<^sup>2 :: rat)"
  define h where "h = ilog2 a div 2"
  have n: "0 < n" using assms False by simp
  have a: "0 < a" using n by (simp add: a_def)
  have sq: "(2 powi k)\<^sup>2 = (2 :: rat) powi (2 * k)" for k
    by (simp add: power_int_mult power_int_power mult.commute)
  have "2 * h \<le> ilog2 a" "ilog2 a + 1 \<le> 2 * h + 2" unfolding h_def by presburger+
  then have "(2 :: rat) powi (2 * h) \<le> 2 powi ilog2 a" "(2 :: rat) powi (ilog2 a + 1) \<le> 2 powi (2 * h + 2)"
    by (simp_all only: powi_le_iff)
  then have "2 powi (2 * h) \<le> a" "a < 2 powi (2 * h + 2)"
    using ilog2_bounds [OF a] by linarith+
  then have sqs: "(2 powi h)\<^sup>2 \<le> ((of_int n)\<^sup>2 :: rat)" "((of_int n)\<^sup>2 :: rat) < (2 powi (h + 1))\<^sup>2"
    unfolding sq a_def by (simp_all only: distrib_left mult_1_right)
  have lo: "2 powi h \<le> (of_int n :: rat)"
    using sqs(1) by (rule power2_le_imp_le) (use n in simp)
  have hi: "(of_int n :: rat) < 2 powi (h + 1)"
    using sqs(2) by (rule power2_less_imp_less) (simp add: less_imp_le)
  have "(of_int n :: rat) < 2 powi 53"
    using assms(2) by (metis of_int_less_iff of_int_numeral of_int_power power_int_numeral)
  with lo have "(2 :: rat) powi h < 2 powi 53" by linarith
  then have h: "h \<le> 52" unfolding powi_less_iff by simp
  define t where "t = n * 2 ^ nat (52 - h)"
  have t: "(of_int t :: rat) = of_int n / 2 powi (h - 52)"
    using h by (simp add: t_def power_int_diff powi_nat [symmetric])
  have "(of_int t :: rat) < 2 powi (h + 1) / 2 powi (h - 52)"
    unfolding t using hi by (intro divide_strict_right_mono) simp_all
  also have "\<dots> = of_int (2 ^ 53)" by (simp add: power_int_diff [symmetric])
  finally have t53: "t < 2 ^ 53" by (simp only: of_int_less_iff)
  have t0: "0 \<le> t" using n by (simp add: t_def)
  have s: "a / 2 powi (2 * (h - 52)) = of_int (t\<^sup>2)"
    by (simp add: t a_def power_divide sq)
  have unscale: "of_int t * 2 powi (h - 52) = (of_int n :: rat)" by (simp add: t)
  have "f64_sqrt (Fin a) = Fin (of_int n)"
  proof -
    have "(of_int (t\<^sup>2) :: rat) < (of_int t + 1 / 2)\<^sup>2"
      unfolding of_int_power by (rule power_strict_mono) (use t0 in simp_all)
    then show ?thesis
      using a unfolding f64_sqrt_def h_def [symmetric] Let_def f64.case s
      by (simp add: isqrt53_square [OF t0 t53] unscale del: of_int_power)
  qed
  then show ?thesis by (simp add: a_def)
qed simp

lemma f64_sqrt_nonneg:
  assumes "0 \<le> a" shows "\<exists>r. f64_sqrt (Fin a) = Fin r"
  using assms by (auto simp: f64_sqrt_def Let_def)

subsection \<open>Evaluation on small numbers\<close>

lemma f64_round_eval [simp]:
  "f64_round 0 = Fin 0" "f64_round 1 = Fin 1"
  "(numeral k :: int) < 2 ^ 53 \<Longrightarrow> f64_round (numeral k) = Fin (numeral k)"
  "(numeral k :: int) < 2 ^ 53 \<Longrightarrow> f64_round (- numeral k) = Fin (- numeral k)"
  using f64_round_of_int [of 0] f64_round_of_int [of 1] f64_round_of_int [of "numeral k"]
    f64_round_of_int [of "- numeral k"]
  by simp_all

lemma f64_round_half:
  assumes "\<bar>n\<bar> < 2 ^ 53" shows "f64_round (of_int n / 2) = Fin (of_int n / 2)"
proof -
  define m where "m = (if 0 \<le> n then 0 else n)"
  define M where "M = (if 0 \<le> n then n else 0)"
  have "of_int m \<le> (of_int n / 2 :: rat)" "(of_int n / 2 :: rat) \<le> of_int M"
    by (simp_all add: m_def M_def)
  then have "f64_round (of_int n / 2) = Fin (fround (of_int n / 2))"
    by (rule f64_round_range) (use assms in \<open>auto simp: m_def M_def\<close>)
  then show ?thesis using assms by (simp add: fround_half)
qed

lemma f64_round_half_eval [simp]:
  "f64_round (1 / 2) = Fin (1 / 2)"
  "(numeral k :: int) < 2 ^ 53 \<Longrightarrow> f64_round (numeral k / 2) = Fin (numeral k / 2)"
  using f64_round_half [of 1] f64_round_half [of "numeral k"] by simp_all

lemma f64_to_int_trunc:
  assumes "0 \<le> r" "r < of_int n" "n \<le> 2 ^ 62"
  shows "f64_to_int (Fin r) = \<lfloor>r\<rfloor>" "0 \<le> \<lfloor>r\<rfloor>" "\<lfloor>r\<rfloor> < n"
proof -
  show l: "0 \<le> \<lfloor>r\<rfloor>" and u: "\<lfloor>r\<rfloor> < n" using assms by (simp_all add: floor_less_iff)
  have "fits64 k" if "0 \<le> k" "k < n" for k :: int
    using that assms(3) by (simp add: fits64_def)
  then have "fits64 \<lfloor>r\<rfloor>" using l u by blast
  with assms(1) show "f64_to_int (Fin r) = \<lfloor>r\<rfloor>" by (simp add: f64_to_int_def)
qed

subsection \<open>Durations in seconds\<close>

text \<open>\<^verbatim>\<open>Duration.Seconds\<close>: whole seconds plus the rest divided by a thousand million, in float64.\<close>

definition Seconds :: "duration \<Rightarrow> f64" where
  "Seconds d =
     (let sec = go_div d second; nsec = d - sec * second
      in f64_of_int sec + f64_of_int nsec div f64_of_int second)"

text \<open>
  \<^verbatim>\<open>fmt.Sprintf("%.0f", x)\<close> rounds the exact value to an integer, ties to even; a value that rounds to
  zero from below keeps its sign.
\<close>

definition Sprintf_0f :: "f64 \<Rightarrow> string" where
  "Sprintf_0f x =
     (case x of
        Fin r \<Rightarrow> (if r < 0 \<and> round_half_even r = 0 then ''-0'' else show_int (round_half_even r))
      | PInf \<Rightarrow> ''+Inf'' | NInf \<Rightarrow> ''-Inf'' | NaN \<Rightarrow> ''NaN'')"

end
