(* ===== verification/Risk.thy ===== *)
theory Risk
  imports Slices Float64
begin

section \<open>Risk: from session context to an explainable score\<close>

text \<open>
  Package \<^verbatim>\<open>internal/risk\<close>, files \<^verbatim>\<open>model.go\<close> and \<^verbatim>\<open>engine.go\<close>.  A signal function contributes points per
  dimension; a closure weighs them, drops what rounds to nothing and appends a factor; the score is
  the sum of the factors, and when it exceeds 100 the first factor of the sorted slice absorbs the
  excess.  The closure's calls are the values of type \<open>Signal\<close>, in the order the engine makes them.
  Formatting a factor's detail can panic (a twelve-byte buffer), so a detail is an option and
  \<open>Evaluate\<close> returns \<open>None\<close> when it panics.
\<close>

subsection \<open>model.go: bands, weights, factors\<close>

datatype Dimension =
  DimIdentity | DimDevice | DimBehaviour | DimNetwork | DimResource | DimHistory

datatype Level =
  LevelLow | LevelMedium | LevelElevated | LevelHigh | LevelCritical | LevelOther string

datatype Action =
  ActionAllow | ActionAllowMonitor | ActionVerify | ActionStepUpMFA | ActionRestrict | ActionIsolate

fun Level_string :: "Level \<Rightarrow> string" where
  "Level_string LevelLow = ''LOW''"
| "Level_string LevelMedium = ''MEDIUM''"
| "Level_string LevelElevated = ''ELEVATED''"
| "Level_string LevelHigh = ''HIGH''"
| "Level_string LevelCritical = ''CRITICAL''"
| "Level_string (LevelOther s) = s"

record Thresholds =
  T_Low :: int
  T_Medium :: int
  T_Elevated :: int
  T_High :: int

definition DefaultThresholds :: Thresholds where
  "DefaultThresholds = \<lparr>T_Low = 30, T_Medium = 50, T_Elevated = 70, T_High = 85\<rparr>"

datatype risk_error = ErrThresholds int int int int | ErrWeight string f64

definition Thresholds_Validate :: "Thresholds \<Rightarrow> risk_error option" where
  "Thresholds_Validate t =
     (if T_Low t \<le> 0 \<or> T_Low t \<ge> T_Medium t \<or> T_Medium t \<ge> T_Elevated t \<or>
         T_Elevated t \<ge> T_High t \<or> T_High t \<ge> 100
      then Some (ErrThresholds (T_Low t) (T_Medium t) (T_Elevated t) (T_High t))
      else None)"

definition Thresholds_Level :: "Thresholds \<Rightarrow> int \<Rightarrow> Level" where
  "Thresholds_Level t score =
     (if score \<le> T_Low t then LevelLow
      else if score \<le> T_Medium t then LevelMedium
      else if score \<le> T_Elevated t then LevelElevated
      else if score \<le> T_High t then LevelHigh
      else LevelCritical)"

fun RecommendedAction :: "Level \<Rightarrow> Action" where
  "RecommendedAction LevelLow = ActionAllow"
| "RecommendedAction LevelMedium = ActionAllowMonitor"
| "RecommendedAction LevelElevated = ActionVerify"
| "RecommendedAction LevelHigh = ActionStepUpMFA"
| "RecommendedAction _ = ActionIsolate"

record Weights =
  W_Identity :: f64
  W_Device :: f64
  W_Behaviour :: f64
  W_Network :: f64
  W_Resource :: f64
  W_History :: f64

definition DefaultWeights :: Weights where
  "DefaultWeights = \<lparr>W_Identity = Fin 1, W_Device = Fin 1, W_Behaviour = Fin 1,
     W_Network = Fin 1, W_Resource = Fin 1, W_History = Fin 1\<rparr>"

text \<open>
  The validation ranges over a Go map, whose iteration order is unspecified: it takes the entries in
  the order the runtime yields them.
\<close>

definition weight_entries :: "Weights \<Rightarrow> (string \<times> f64) list" where
  "weight_entries w =
     [(''identity'', W_Identity w), (''device'', W_Device w), (''behaviour'', W_Behaviour w),
      (''network'', W_Network w), (''resource'', W_Resource w), (''history'', W_History w)]"

fun Weights_Validate :: "(string \<times> f64) list \<Rightarrow> risk_error option" where
  "Weights_Validate [] = None"
| "Weights_Validate ((name, v) # es) =
     (if v < Fin 0 \<or> Fin 5 < v then Some (ErrWeight name v) else Weights_Validate es)"

fun forDimension :: "Weights \<Rightarrow> Dimension \<Rightarrow> f64" where
  "forDimension w DimIdentity = W_Identity w"
| "forDimension w DimDevice = W_Device w"
| "forDimension w DimBehaviour = W_Behaviour w"
| "forDimension w DimNetwork = W_Network w"
| "forDimension w DimResource = W_Resource w"
| "forDimension w DimHistory = W_History w"

record Factor =
  rf_Code :: string
  rf_Label :: string
  rf_Dimension :: Dimension
  rf_Contribution :: int
  rf_Detail :: string

record Assessment =
  ra_SessionID :: uuid
  ra_Score :: int
  ra_Level :: Level
  ra_Action :: Action
  ra_Factors :: "Factor list"
  ra_Dimensions :: "Dimension \<rightharpoonup> int"
  ra_ComputedAt :: time
  ra_ModelVersion :: string
  ra_TriggerEvent :: string

definition Codes :: "Assessment \<Rightarrow> string list" where
  "Codes a = map rf_Code (ra_Factors a)"

definition Explain :: "Assessment \<Rightarrow> string" where
  "Explain a =
     ''RISK: '' @ show_int (ra_Score a) @ ''/100 ('' @ Level_string (ra_Level a) @ '')'' @ [newline] @
     concat (map (\<lambda>f. ''  +'' @ show_int (rf_Contribution f) @ '' '' @ rf_Label f @ [newline])
       (ra_Factors a)) @
     ''  = '' @ show_int (ra_Score a)"

definition factor_less :: "Factor \<Rightarrow> Factor \<Rightarrow> bool" where
  "factor_less f g \<longleftrightarrow>
     (if rf_Contribution f \<noteq> rf_Contribution g then rf_Contribution f > rf_Contribution g
      else rf_Code f < rf_Code g)"

definition sortFactors :: "Factor list \<Rightarrow> Factor list" where
  "sortFactors = SliceStable factor_less"

subsection \<open>engine.go: number formatting\<close>

text \<open>\<open>itoa_loop i v acc\<close> writes digits backwards into a buffer with \<open>i\<close> bytes left.\<close>

fun itoa_loop :: "nat \<Rightarrow> int \<Rightarrow> string \<Rightarrow> (nat \<times> string) option" where
  "itoa_loop i v acc =
     (if v > 0
      then (case i of 0 \<Rightarrow> None
            | Suc j \<Rightarrow> itoa_loop j (v div 10) (digit_char (nat (v mod 10)) # acc))
      else Some (i, acc))"

declare itoa_loop.simps [simp del]

definition itoa :: "int \<Rightarrow> string option" where
  "itoa v =
     (if v = 0 then Some ''0''
      else
        (let negative = v < 0;
             v = (if negative then wrap64 (- v) else v)
         in case itoa_loop 12 v [] of
              None \<Rightarrow> None
            | Some (i, buf) \<Rightarrow>
                if negative then (if i = 0 then None else Some (CHR ''-'' # buf)) else Some buf))"

definition ftoa :: "f64 \<Rightarrow> string option" where
  "ftoa v =
     (let whole = f64_to_int v;
          frac = f64_to_int ((v - f64_of_int whole) * Fin 10);
          frac = (if frac < 0 then wrap64 (- frac) else frac)
      in case itoa whole of
           None \<Rightarrow> None
         | Some w \<Rightarrow> (case itoa frac of None \<Rightarrow> None | Some f \<Rightarrow> Some (w @ ''.'' @ f)))"

definition formatTrust :: "int \<Rightarrow> string option" where
  "formatTrust trust = map_option (\<lambda>s. ''device trust is '' @ s @ ''/100'') (itoa trust)"

definition formatZScore :: "f64 \<Rightarrow> string option" where
  "formatZScore z =
     map_option (\<lambda>s. ''access volume is '' @ s @ '' standard deviations above this user's norm'')
       (ftoa z)"

subsection \<open>engine.go: inputs and signals\<close>

definition ModelVersion :: string where "ModelVersion = ''risk-v1''"

datatype Sensitivity =
  SensitivityPublic | SensitivityInternal | SensitivitySensitive | SensitivityCritical

fun Sensitivity_string :: "Sensitivity \<Rightarrow> string" where
  "Sensitivity_string SensitivityPublic = ''PUBLIC''"
| "Sensitivity_string SensitivityInternal = ''INTERNAL''"
| "Sensitivity_string SensitivitySensitive = ''SENSITIVE''"
| "Sensitivity_string SensitivityCritical = ''CRITICAL''"

record Inputs =
  in_SessionID :: uuid
  in_UserID :: uuid
  in_DeviceID :: uuid
  in_Now :: time
  in_FirstEverSession :: bool
  in_SessionAttested :: bool
  in_DeviceTrustScore :: "int option"
  in_DeviceKeyProtection :: string
  in_DeviceFirstSeenForUser :: bool
  in_DeviceEnrolledAt :: "time option"
  in_AgentLastHeartbeat :: "time option"
  in_LoginHourTypical :: bool
  in_BaselineEstablished :: bool
  in_AccessVolumeZScore :: f64
  in_UnfamiliarApplication :: bool
  in_AnomalyScore :: f64
  in_NetworkFamiliar :: bool
  in_NetworkKnown :: bool
  in_ResourceSensitivity :: Sensitivity
  in_RecentIncidents :: int
  in_RecentDenials :: int

record Engine =
  e_weights :: Weights
  e_thresholds :: Thresholds

definition NewEngine :: "Weights \<Rightarrow> Thresholds \<Rightarrow> Engine" where
  "NewEngine w t = \<lparr>e_weights = w, e_thresholds = t\<rparr>"

record Signal =
  sg_Dimension :: Dimension
  sg_Code :: string
  sg_Label :: string
  sg_Detail :: "string option"
  sg_Points :: f64

definition signal :: "Dimension \<Rightarrow> string \<Rightarrow> string \<Rightarrow> string option \<Rightarrow> f64 \<Rightarrow> Signal" where
  "signal d code label detail points =
     \<lparr>sg_Dimension = d, sg_Code = code, sg_Label = label, sg_Detail = detail, sg_Points = points\<rparr>"

definition identitySignals :: "Inputs \<Rightarrow> Signal list" where
  "identitySignals i =
     (if in_FirstEverSession i
      then [signal DimIdentity ''FIRST_SESSION'' ''First session for this account''
              (Some ''no prior sessions to compare against'') (Fin 8)]
      else []) @
     (if \<not> in_SessionAttested i
      then [signal DimIdentity ''UNATTESTED_SESSION'' ''Session lacks device attestation''
              (Some ''established without cryptographic device proof'') (Fin 30)]
      else [])"

definition low_trust_points :: "int \<Rightarrow> f64" where
  "low_trust_points trust =
     (let points = f64_of_int (wrap64 (70 - trust)) * f64_round (4 / 10)
      in if Fin 20 < points then Fin 20 else points)"

definition deviceSignals :: "Inputs \<Rightarrow> Signal list" where
  "deviceSignals i =
     (if in_DeviceFirstSeenForUser i
      then [signal DimDevice ''NEW_DEVICE'' ''New device for this user''
              (Some ''this user has not worked from this device before'') (Fin 20)]
      else []) @
     (case in_DeviceEnrolledAt i of
        None \<Rightarrow> []
      | Some since \<Rightarrow>
          if time_Sub (in_Now i) since < 24 * hour
          then [signal DimDevice ''RECENTLY_ENROLLED'' ''Recently enrolled device''
                  (Some ''enrolled within the last 24 hours'') (Fin 6)]
          else []) @
     (case in_DeviceTrustScore i of
        None \<Rightarrow>
          [signal DimDevice ''NO_POSTURE'' ''Device posture unknown''
             (Some ''the device has not reported its security posture'') (Fin 12)]
      | Some trust \<Rightarrow>
          if trust < 70
          then [signal DimDevice ''LOW_DEVICE_TRUST'' ''Low device trust''
                  (formatTrust trust) (low_trust_points trust)]
          else []) @
     (if in_DeviceKeyProtection i = ''software''
      then [signal DimDevice ''SOFTWARE_KEY'' ''Software-protected device key''
              (Some ''the device key is not hardware-backed'') (Fin 3)]
      else []) @
     (if (case in_AgentLastHeartbeat i of None \<Rightarrow> True
          | Some since \<Rightarrow> time_Sub (in_Now i) since > 15 * minute)
      then [signal DimDevice ''AGENT_SILENT'' ''Agent not reporting''
              (Some ''no heartbeat within the last 15 minutes'') (Fin 15)]
      else [])"

definition volume_points :: "f64 \<Rightarrow> f64" where
  "volume_points z =
     (let points = Fin 12 + (z - Fin 3) * Fin 4
      in if Fin 22 < points then Fin 22 else points)"

definition behaviourSignals :: "Inputs \<Rightarrow> Signal list" where
  "behaviourSignals i =
     (if \<not> in_BaselineEstablished i
      then [signal DimBehaviour ''NO_BASELINE'' ''No behavioural baseline''
              (Some ''not enough history to judge this session against'') (Fin 5)]
      else
        (if \<not> in_LoginHourTypical i
         then [signal DimBehaviour ''UNUSUAL_LOGIN_TIME'' ''Unusual sign-in time''
                 (Some ''outside the hours this user normally works'') (Fin 15)]
         else []) @
        (if Fin 3 \<le> in_AccessVolumeZScore i
         then [signal DimBehaviour ''ABNORMAL_ACCESS_VOLUME'' ''Abnormal access volume''
                 (formatZScore (in_AccessVolumeZScore i)) (volume_points (in_AccessVolumeZScore i))]
         else []) @
        (if in_UnfamiliarApplication i
         then [signal DimBehaviour ''UNFAMILIAR_APPLICATION'' ''Unfamiliar application''
                 (Some ''this user has not used this application before'') (Fin 6)]
         else []) @
        (if Fin (1 / 2) < in_AnomalyScore i
         then [signal DimBehaviour ''BEHAVIOUR_ANOMALY'' ''Behavioural anomaly''
                 (Some ''the anomaly model flagged this session'')
                 ((in_AnomalyScore i - Fin (1 / 2)) * Fin 20)]
         else []))"

definition networkSignals :: "Inputs \<Rightarrow> Signal list" where
  "networkSignals i =
     (if \<not> in_NetworkKnown i
      then [signal DimNetwork ''UNKNOWN_NETWORK'' ''Network context unknown''
              (Some ''the session's network could not be determined'') (Fin 4)]
      else if \<not> in_NetworkFamiliar i
      then [signal DimNetwork ''UNUSUAL_NETWORK'' ''Unusual network''
              (Some ''this user has not connected from this network before'') (Fin 12)]
      else [])"

definition resourceSignals :: "Inputs \<Rightarrow> Signal list" where
  "resourceSignals i =
     (case in_ResourceSensitivity i of
        SensitivityCritical \<Rightarrow>
          [signal DimResource ''CRITICAL_RESOURCE'' ''Critical resource accessed''
             (Some ''the session reached a resource classified CRITICAL'') (Fin 25)]
      | SensitivitySensitive \<Rightarrow>
          [signal DimResource ''SENSITIVE_RESOURCE'' ''Sensitive resource accessed''
             (Some ''the session reached a resource classified SENSITIVE'') (Fin 12)]
      | _ \<Rightarrow> [])"

definition incident_points :: "int \<Rightarrow> f64" where
  "incident_points n =
     (let points = f64_of_int n * Fin 6 in if Fin 15 < points then Fin 15 else points)"

definition historySignals :: "Inputs \<Rightarrow> Signal list" where
  "historySignals i =
     (if in_RecentIncidents i > 0
      then [signal DimHistory ''RECENT_INCIDENT'' ''Recent incident for this user''
              (Some ''an incident was raised for this user in the last 7 days'')
              (incident_points (in_RecentIncidents i))]
      else []) @
     (if in_RecentDenials i \<ge> 3
      then [signal DimHistory ''REPEATED_DENIALS'' ''Repeated access denials''
              (Some ''several access attempts were refused recently'') (Fin 8)]
      else [])"

definition all_signals :: "Inputs \<Rightarrow> Signal list" where
  "all_signals i =
     identitySignals i @ deviceSignals i @ behaviourSignals i @ networkSignals i @
     resourceSignals i @ historySignals i"

subsection \<open>engine.go: evaluation\<close>

definition weighted :: "Weights \<Rightarrow> Signal \<Rightarrow> int" where
  "weighted w s = f64_to_int (sg_Points s * forDimension w (sg_Dimension s) + Fin (1 / 2))"

definition add_factor :: "Weights \<Rightarrow> Factor list \<Rightarrow> Signal \<Rightarrow> Factor list" where
  "add_factor w fs s =
     (if weighted w s \<le> 0 then fs
      else fs @ [\<lparr>rf_Code = sg_Code s, rf_Label = sg_Label s, rf_Dimension = sg_Dimension s,
                 rf_Contribution = weighted w s, rf_Detail = the (sg_Detail s)\<rparr>])"

definition bump :: "(Dimension \<rightharpoonup> int) \<Rightarrow> Dimension \<Rightarrow> int \<Rightarrow> (Dimension \<rightharpoonup> int)" where
  "bump m d n = m(d \<mapsto> wrap64 ((case m d of None \<Rightarrow> 0 | Some v \<Rightarrow> v) + n))"

definition tally :: "Factor list \<Rightarrow> int \<times> (Dimension \<rightharpoonup> int)" where
  "tally fs =
     foldl (\<lambda>(score, dims) f.
         (wrap64 (score + rf_Contribution f), bump dims (rf_Dimension f) (rf_Contribution f)))
       (0, Map.empty) fs"

fun absorb :: "int \<Rightarrow> Factor list \<times> (Dimension \<rightharpoonup> int) \<Rightarrow> Factor list \<times> (Dimension \<rightharpoonup> int)" where
  "absorb excess ([], dims) = ([], dims)"
| "absorb excess (f # fs, dims) =
     (f\<lparr>rf_Contribution := wrap64 (rf_Contribution f - excess)\<rparr> # fs,
      bump dims (rf_Dimension f) (- excess))"

definition conclude :: "Engine \<Rightarrow> Inputs \<Rightarrow> Factor list \<Rightarrow> Assessment" where
  "conclude e i factors =
     (let (score, dims) = tally factors;
          (factors, dims, score) =
            (if score > 100
             then (let (fs, ds) = absorb (score - 100) (sortFactors factors, dims) in (fs, ds, 100))
             else (factors, dims, score));
          score = (if score < 0 then 0 else score);
          factors = sortFactors factors;
          level = Thresholds_Level (e_thresholds e) score
      in \<lparr>ra_SessionID = in_SessionID i, ra_Score = score, ra_Level = level,
          ra_Action = RecommendedAction level, ra_Factors = factors, ra_Dimensions = dims,
          ra_ComputedAt = in_Now i, ra_ModelVersion = ModelVersion, ra_TriggerEvent = []\<rparr>)"

definition Evaluate :: "Engine \<Rightarrow> Inputs \<Rightarrow> Assessment option" where
  "Evaluate e i =
     (let signals = all_signals i
      in if list_all (\<lambda>s. sg_Detail s \<noteq> None) signals
         then Some (conclude e i (foldl (add_factor (e_weights e)) [] signals))
         else None)"

subsection \<open>Ordering of factors\<close>

interpretation factor_order: slice_order factor_less
  by unfold_locales (auto simp: factor_less_def split: if_splits)

lemma sortFactors_sum [simp]:
  "sum_list (map rf_Contribution (sortFactors fs)) = sum_list (map rf_Contribution fs)"
  by (simp add: sortFactors_def)

lemma sortFactors_Nil_iff [simp]: "sortFactors fs = [] \<longleftrightarrow> fs = []"
  by (simp add: sortFactors_def)

lemma set_sortFactors [simp]: "set (sortFactors fs) = set fs"
  by (simp add: sortFactors_def)

lemma sortFactors_sorted: "sorted_wrt (\<lambda>f g. \<not> factor_less g f) (sortFactors fs)"
  by (simp add: sortFactors_def factor_order.SliceStable_sorted)

subsection \<open>Formatting\<close>

lemma itoa_loop_digits:
  "0 < v \<Longrightarrow> v < 10 ^ i \<Longrightarrow> \<exists>j. itoa_loop i v acc = Some (j, show_nat (nat v) @ acc)"
proof (induction i arbitrary: v acc)
  case 0
  then show ?case by simp
next
  case (Suc i)
  show ?case
  proof (cases "v < 10")
    case True
    then have "v div 10 = 0" "v mod 10 = v" using Suc.prems by simp_all
    then show ?thesis
      using Suc.prems True by (simp add: itoa_loop.simps show_nat.simps [of "nat v"])
  next
    case False
    have "nat v div 10 = nat (v div 10)" "nat v mod 10 = nat (v mod 10)"
      using Suc.prems by (simp_all add: nat_div_distrib nat_mod_distrib)
    moreover have "\<exists>j. itoa_loop i (v div 10) (digit_char (nat (v mod 10)) # acc) =
        Some (j, show_nat (nat (v div 10)) @ digit_char (nat (v mod 10)) # acc)"
      using Suc.prems False by (intro Suc.IH) auto
    moreover have "\<not> nat v < 10" "0 < v" using False by auto
    ultimately show ?thesis
      by (simp add: itoa_loop.simps [of "Suc i"] show_nat.simps [of "nat v"])
  qed
qed

lemma itoa_loop_left:
  "0 \<le> v \<Longrightarrow> v < 10 ^ k \<Longrightarrow> itoa_loop (k + m) v acc = Some (j, s) \<Longrightarrow> m \<le> j"
proof (induction k arbitrary: v acc)
  case 0
  then show ?case by (simp add: itoa_loop.simps)
next
  case (Suc k)
  show ?case
  proof (cases "v = 0")
    case True
    with Suc.prems show ?thesis by (simp add: itoa_loop.simps)
  next
    case False
    show ?thesis
      using Suc.prems False
      by (intro Suc.IH [of "v div 10" "digit_char (nat (v mod 10)) # acc"])
        (simp_all add: itoa_loop.simps [of "Suc (k + m)"])
  qed
qed

lemma itoa_loop_overflow: "10 ^ i \<le> v \<Longrightarrow> itoa_loop i v acc = None"
proof (induction i arbitrary: v acc)
  case 0
  then show ?case by (simp add: itoa_loop.simps)
next
  case (Suc i)
  have "0 < (10 :: int) ^ Suc i" by simp
  with Suc.prems have "0 < v" by linarith
  moreover have "10 ^ i \<le> v div 10"
    using zdiv_mono1 [OF Suc.prems, of 10] by simp
  ultimately show ?case using Suc.IH by (simp add: itoa_loop.simps [of "Suc i"])
qed

lemma itoa_show_int:
  assumes "\<bar>v\<bar> < 10 ^ 11" shows "itoa v = Some (show_int v)"
proof -
  consider "v = 0" | "0 < v" | "v < 0" by linarith
  then show ?thesis
  proof cases
    case 1
    then show ?thesis by (simp add: itoa_def show_int_def show_nat.simps)
  next
    case 2
    with assms obtain j where "itoa_loop 12 v [] = Some (j, show_nat (nat v))"
      using itoa_loop_digits [of v 12 "[]"] by auto
    with 2 show ?thesis by (simp add: itoa_def show_int_def)
  next
    case 3
    with assms obtain j where j: "itoa_loop 12 (- v) [] = Some (j, show_nat (nat (- v)))"
      using itoa_loop_digits [of "- v" 12 "[]"] by auto
    have "1 \<le> j" using itoa_loop_left [of "- v" 11 1 "[]" j] j 3 assms by simp
    moreover have "wrap64 (- v) = - v" using assms by (intro wrap64_id fits64_small) simp
    ultimately show ?thesis using 3 j by (simp add: itoa_def show_int_def)
  qed
qed

lemma itoa_panics: "10 ^ 12 \<le> v \<Longrightarrow> itoa v = None"
  using itoa_loop_overflow [of 12 v "[]"] by (auto simp: itoa_def)

text \<open>A negative number needs one byte for its sign, which the loop may have used up.\<close>

lemma itoa_loop_le: "itoa_loop i v acc = Some (j, s) \<Longrightarrow> j \<le> i"
proof (induction i arbitrary: v acc)
  case 0
  then show ?case by (simp add: itoa_loop.simps split: if_splits)
next
  case (Suc i)
  from Suc.prems show ?case
    by (auto simp: itoa_loop.simps [of "Suc i"] split: if_splits dest: Suc.IH)
qed

lemma itoa_loop_used: "10 ^ k \<le> v \<Longrightarrow> itoa_loop i v acc = Some (j, s) \<Longrightarrow> j + Suc k \<le> i"
proof (induction k arbitrary: i v acc)
  case 0
  then show ?case by (cases i) (auto simp: itoa_loop.simps [of _ v] dest: itoa_loop_le)
next
  case (Suc k)
  have "0 < (10 :: int) ^ Suc k" by simp
  with Suc.prems have pos: "0 < v" by linarith
  obtain i' where i: "i = Suc i'" using Suc.prems(2) pos
    by (cases i) (simp_all add: itoa_loop.simps [of _ v])
  have "10 ^ k \<le> v div 10" using zdiv_mono1 [OF Suc.prems(1), of 10] by simp
  moreover have "itoa_loop i' (v div 10) (digit_char (nat (v mod 10)) # acc) = Some (j, s)"
    using Suc.prems(2) pos i by (simp add: itoa_loop.simps [of "Suc i'" v])
  ultimately have "j + Suc k \<le> i'" by (rule Suc.IH)
  with i show ?case by simp
qed

lemma itoa_negative_panics:
  assumes "v \<le> - (10 ^ 11)" "wrap64 (- v) = - v" shows "itoa v = None"
proof (cases "- v < 10 ^ 12")
  case True
  obtain j where j: "itoa_loop 12 (- v) [] = Some (j, show_nat (nat (- v)))"
    using itoa_loop_digits [of "- v" 12 "[]"] True assms by auto
  have "j = 0" using itoa_loop_used [of 11 "- v" 12] j assms(1) by fastforce
  with j show ?thesis using assms by (simp add: itoa_def)
next
  case False
  then show ?thesis using assms itoa_loop_overflow [of 12 "- v" "[]"] by (auto simp: itoa_def)
qed

subsection \<open>Weights and points\<close>

definition weight_ok :: "f64 \<Rightarrow> bool" where
  "weight_ok v \<longleftrightarrow> \<not> v < Fin 0 \<and> \<not> Fin 5 < v"

definition weights_ok :: "Weights \<Rightarrow> bool" where
  "weights_ok w \<longleftrightarrow> (\<forall>(name, v) \<in> set (weight_entries w). weight_ok v)"

text \<open>Whatever order the runtime yields the entries in, validation accepts the same weights.\<close>

lemma Weights_Validate_None:
  "Weights_Validate es = None \<longleftrightarrow> (\<forall>(name, v) \<in> set es. weight_ok v)"
  by (induction es rule: Weights_Validate.induct) (auto simp: weight_ok_def)

lemma Weights_Validate_weights_ok:
  assumes "mset es = mset (weight_entries w)"
  shows "Weights_Validate es = None \<longleftrightarrow> weights_ok w"
  using mset_eq_setD [OF assms] by (simp add: Weights_Validate_None weights_ok_def)

lemma weight_ok_cases:
  assumes "weight_ok v" obtains q where "v = Fin q" "0 \<le> q" "q \<le> 5" | "v = NaN"
  using assms by (cases v) (auto simp: weight_ok_def)

lemma forDimension_ok: "weights_ok w \<Longrightarrow> weight_ok (forDimension w d)"
  by (cases d) (auto simp: weights_ok_def weight_entries_def)

definition points_ok :: "f64 \<Rightarrow> bool" where
  "points_ok x \<longleftrightarrow> (\<exists>p. x = Fin p \<and> 0 \<le> p \<and> p \<le> 30)"

lemma points_ok_const [simp]: "points_ok (Fin p) \<longleftrightarrow> 0 \<le> p \<and> p \<le> 30"
  by (simp add: points_ok_def)

text \<open>A non-negative computation is a non-negative number or overflows upwards; capping bounds it.\<close>

definition nonneg :: "f64 \<Rightarrow> bool" where
  "nonneg x \<longleftrightarrow> x = PInf \<or> (\<exists>p. x = Fin p \<and> 0 \<le> p)"

lemma nonneg_simps [simp]:
  "nonneg (Fin p) \<longleftrightarrow> 0 \<le> p" "nonneg PInf" "\<not> nonneg NInf" "\<not> nonneg NaN"
  by (auto simp: nonneg_def)

lemma nonneg_round: "0 \<le> x \<Longrightarrow> nonneg (f64_round x)"
  using fround_nonneg [of x] by (auto simp: f64_round_def Let_def)

lemma nonneg_times: "nonneg x \<Longrightarrow> 0 < q \<Longrightarrow> nonneg (x * Fin q)"
  by (cases x) (auto simp: inf_of_def intro: nonneg_round)

lemma nonneg_add: "0 \<le> q \<Longrightarrow> nonneg x \<Longrightarrow> nonneg (Fin q + x)"
  by (cases x) (auto intro: nonneg_round)

lemma capped_ok:
  "nonneg x \<Longrightarrow> 0 \<le> c \<Longrightarrow> c \<le> 30 \<Longrightarrow> points_ok (if Fin c < x then Fin c else x)"
  by (cases x) auto

lemma volume_points_ok: "Fin 3 \<le> z \<Longrightarrow> points_ok (volume_points z)"
proof -
  assume "Fin 3 \<le> z"
  then have "nonneg (z - Fin 3)"
    by (cases z) (auto intro: nonneg_round)
  then have "nonneg (Fin 12 + (z - Fin 3) * Fin 4)"
    by (intro nonneg_add nonneg_times) simp_all
  then show ?thesis unfolding volume_points_def Let_def by (rule capped_ok) simp_all
qed

lemma four_tenths: obtains q where "f64_round (4 / 10) = Fin q" "0 < q"
proof -
  have "fround (4 / 16) \<le> fround (4 / 10)" by (rule fround_mono) simp
  moreover have "fround (4 / 16) = 4 / 16"
    using fround_exact [of 1 "- 2"] by (simp add: power_int_minus)
  moreover have "f64_round (4 / 10) = Fin (fround (4 / 10))"
    using f64_round_range(1) [of 0 "4 / 10" 1] by simp
  ultimately show ?thesis using that by simp
qed

lemma low_trust_points_ok: "trust < 70 \<Longrightarrow> - (2 ^ 62) < trust \<Longrightarrow> points_ok (low_trust_points trust)"
proof -
  assume t: "trust < 70" "- (2 ^ 62) < trust"
  then have "wrap64 (70 - trust) = 70 - trust" by (intro wrap64_id) (simp add: fits64_def)
  then have "nonneg (f64_of_int (wrap64 (70 - trust)))"
    using t by (simp add: f64_of_int_def nonneg_round del: of_int_diff)
  moreover obtain q where "f64_round (4 / 10) = Fin q" "0 < q" by (rule four_tenths)
  ultimately have "nonneg (f64_of_int (wrap64 (70 - trust)) * f64_round (4 / 10))"
    by (simp add: nonneg_times)
  then show ?thesis unfolding low_trust_points_def Let_def by (rule capped_ok) simp_all
qed

lemma incident_points_ok: "0 < n \<Longrightarrow> points_ok (incident_points n)"
proof -
  assume "0 < n"
  then have "nonneg (f64_of_int n * Fin 6)"
    by (intro nonneg_times) (simp_all add: f64_of_int_def nonneg_round)
  then show ?thesis unfolding incident_points_def Let_def by (rule capped_ok) simp_all
qed

lemma anomaly_points_ok:
  assumes "Fin (1 / 2) < a" "\<not> Fin 1 < a" shows "points_ok ((a - Fin (1 / 2)) * Fin 20)"
proof (cases a)
  case (Fin r)
  with assms have r: "1 / 2 < r" "r \<le> 1" by simp_all
  have d: "f64_round (r - 1 / 2) = Fin (fround (r - 1 / 2))" "0 \<le> fround (r - 1 / 2)"
      "fround (r - 1 / 2) \<le> 1"
    using f64_round_range [of 0 "r - 1 / 2" 1] r by simp_all
  then have "f64_round (fround (r - 1 / 2) * 20) = Fin (fround (fround (r - 1 / 2) * 20))"
      "0 \<le> fround (fround (r - 1 / 2) * 20)" "fround (fround (r - 1 / 2) * 20) \<le> 20"
    using f64_round_range [of 0 "fround (r - 1 / 2) * 20" 20] by simp_all
  with Fin d show ?thesis by simp
qed (use assms in auto)

text \<open>
  The inputs the engine is documented to receive: an anomaly score in the unit interval (or absent)
  and a trust score a detail can print.
\<close>

definition inputs_ok :: "Inputs \<Rightarrow> bool" where
  "inputs_ok i \<longleftrightarrow>
     \<not> Fin 1 < in_AnomalyScore i \<and>
     (case in_DeviceTrustScore i of None \<Rightarrow> True | Some trust \<Rightarrow> - (10 ^ 11) < trust)"

lemma signal_sel [simp]:
  "sg_Dimension (signal d c l t p) = d" "sg_Code (signal d c l t p) = c"
  "sg_Label (signal d c l t p) = l" "sg_Detail (signal d c l t p) = t"
  "sg_Points (signal d c l t p) = p"
  by (simp_all add: signal_def)

definition group_ok :: "nat \<Rightarrow> Signal list \<Rightarrow> bool" where
  "group_ok n ss \<longleftrightarrow> length ss \<le> n \<and> (\<forall>s \<in> set ss. points_ok (sg_Points s))"

lemma group_ok_append: "group_ok m ss \<Longrightarrow> group_ok n ts \<Longrightarrow> group_ok (m + n) (ss @ ts)"
  by (auto simp: group_ok_def)

lemma group_ok_if:
  "(b \<Longrightarrow> points_ok (sg_Points s)) \<Longrightarrow> group_ok 1 (if b then [s] else [])"
  by (simp add: group_ok_def)

lemma identity_ok: "group_ok (1 + 1) (identitySignals i)"
  unfolding identitySignals_def by (intro group_ok_append group_ok_if) simp_all

lemma device_ok: "inputs_ok i \<Longrightarrow> group_ok (1 + (1 + (1 + (1 + 1)))) (deviceSignals i)"
  unfolding deviceSignals_def inputs_ok_def
  by (intro group_ok_append group_ok_if)
    (auto simp: group_ok_def intro: low_trust_points_ok split: option.splits)

lemma behaviour_ok: "inputs_ok i \<Longrightarrow> group_ok (1 + (1 + (1 + 1))) (behaviourSignals i)"
proof (cases "in_BaselineEstablished i")
  case True
  assume "inputs_ok i"
  then show ?thesis
    unfolding behaviourSignals_def inputs_ok_def
    using True
    by (simp only: not_True_eq_False if_False)
      (intro group_ok_append group_ok_if; simp add: volume_points_ok anomaly_points_ok)
qed (simp add: behaviourSignals_def group_ok_def)

lemma network_ok: "group_ok 1 (networkSignals i)"
  by (simp add: networkSignals_def group_ok_def)

lemma resource_ok: "group_ok 1 (resourceSignals i)"
  by (simp add: resourceSignals_def group_ok_def split: Sensitivity.split)

lemma history_ok: "group_ok (1 + 1) (historySignals i)"
  unfolding historySignals_def
  by (intro group_ok_append group_ok_if) (simp_all add: incident_points_ok)

lemma all_signals_ok:
  assumes "inputs_ok i" shows "group_ok 15 (all_signals i)"
proof -
  have "group_ok (2 + (5 + (4 + (1 + (1 + 2))))) (all_signals i)"
    unfolding all_signals_def
    using identity_ok device_ok [OF assms] behaviour_ok [OF assms] network_ok resource_ok history_ok
    by (intro group_ok_append) (simp_all add: numeral_eq_Suc)
  then show ?thesis by simp
qed

lemma weighted_bound:
  assumes "weights_ok w" "points_ok (sg_Points s)" shows "weighted w s \<le> 151"
proof -
  obtain p where p: "sg_Points s = Fin p" "0 \<le> p" "p \<le> 30"
    using assms(2) by (auto simp: points_ok_def)
  show ?thesis
    using forDimension_ok [OF assms(1), of "sg_Dimension s"]
  proof (cases rule: weight_ok_cases)
    case (1 q)
    have "p * q \<le> 30 * 5" using p 1 by (intro mult_mono) simp_all
    then have x: "f64_round (p * q) = Fin (fround (p * q))" "0 \<le> fround (p * q)"
        "fround (p * q) \<le> 150"
      using f64_round_range [of 0 "p * q" 150] p 1 by simp_all
    then have "f64_round (fround (p * q) + 1 / 2) = Fin (fround (fround (p * q) + 1 / 2))"
        "0 \<le> fround (fround (p * q) + 1 / 2)" "fround (fround (p * q) + 1 / 2) \<le> 151"
      using f64_round_range [of 0 "fround (p * q) + 1 / 2" 151] by simp_all
    then show ?thesis
      using p 1 x by (simp add: weighted_def f64_to_int_def Let_def floor_le_iff)
  next
    case 2
    then show ?thesis using p by (simp add: weighted_def f64_to_int_def)
  qed
qed

text \<open>More points of the same dimension never weigh less.\<close>

lemma weighted_mono:
  assumes "weights_ok w" "sg_Dimension s = sg_Dimension s'"
    and "sg_Points s = Fin p" "sg_Points s' = Fin p'" "0 \<le> p" "p \<le> p'" "p' \<le> 30"
  shows "weighted w s \<le> weighted w s'"
  using forDimension_ok [OF assms(1), of "sg_Dimension s"]
proof (cases rule: weight_ok_cases)
  case (1 q)
  have bound: "f64_round (x * q) = Fin (fround (x * q))" "0 \<le> fround (x * q)"
      "f64_round (fround (x * q) + 1 / 2) = Fin (fround (fround (x * q) + 1 / 2))"
      "0 \<le> fround (fround (x * q) + 1 / 2)" "fround (fround (x * q) + 1 / 2) \<le> 151"
    if "0 \<le> x" "x \<le> 30" for x
  proof -
    have "x * q \<le> 30 * 5" using that 1 by (intro mult_mono) simp_all
    then show r: "f64_round (x * q) = Fin (fround (x * q))" and n: "0 \<le> fround (x * q)"
      using f64_round_range [of 0 "x * q" 150] that 1 by simp_all
    have "fround (x * q) \<le> 150"
      using f64_round_range [of 0 "x * q" 150] \<open>x * q \<le> 30 * 5\<close> that 1 by simp
    then show "f64_round (fround (x * q) + 1 / 2) = Fin (fround (fround (x * q) + 1 / 2))"
      "0 \<le> fround (fround (x * q) + 1 / 2)" "fround (fround (x * q) + 1 / 2) \<le> 151"
      using f64_round_range [of 0 "fround (x * q) + 1 / 2" 151] n by simp_all
  qed
  have le: "fround (fround (p * q) + 1 / 2) \<le> fround (fround (p' * q) + 1 / 2)"
    using assms(6) 1(2) by (intro fround_mono add_right_mono mult_right_mono) simp_all
  have fits: "fits64 \<lfloor>x\<rfloor>" if "0 \<le> x" "x \<le> 151" for x :: rat
  proof -
    have "0 \<le> \<lfloor>x\<rfloor>" "\<lfloor>x\<rfloor> \<le> 151" using that by (simp_all add: floor_le_iff)
    then show ?thesis by (simp add: fits64_def)
  qed
  show ?thesis
    using bound [of p] bound [of p'] assms 1(1) fits floor_mono [OF le]
    by (simp add: weighted_def f64_to_int_def Let_def)
next
  case 2
  with assms show ?thesis by (simp add: weighted_def f64_to_int_def)
qed

subsection \<open>The score is the clamped sum of the factors\<close>

definition factor_of :: "Weights \<Rightarrow> Signal \<Rightarrow> Factor" where
  "factor_of w s = \<lparr>rf_Code = sg_Code s, rf_Label = sg_Label s, rf_Dimension = sg_Dimension s,
     rf_Contribution = weighted w s, rf_Detail = the (sg_Detail s)\<rparr>"

definition factors_of :: "Weights \<Rightarrow> Signal list \<Rightarrow> Factor list" where
  "factors_of w ss = map (factor_of w) (filter (\<lambda>s. 0 < weighted w s) ss)"

lemma foldl_add_factor: "foldl (add_factor w) fs ss = fs @ factors_of w ss"
  by (induction ss arbitrary: fs) (auto simp: add_factor_def factors_of_def factor_of_def)

definition contributions :: "Factor list \<Rightarrow> int" where
  "contributions fs = sum_list (map rf_Contribution fs)"

definition dim_total :: "Factor list \<Rightarrow> Dimension \<Rightarrow> int" where
  "dim_total fs d = contributions (filter (\<lambda>f. rf_Dimension f = d) fs)"

definition dim_value :: "(Dimension \<rightharpoonup> int) \<Rightarrow> Dimension \<Rightarrow> int" where
  "dim_value m d = (case m d of None \<Rightarrow> 0 | Some v \<Rightarrow> v)"

definition factors_ok :: "Factor list \<Rightarrow> bool" where
  "factors_ok fs \<longleftrightarrow>
     length fs \<le> 15 \<and> (\<forall>f \<in> set fs. 0 < rf_Contribution f \<and> rf_Contribution f \<le> 151)"

lemma contributions_simps [simp]:
  "contributions [] = 0" "contributions (f # fs) = rf_Contribution f + contributions fs"
  "contributions (fs @ gs) = contributions fs + contributions gs"
  by (simp_all add: contributions_def)

lemma contributions_sortFactors [simp]: "contributions (sortFactors fs) = contributions fs"
  by (simp add: contributions_def)

lemma dim_total_sortFactors [simp]: "dim_total (sortFactors fs) d = dim_total fs d"
  by (simp add: dim_total_def contributions_def sortFactors_def)

lemma contributions_bounds:
  "\<forall>f \<in> set fs. 0 \<le> rf_Contribution f \<and> rf_Contribution f \<le> 151 \<Longrightarrow>
   0 \<le> contributions fs \<and> contributions fs \<le> 151 * int (length fs)"
  by (induction fs) auto

lemma dim_total_bounds:
  "\<forall>f \<in> set fs. 0 \<le> rf_Contribution f \<Longrightarrow>
   0 \<le> dim_total fs d \<and> dim_total fs d \<le> contributions fs"
  by (induction fs) (auto simp: dim_total_def)

lemma factors_ok_bounds:
  assumes "factors_ok fs"
  shows "0 \<le> contributions fs" "contributions fs \<le> 151 * int (length fs)"
    and "0 \<le> dim_total fs d" "dim_total fs d \<le> contributions fs"
  using assms contributions_bounds [of fs] dim_total_bounds [of fs d]
  by (auto simp: factors_ok_def less_imp_le)

lemma dim_value_bump: "dim_value (bump m d n) d' = (if d' = d then wrap64 (dim_value m d + n) else dim_value m d')"
  by (simp add: dim_value_def bump_def)

lemma tally_snoc:
  "tally (fs @ [f]) =
     (wrap64 (fst (tally fs) + rf_Contribution f),
      bump (snd (tally fs)) (rf_Dimension f) (rf_Contribution f))"
  by (simp add: tally_def split: prod.split)

lemma tally_exact:
  "factors_ok fs \<Longrightarrow>
   fst (tally fs) = contributions fs \<and> (\<forall>d. dim_value (snd (tally fs)) d = dim_total fs d)"
proof (induction fs rule: rev_induct)
  case Nil
  then show ?case by (simp add: tally_def dim_value_def dim_total_def)
next
  case (snoc f fs)
  then have ok: "factors_ok fs" and f: "0 < rf_Contribution f" "rf_Contribution f \<le> 151"
    and len: "length fs \<le> 14"
    by (auto simp: factors_ok_def)
  note b = factors_ok_bounds [OF ok]
  have "wrap64 (contributions fs + rf_Contribution f) = contributions fs + rf_Contribution f"
    using b(1,2) f len by (intro wrap64_id) (simp add: fits64_def)
  moreover have "wrap64 (dim_total fs d + rf_Contribution f) = dim_total fs d + rf_Contribution f" for d
    using b(2) b(3,4) [of d] f len by (intro wrap64_id) (simp add: fits64_def)
  moreover note snoc.IH [OF ok]
  ultimately show ?case
    by (simp add: tally_snoc dim_value_bump dim_total_def)
qed

lemma factors_of_ok:
  assumes "weights_ok w" "group_ok 15 ss" shows "factors_ok (factors_of w ss)"
proof -
  have "length (filter (\<lambda>s. 0 < weighted w s) ss) \<le> 15"
    using assms(2) by (intro order_trans [OF length_filter_le]) (simp add: group_ok_def)
  then show ?thesis
    using assms by (auto simp: factors_ok_def factors_of_def factor_of_def group_ok_def
        intro: weighted_bound)
qed

lemma absorb_reconciles:
  assumes "fs \<noteq> []" "\<forall>f \<in> set fs. fits64 (rf_Contribution f - x)"
    and "\<forall>d. fits64 (dim_total fs d - x)" "\<forall>d. dim_value ds d = dim_total fs d"
  shows "contributions (fst (absorb x (fs, ds))) = contributions fs - x"
    and "dim_value (snd (absorb x (fs, ds))) d = dim_total (fst (absorb x (fs, ds))) d"
proof -
  obtain f gs where fs: "fs = f # gs" using assms(1) by (cases fs) auto
  have w: "wrap64 (rf_Contribution f - x) = rf_Contribution f - x"
    using assms(2) fs by (simp add: wrap64_id)
  show "contributions (fst (absorb x (fs, ds))) = contributions fs - x"
    by (simp add: fs w)
  have "wrap64 (dim_total fs (rf_Dimension f) - x) = dim_total fs (rf_Dimension f) - x"
    using assms(3) by (simp add: wrap64_id)
  then show "dim_value (snd (absorb x (fs, ds))) d = dim_total (fst (absorb x (fs, ds))) d"
    by (simp add: fs w dim_value_bump assms(4) [unfolded fs]) (simp add: dim_total_def)
qed

definition reconciles :: "Assessment \<Rightarrow> bool" where
  "reconciles a \<longleftrightarrow>
     contributions (ra_Factors a) = ra_Score a \<and>
     (\<forall>d. dim_value (ra_Dimensions a) d = dim_total (ra_Factors a) d)"

lemma conclude_reconciles:
  assumes ok: "factors_ok fs"
  shows "ra_Score (conclude e i fs) = min 100 (contributions fs)"
    and "reconciles (conclude e i fs)"
    and "ra_Level (conclude e i fs) = Thresholds_Level (e_thresholds e) (min 100 (contributions fs))"
    and "ra_Action (conclude e i fs) = RecommendedAction (ra_Level (conclude e i fs))"
    and "sorted_wrt (\<lambda>f g. \<not> factor_less g f) (ra_Factors (conclude e i fs))"
proof -
  obtain score dims where t: "tally fs = (score, dims)" by fastforce
  with tally_exact [OF ok] have score: "score = contributions fs"
    and dims: "\<forall>d. dim_value dims d = dim_total fs d" by simp_all
  have pos: "0 \<le> contributions fs" "contributions fs \<le> 151 * 15"
    using factors_ok_bounds(1,2) [OF ok] ok by (simp_all add: factors_ok_def)
  have small: "fits64 (rf_Contribution f - (score - 100))" if "f \<in> set (sortFactors fs)" for f
    using that ok pos score by (auto simp: factors_ok_def fits64_def)
  have dsmall: "fits64 (dim_total (sortFactors fs) d - (score - 100))" for d
    using factors_ok_bounds(3,4) [OF ok, of d] pos score by (simp add: fits64_def)
  have all: "ra_Score (conclude e i fs) = min 100 score \<and> reconciles (conclude e i fs) \<and>
      ra_Level (conclude e i fs) = Thresholds_Level (e_thresholds e) (min 100 score) \<and>
      ra_Action (conclude e i fs) = RecommendedAction (ra_Level (conclude e i fs)) \<and>
      sorted_wrt (\<lambda>f g. \<not> factor_less g f) (ra_Factors (conclude e i fs))"
  proof (cases "score > 100")
    case True
    then have ne: "sortFactors fs \<noteq> []" using score by auto
    obtain gs ds where a: "absorb (score - 100) (sortFactors fs, dims) = (gs, ds)" by fastforce
    have "contributions gs = 100" "\<And>d. dim_value ds d = dim_total gs d"
      using absorb_reconciles [OF ne, of "score - 100" dims] small dsmall dims a score by auto
    then show ?thesis
      using True a by (simp add: conclude_def t reconciles_def sortFactors_sorted Let_def)
  next
    case False
    then show ?thesis
      using pos score dims by (simp add: conclude_def t reconciles_def sortFactors_sorted Let_def)
  qed
  then show "ra_Score (conclude e i fs) = min 100 (contributions fs)"
    "reconciles (conclude e i fs)"
    "ra_Level (conclude e i fs) = Thresholds_Level (e_thresholds e) (min 100 (contributions fs))"
    "ra_Action (conclude e i fs) = RecommendedAction (ra_Level (conclude e i fs))"
    "sorted_wrt (\<lambda>f g. \<not> factor_less g f) (ra_Factors (conclude e i fs))"
    by (simp_all add: score)
qed

text \<open>The score as a sum over the signals: the reference the evaluation implements.\<close>

definition signal_sum :: "Weights \<Rightarrow> Signal list \<Rightarrow> int" where
  "signal_sum w ss = (\<Sum>s\<leftarrow>ss. max 0 (weighted w s))"

lemma signal_sum_simps [simp]:
  "signal_sum w [] = 0" "signal_sum w (s # ss) = max 0 (weighted w s) + signal_sum w ss"
  "signal_sum w (ss @ ts) = signal_sum w ss + signal_sum w ts"
  by (simp_all add: signal_sum_def)

lemma contributions_factors_of: "contributions (factors_of w ss) = signal_sum w ss"
  by (induction ss) (auto simp: factors_of_def factor_of_def)

definition printable :: "Inputs \<Rightarrow> bool" where
  "printable i \<longleftrightarrow> list_all (\<lambda>s. sg_Detail s \<noteq> None) (all_signals i)"

lemma Evaluate_eq:
  "Evaluate e i =
     (if printable i then Some (conclude e i (factors_of (e_weights e) (all_signals i))) else None)"
  by (simp add: Evaluate_def printable_def foldl_add_factor)

lemma Evaluate_spec:
  assumes "weights_ok (e_weights e)" "inputs_ok i" "Evaluate e i = Some a"
  shows "ra_Score a = min 100 (signal_sum (e_weights e) (all_signals i))"
    and "reconciles a"
    and "ra_Level a = Thresholds_Level (e_thresholds e) (ra_Score a)"
    and "ra_Action a = RecommendedAction (ra_Level a)"
    and "sorted_wrt (\<lambda>f g. \<not> factor_less g f) (ra_Factors a)"
proof -
  have a: "a = conclude e i (factors_of (e_weights e) (all_signals i))"
    using assms(3) by (simp add: Evaluate_eq split: if_splits)
  note c = conclude_reconciles [OF factors_of_ok [OF assms(1) all_signals_ok [OF assms(2)]],
      of e i, folded a]
  show "ra_Score a = min 100 (signal_sum (e_weights e) (all_signals i))"
    using c(1) by (simp add: contributions_factors_of)
  show "reconciles a" "ra_Level a = Thresholds_Level (e_thresholds e) (ra_Score a)"
    "ra_Action a = RecommendedAction (ra_Level a)"
    "sorted_wrt (\<lambda>f g. \<not> factor_less g f) (ra_Factors a)"
    using c by simp_all
qed

lemma signal_sum_nonneg: "0 \<le> signal_sum w ss"
  by (induction ss) simp_all

text \<open>No detail panics while the numbers shown have at most eleven digits.\<close>

lemma formatTrust_defined: "\<bar>trust\<bar> < 10 ^ 11 \<Longrightarrow> formatTrust trust \<noteq> None"
  by (simp add: formatTrust_def itoa_show_int)

lemma ftoa_defined:
  assumes "0 \<le> r" "r < 10 ^ 11" shows "ftoa (Fin r) \<noteq> None"
proof -
  have w: "f64_to_int (Fin r) = \<lfloor>r\<rfloor>" "0 \<le> \<lfloor>r\<rfloor>" "\<lfloor>r\<rfloor> < 10 ^ 11"
    using f64_to_int_trunc [of r "10 ^ 11"] assms by simp_all
  have whole: "f64_of_int \<lfloor>r\<rfloor> = Fin (of_int \<lfloor>r\<rfloor>)" using w by (simp add: f64_of_int_small)
  have "0 \<le> r - of_int \<lfloor>r\<rfloor>" "r - of_int \<lfloor>r\<rfloor> \<le> 1" by linarith+
  then have d: "f64_round (r - of_int \<lfloor>r\<rfloor>) = Fin (fround (r - of_int \<lfloor>r\<rfloor>))"
      "0 \<le> fround (r - of_int \<lfloor>r\<rfloor>)" "fround (r - of_int \<lfloor>r\<rfloor>) \<le> 1"
    using f64_round_range [of 0 "r - of_int \<lfloor>r\<rfloor>" 1] by simp_all
  define x where "x = fround (fround (r - of_int \<lfloor>r\<rfloor>) * 10)"
  have x: "f64_round (fround (r - of_int \<lfloor>r\<rfloor>) * 10) = Fin x" "0 \<le> x" "x \<le> 10"
    using f64_round_range [of 0 "fround (r - of_int \<lfloor>r\<rfloor>) * 10" 10] d unfolding x_def by simp_all
  have f: "f64_to_int (Fin x) = \<lfloor>x\<rfloor>" "0 \<le> \<lfloor>x\<rfloor>" "\<lfloor>x\<rfloor> < 11"
    using f64_to_int_trunc [of x 11] x by simp_all
  have "itoa \<lfloor>r\<rfloor> = Some (show_int \<lfloor>r\<rfloor>)" "itoa \<lfloor>x\<rfloor> = Some (show_int \<lfloor>x\<rfloor>)"
    using w f by (auto intro!: itoa_show_int)
  then show ?thesis
    using w d x f by (simp add: ftoa_def Let_def whole)
qed

lemma printable_small:
  assumes "\<forall>trust. in_DeviceTrustScore i = Some trust \<longrightarrow> \<bar>trust\<bar> < 10 ^ 11"
    and "Fin 3 \<le> in_AccessVolumeZScore i \<Longrightarrow> in_AccessVolumeZScore i < Fin (10 ^ 11)"
  shows "printable i"
proof -
  have "formatZScore (in_AccessVolumeZScore i) \<noteq> None" if "Fin 3 \<le> in_AccessVolumeZScore i"
    using assms(2) that ftoa_defined
    by (cases "in_AccessVolumeZScore i") (auto simp: formatZScore_def)
  then show ?thesis
    using assms(1) formatTrust_defined
    by (auto simp: printable_def all_signals_def identitySignals_def deviceSignals_def
        behaviourSignals_def networkSignals_def resourceSignals_def historySignals_def
        split: option.splits Sensitivity.splits)
qed

subsection \<open>More evidence never lowers the score\<close>

text \<open>
  \<open>riskier i j\<close>: the two inputs describe the same session at the same moment, and everything \<open>j\<close>
  reports is at least as alarming as what \<open>i\<close> reports.
\<close>

fun sensitivity_rank :: "Sensitivity \<Rightarrow> nat" where
  "sensitivity_rank SensitivityPublic = 0"
| "sensitivity_rank SensitivityInternal = 0"
| "sensitivity_rank SensitivitySensitive = 1"
| "sensitivity_rank SensitivityCritical = 2"

definition riskier :: "Inputs \<Rightarrow> Inputs \<Rightarrow> bool" where
  "riskier i j \<longleftrightarrow>
     (in_FirstEverSession i \<longrightarrow> in_FirstEverSession j) \<and>
     (in_SessionAttested j \<longrightarrow> in_SessionAttested i) \<and>
     (in_DeviceFirstSeenForUser i \<longrightarrow> in_DeviceFirstSeenForUser j) \<and>
     in_Now j = in_Now i \<and> in_DeviceEnrolledAt j = in_DeviceEnrolledAt i \<and>
     rel_option (\<lambda>a b. b \<le> a) (in_DeviceTrustScore i) (in_DeviceTrustScore j) \<and>
     (in_DeviceKeyProtection i = ''software'' \<longrightarrow> in_DeviceKeyProtection j = ''software'') \<and>
     (case in_AgentLastHeartbeat j of None \<Rightarrow> True
      | Some b \<Rightarrow> (case in_AgentLastHeartbeat i of None \<Rightarrow> False | Some a \<Rightarrow> b \<le> a)) \<and>
     in_BaselineEstablished j = in_BaselineEstablished i \<and>
     (in_LoginHourTypical j \<longrightarrow> in_LoginHourTypical i) \<and>
     (Fin 3 \<le> in_AccessVolumeZScore i \<longrightarrow> in_AccessVolumeZScore i \<le> in_AccessVolumeZScore j) \<and>
     (in_UnfamiliarApplication i \<longrightarrow> in_UnfamiliarApplication j) \<and>
     (Fin (1 / 2) < in_AnomalyScore i \<longrightarrow> in_AnomalyScore i \<le> in_AnomalyScore j) \<and>
     in_NetworkKnown j = in_NetworkKnown i \<and> (in_NetworkFamiliar j \<longrightarrow> in_NetworkFamiliar i) \<and>
     sensitivity_rank (in_ResourceSensitivity i) \<le> sensitivity_rank (in_ResourceSensitivity j) \<and>
     in_RecentIncidents i \<le> in_RecentIncidents j \<and> in_RecentDenials i \<le> in_RecentDenials j"

lemma signal_sum_if_mono:
  "(b \<longrightarrow> c) \<Longrightarrow> signal_sum w (if b then [s] else []) \<le> signal_sum w (if c then [s] else [])"
  by simp

lemma silence_mono:
  assumes "case hb' of None \<Rightarrow> True | Some b \<Rightarrow> (case hb of None \<Rightarrow> False | Some a \<Rightarrow> b \<le> a)"
    and "case hb of None \<Rightarrow> True | Some a \<Rightarrow> time_Sub now a > 15 * minute"
  shows "case hb' of None \<Rightarrow> True | Some b \<Rightarrow> time_Sub now b > 15 * minute"
proof -
  have "\<bar>15 * minute\<bar> < max_duration" by (simp add: minute_def max_duration_def)
  then show ?thesis
    using assms by (auto simp: time_Sub_gt_iff split: option.splits)
qed

text \<open>Graded signals: the operations of their formulas keep the order of \<^verbatim>\<open>float64\<close>.\<close>

lemma f64_order [simp]: "PInf \<le> PInf" "NInf \<le> NInf" "f64_round x \<le> PInf"
  by (simp_all add: less_eq_f64_def f64_round_def Let_def)

lemma f64_round_mono: "x \<le> y \<Longrightarrow> f64_round x \<le> f64_round y"
  using fround_mono [of x y] by (auto simp: f64_round_def Let_def)

lemma NInf_le_round [simp]: "NInf \<le> f64_round x"
  by (simp add: less_eq_f64_def f64_round_def Let_def)

lemma f64_times_mono: "x \<le> y \<Longrightarrow> 0 < q \<Longrightarrow> x * Fin q \<le> y * Fin q"
  by (cases x; cases y) (auto simp: inf_of_def intro!: f64_round_mono)

lemma f64_minus_mono: "x \<le> y \<Longrightarrow> x - Fin q \<le> y - Fin q"
  by (cases x; cases y) (auto intro!: f64_round_mono)

lemma f64_plus_mono: "x \<le> y \<Longrightarrow> Fin q + x \<le> Fin q + y"
  by (cases x; cases y) (auto intro!: f64_round_mono)

lemmas f64_ops_mono = f64_times_mono f64_minus_mono f64_plus_mono

lemma capped_mono: "x \<le> y \<Longrightarrow> (if Fin c < x then Fin c else x) \<le> (if Fin c < y then Fin c else y)"
  by (cases x; cases y) auto

lemma volume_points_mono: "x \<le> y \<Longrightarrow> volume_points x \<le> volume_points y"
  unfolding volume_points_def Let_def by (intro capped_mono f64_ops_mono) simp_all

lemma incident_points_mono: "m \<le> n \<Longrightarrow> incident_points m \<le> incident_points n"
  unfolding incident_points_def f64_of_int_def Let_def by (intro capped_mono f64_ops_mono f64_round_mono) simp_all

lemma low_trust_points_mono:
  assumes "b \<le> a" "a < 70" "- (2 ^ 62) < b" shows "low_trust_points a \<le> low_trust_points b"
proof -
  have w: "wrap64 (70 - x) = 70 - x" if "b \<le> x" "x < 70" for x
    using that assms(3) by (intro wrap64_id) (simp add: fits64_def)
  obtain q where "f64_round (4 / 10) = Fin q" "0 < q" by (rule four_tenths)
  then show ?thesis
    using assms w [of a] w [of b] unfolding low_trust_points_def f64_of_int_def Let_def
    by (simp only:) (intro capped_mono f64_ops_mono f64_round_mono; simp)
qed

lemma signal_sum_graded:
  assumes "weights_ok w" "b \<longrightarrow> c" "b \<longrightarrow> points_ok p \<and> points_ok p' \<and> p \<le> p'"
  shows "signal_sum w (if b then [signal d k l t p] else []) \<le> signal_sum w (if c then [signal d k l t' p'] else [])"
proof (cases b)
  case True
  then obtain x x' where "p = Fin x" "p' = Fin x'" "0 \<le> x" "x \<le> x'" "x' \<le> 30"
    using assms(3) by (auto simp: points_ok_def)
  then have "weighted w (signal d k l t p) \<le> weighted w (signal d k l t' p')"
    by (intro weighted_mono [OF assms(1)]) simp_all
  then show ?thesis using True assms(2) by simp
qed simp

lemma trust_mono:
  assumes "weights_ok w" "inputs_ok j" "rel_option (\<lambda>a b. b \<le> a) (in_DeviceTrustScore i) (in_DeviceTrustScore j)"
  shows "signal_sum w (case in_DeviceTrustScore i of None \<Rightarrow> [signal DimDevice k l t (Fin 12)]
      | Some trust \<Rightarrow> if trust < 70 then [signal DimDevice k' l' (formatTrust trust) (low_trust_points trust)] else []) \<le>
    signal_sum w (case in_DeviceTrustScore j of None \<Rightarrow> [signal DimDevice k l t (Fin 12)]
      | Some trust \<Rightarrow> if trust < 70 then [signal DimDevice k' l' (formatTrust trust) (low_trust_points trust)] else [])"
proof (cases "in_DeviceTrustScore i")
  case (Some a)
  then obtain b where b: "in_DeviceTrustScore j = Some b" "b \<le> a" using assms(3) by (cases "in_DeviceTrustScore j") auto
  then have "- (2 ^ 62) < b" using assms(2) by (simp add: inputs_ok_def)
  with b Some show ?thesis
    using low_trust_points_mono [of b a] low_trust_points_ok
    by (simp only: option.case) (intro signal_sum_graded [OF assms(1)]; simp)
next
  case None
  then have "in_DeviceTrustScore j = None" using assms(3) by simp
  with None show ?thesis by simp
qed

lemma device_mono:
  assumes "weights_ok w" "inputs_ok j" "riskier i j" shows "signal_sum w (deviceSignals i) \<le> signal_sum w (deviceSignals j)"
proof -
  have eqs: "in_Now j = in_Now i" "in_DeviceEnrolledAt j = in_DeviceEnrolledAt i"
    using assms(3) by (simp_all add: riskier_def)
  have imps: "in_DeviceFirstSeenForUser i \<longrightarrow> in_DeviceFirstSeenForUser j"
      "in_DeviceKeyProtection i = ''software'' \<longrightarrow> in_DeviceKeyProtection j = ''software''"
      "rel_option (\<lambda>a b. b \<le> a) (in_DeviceTrustScore i) (in_DeviceTrustScore j)"
    using assms(3) unfolding riskier_def by blast+
  have "case in_AgentLastHeartbeat j of None \<Rightarrow> True | Some b \<Rightarrow>
      (case in_AgentLastHeartbeat i of None \<Rightarrow> False | Some a \<Rightarrow> b \<le> a)"
    using assms(3) unfolding riskier_def by blast
  note hb = silence_mono [OF this]
  show ?thesis
    unfolding deviceSignals_def signal_sum_simps eqs
    by (intro add_mono order_refl trust_mono [OF assms(1,2) imps(3)] signal_sum_if_mono impI) (use imps hb in blast)+
qed

lemma behaviour_mono:
  assumes "weights_ok w" "inputs_ok i" "inputs_ok j" "riskier i j"
  shows "signal_sum w (behaviourSignals i) \<le> signal_sum w (behaviourSignals j)"
proof (cases "in_BaselineEstablished i")
  case True
  let ?z = in_AccessVolumeZScore and ?a = in_AnomalyScore
  have b: "in_BaselineEstablished j" "\<not> in_LoginHourTypical i \<longrightarrow> \<not> in_LoginHourTypical j"
      "in_UnfamiliarApplication i \<longrightarrow> in_UnfamiliarApplication j" "Fin 3 \<le> ?z i \<longrightarrow> ?z i \<le> ?z j" "Fin (1 / 2) < ?a i \<longrightarrow> ?a i \<le> ?a j"
    using assms(4) True unfolding riskier_def by blast+
  have z: "Fin 3 \<le> ?z i \<longrightarrow> Fin 3 \<le> ?z j" using b(4) by (cases "?z i"; cases "?z j") auto
  have a: "Fin (1 / 2) < ?a i \<longrightarrow> Fin (1 / 2) < ?a j" using b(5) by (cases "?a i"; cases "?a j") auto
  have top: "\<not> Fin 1 < ?a i" "\<not> Fin 1 < ?a j" using assms(2,3) by (simp_all add: inputs_ok_def)
  have "signal_sum w (if Fin 3 \<le> ?z i then [signal DimBehaviour k l (formatZScore (?z i)) (volume_points (?z i))] else []) \<le>
      signal_sum w (if Fin 3 \<le> ?z j then [signal DimBehaviour k l (formatZScore (?z j)) (volume_points (?z j))] else [])" for k l
    using z b(4) volume_points_ok volume_points_mono by (intro signal_sum_graded [OF assms(1)]) blast+
  moreover have "signal_sum w (if Fin (1 / 2) < ?a i then [signal DimBehaviour k l t ((?a i - Fin (1 / 2)) * Fin 20)] else []) \<le>
      signal_sum w (if Fin (1 / 2) < ?a j then [signal DimBehaviour k l t ((?a j - Fin (1 / 2)) * Fin 20)] else [])" for k l t
    using a b(5) top by (intro signal_sum_graded [OF assms(1)]) (auto intro!: anomaly_points_ok f64_ops_mono)
  ultimately show ?thesis
    unfolding behaviourSignals_def using True b(1)
    by (simp only: not_True_eq_False if_False signal_sum_simps)
      (intro add_mono signal_sum_if_mono b(2,3))
qed (use assms(4) in \<open>simp add: behaviourSignals_def riskier_def\<close>)

lemma history_mono:
  assumes "weights_ok w" "riskier i j" shows "signal_sum w (historySignals i) \<le> signal_sum w (historySignals j)"
proof -
  have n: "in_RecentIncidents i \<le> in_RecentIncidents j" "in_RecentDenials i \<le> in_RecentDenials j"
    using assms(2) unfolding riskier_def by blast+
  then show ?thesis
    unfolding historySignals_def signal_sum_simps
    by (intro add_mono signal_sum_graded [OF assms(1)]) (auto intro: incident_points_ok incident_points_mono)
qed

lemma resource_mono:
  assumes "weights_ok w"
    and "sensitivity_rank (in_ResourceSensitivity i) \<le> sensitivity_rank (in_ResourceSensitivity j)"
  shows "signal_sum w (resourceSignals i) \<le> signal_sum w (resourceSignals j)"
proof -
  have "max 0 (weighted w (signal DimResource c l t (Fin 12))) \<le>
      max 0 (weighted w (signal DimResource c' l' t' (Fin 25)))" for c l t c' l' t'
    using assms(1) by (intro max.mono order_refl weighted_mono [where p = 12 and p' = 25]) simp_all
  then show ?thesis
    using assms(2)
    by (cases "in_ResourceSensitivity i"; cases "in_ResourceSensitivity j")
      (simp_all add: resourceSignals_def)
qed

lemma signal_sum_mono:
  assumes "weights_ok w" "inputs_ok i" "inputs_ok j" "riskier i j"
  shows "signal_sum w (all_signals i) \<le> signal_sum w (all_signals j)"
  unfolding all_signals_def signal_sum_simps
proof (intro add_mono device_mono behaviour_mono history_mono resource_mono assms)
  show "signal_sum w (identitySignals i) \<le> signal_sum w (identitySignals j)"
    using assms(4) unfolding identitySignals_def signal_sum_simps riskier_def
    by (intro add_mono signal_sum_if_mono) auto
  show "signal_sum w (networkSignals i) \<le> signal_sum w (networkSignals j)"
    using assms(4) by (auto simp: networkSignals_def riskier_def)
  show "sensitivity_rank (in_ResourceSensitivity i) \<le> sensitivity_rank (in_ResourceSensitivity j)"
    using assms(4) unfolding riskier_def by blast
qed

subsection \<open>Properties\<close>

text \<open>An ordinary session of an established user, and one on which everything fires.\<close>

definition quiet_inputs :: Inputs where
  "quiet_inputs = \<lparr>in_SessionID = 1, in_UserID = 2, in_DeviceID = 3, in_Now = 30 * day,
     in_FirstEverSession = False, in_SessionAttested = True, in_DeviceTrustScore = Some 95,
     in_DeviceKeyProtection = ''tpm'', in_DeviceFirstSeenForUser = False,
     in_DeviceEnrolledAt = Some 0, in_AgentLastHeartbeat = Some (30 * day - minute),
     in_LoginHourTypical = True, in_BaselineEstablished = True, in_AccessVolumeZScore = Fin 0,
     in_UnfamiliarApplication = False, in_AnomalyScore = Fin 0, in_NetworkFamiliar = True,
     in_NetworkKnown = True, in_ResourceSensitivity = SensitivityInternal,
     in_RecentIncidents = 0, in_RecentDenials = 0\<rparr>"

definition alarming_inputs :: Inputs where
  "alarming_inputs = quiet_inputs\<lparr>in_SessionAttested := False,
     in_DeviceFirstSeenForUser := True, in_DeviceTrustScore := None,
     in_DeviceKeyProtection := ''software'', in_AgentLastHeartbeat := None,
     in_UnfamiliarApplication := True, in_AnomalyScore := Fin 1, in_NetworkKnown := False,
     in_ResourceSensitivity := SensitivityCritical, in_RecentDenials := 5\<rparr>"

definition printed_small :: "Inputs \<Rightarrow> bool" where
  "printed_small i \<longleftrightarrow>
     (\<forall>trust. in_DeviceTrustScore i = Some trust \<longrightarrow> \<bar>trust\<bar> < 10 ^ 11) \<and>
     (Fin 3 \<le> in_AccessVolumeZScore i \<longrightarrow> in_AccessVolumeZScore i < Fin (10 ^ 11))"

lemma Evaluate_total: "printed_small i \<Longrightarrow> \<exists>a. Evaluate e i = Some a"
  using printable_small [of i] by (simp add: Evaluate_eq printed_small_def)

lemma weights_ok_Default [simp]: "weights_ok DefaultWeights"
  by (simp add: weights_ok_def weight_entries_def DefaultWeights_def weight_ok_def)

text \<open>
  C1: an evaluation reconciles.  With weights that pass validation (in whatever order the runtime
  visits the map) and the documented inputs, evaluation returns an assessment whose score lies in
  0..100, whose factors sum to exactly that score, whose per-dimension totals are the sums of the
  factors of that dimension, and whose factors come most significant first; nothing overflows.
\<close>

theorem evaluate_reconciles:
  assumes "mset es = mset (weight_entries w)" "Weights_Validate es = None"
    and "inputs_ok i" "printed_small i"
  shows "\<exists>a. Evaluate (NewEngine w t) i = Some a \<and> 0 \<le> ra_Score a \<and> ra_Score a \<le> 100 \<and>
      (\<Sum>f\<leftarrow>ra_Factors a. rf_Contribution f) = ra_Score a \<and>
      (\<forall>d. (case ra_Dimensions a d of None \<Rightarrow> 0 | Some n \<Rightarrow> n) =
           (\<Sum>f\<leftarrow>filter (\<lambda>f. rf_Dimension f = d) (ra_Factors a). rf_Contribution f)) \<and>
      sorted_wrt (\<lambda>f g. \<not> factor_less g f) (ra_Factors a)"
proof -
  obtain a where a: "Evaluate (NewEngine w t) i = Some a" using Evaluate_total [OF assms(4)] by blast
  have w: "weights_ok (e_weights (NewEngine w t))"
    using assms(2) Weights_Validate_weights_ok [OF assms(1)] by (simp add: NewEngine_def)
  note spec = Evaluate_spec [OF w assms(3) a]
  have "0 \<le> ra_Score a" "ra_Score a \<le> 100"
    using spec(1) signal_sum_nonneg by simp_all
  then show ?thesis
    using a spec(2,5)
    by (auto simp: reconciles_def contributions_def dim_value_def dim_total_def)
qed

theorem evaluate_reconciles_witness:
  "\<exists>a. Evaluate (NewEngine DefaultWeights DefaultThresholds) quiet_inputs = Some a \<and>
     (\<Sum>f\<leftarrow>ra_Factors a. rf_Contribution f) = ra_Score a \<and> ra_Score a \<le> 100"
proof -
  have "Weights_Validate (weight_entries DefaultWeights) = None"
    by (simp add: weight_entries_def DefaultWeights_def)
  moreover have "inputs_ok quiet_inputs" "printed_small quiet_inputs"
    by (simp_all add: inputs_ok_def printed_small_def quiet_inputs_def)
  ultimately show ?thesis
    using evaluate_reconciles [OF refl, of DefaultWeights quiet_inputs DefaultThresholds] by blast
qed

text \<open>
  C35: more alarming evidence never lowers the score, rounding and clamping included.  If of two
  sessions at the same moment the second is at least as alarming in every signal that can be compared
  (the boolean ones, silence of the agent, trust and volume and anomaly scores, the sensitivity reached,
  incidents and denials) and agrees in the rest (when the device was enrolled, whether trust, baseline and
  network are known), with validated weights, an anomaly score of at most one and a trust score above
  minus ten to the eleventh, the score of the second is at least that of the first.
\<close>

theorem evaluate_monotone:
  assumes "weights_ok w" "inputs_ok i" "inputs_ok j" "riskier i j"
    and "Evaluate (NewEngine w t) i = Some a" "Evaluate (NewEngine w t) j = Some b"
  shows "ra_Score a \<le> ra_Score b"
  using signal_sum_mono [OF assms(1-4)] Evaluate_spec(1) [of "NewEngine w t", OF _ assms(2,5)]
    Evaluate_spec(1) [of "NewEngine w t", OF _ assms(3,6)] assms(1)
  by (simp add: NewEngine_def)

text \<open>A user with an incident reaches a sensitive resource; with one more, and refused attempts, a critical one.\<close>

definition shaky_inputs :: "Sensitivity \<Rightarrow> int \<Rightarrow> int \<Rightarrow> Inputs" where
  "shaky_inputs sensitivity incidents denials =
     quiet_inputs\<lparr>in_ResourceSensitivity := sensitivity, in_RecentIncidents := incidents, in_RecentDenials := denials\<rparr>"

lemma half_floor: "\<lfloor>(numeral n :: rat) / 2\<rfloor> = numeral n div 2"
  using floor_divide_of_int_eq [of "numeral n" 2] by simp

lemma shaky_sums:
  "signal_sum DefaultWeights (all_signals (shaky_inputs SensitivitySensitive 1 0)) = 18"
  "signal_sum DefaultWeights (all_signals (shaky_inputs SensitivityCritical 2 3)) = 45"
  by (simp_all add: shaky_inputs_def quiet_inputs_def all_signals_def identitySignals_def deviceSignals_def behaviourSignals_def
      networkSignals_def resourceSignals_def historySignals_def time_Sub_def min_duration_def max_duration_def day_def hour_def minute_def
      incident_points_def f64_of_int_def weighted_def DefaultWeights_def f64_to_int_def fits64_def Let_def half_floor)

theorem evaluate_monotone_witness:
  "\<exists>a b. Evaluate (NewEngine DefaultWeights DefaultThresholds) (shaky_inputs SensitivitySensitive 1 0) = Some a \<and>
     Evaluate (NewEngine DefaultWeights DefaultThresholds) (shaky_inputs SensitivityCritical 2 3) = Some b \<and>
     ra_Score a = 18 \<and> ra_Score b = 45 \<and> ra_Score a \<le> ra_Score b"
proof -
  let ?e = "NewEngine DefaultWeights DefaultThresholds"
    and ?i = "shaky_inputs SensitivitySensitive 1 0" and ?j = "shaky_inputs SensitivityCritical 2 3"
  have ok: "inputs_ok ?i" "inputs_ok ?j" and "printed_small ?i" "printed_small ?j" and r: "riskier ?i ?j"
    by (simp_all add: inputs_ok_def printed_small_def riskier_def shaky_inputs_def quiet_inputs_def)
  then obtain a b where ab: "Evaluate ?e ?i = Some a" "Evaluate ?e ?j = Some b" using Evaluate_total by metis
  have "ra_Score a = 18" "ra_Score b = 45"
    using Evaluate_spec(1) [of ?e, OF _ ok(1) ab(1)] Evaluate_spec(1) [of ?e, OF _ ok(2) ab(2)] shaky_sums
    by (simp_all add: NewEngine_def)
  then show ?thesis using ab evaluate_monotone [OF weights_ok_Default ok r ab] by blast
qed

fun level_rank :: "Level \<Rightarrow> nat" where
  "level_rank LevelLow = 0"
| "level_rank LevelMedium = 1"
| "level_rank LevelElevated = 2"
| "level_rank LevelHigh = 3"
| "level_rank LevelCritical = 4"
| "level_rank (LevelOther s) = 5"

text \<open>
  Validated thresholds cut the whole range into five bands.  A higher score never falls into a
  lower band, and each of the five levels is the level of some score between 0 and 100.
\<close>

theorem thresholds_bands:
  assumes "Thresholds_Validate t = None"
  shows "(\<forall>s s'. s \<le> s' \<longrightarrow> level_rank (Thresholds_Level t s) \<le> level_rank (Thresholds_Level t s')) \<and>
     Thresholds_Level t ` {0..100} = {LevelLow, LevelMedium, LevelElevated, LevelHigh, LevelCritical}"
proof -
  have o: "0 < T_Low t" "T_Low t < T_Medium t" "T_Medium t < T_Elevated t"
      "T_Elevated t < T_High t" "T_High t < 100"
    using assms by (simp_all add: Thresholds_Validate_def split: if_splits)
  have band: "Thresholds_Level t s \<in> Thresholds_Level t ` {0..100}" if "0 \<le> s" "s \<le> 100" for s
    using that by simp
  have "{LevelLow, LevelMedium, LevelElevated, LevelHigh, LevelCritical} \<subseteq> Thresholds_Level t ` {0..100}"
    using band [of 0] band [of "T_Medium t"] band [of "T_Elevated t"] band [of "T_High t"] band [of 100] o
    by (simp add: Thresholds_Level_def)
  moreover have "Thresholds_Level t s \<in> {LevelLow, LevelMedium, LevelElevated, LevelHigh, LevelCritical}" for s
    by (simp add: Thresholds_Level_def)
  ultimately show ?thesis using o by (auto simp: Thresholds_Level_def)
qed

theorem thresholds_bands_witness:
  "level_rank (Thresholds_Level DefaultThresholds 50) \<le> level_rank (Thresholds_Level DefaultThresholds 51)"
proof -
  have "Thresholds_Validate DefaultThresholds = None"
    by (simp add: Thresholds_Validate_def DefaultThresholds_def)
  from thresholds_bands [OF this] show ?thesis by simp
qed

text \<open>
  The hand-written integer formatter is right exactly on the numbers its twelve-byte buffer can
  hold; outside of them it panics or, at the least 64-bit integer, prints a bare sign.
\<close>

theorem itoa_correct_iff:
  assumes "fits64 v"
  shows "itoa v = Some (show_int v) \<longleftrightarrow> - (10 ^ 11) < v \<and> v < 10 ^ 12"
proof -
  consider "\<bar>v\<bar> < 10 ^ 11" | "10 ^ 11 \<le> v" "v < 10 ^ 12" | "10 ^ 12 \<le> v"
    | "v \<le> - (10 ^ 11)" "v \<noteq> - (2 ^ 63)" | "v = - (2 ^ 63)" by linarith
  then show ?thesis
  proof cases
    case 1
    then show ?thesis using itoa_show_int [OF 1] by auto
  next
    case 2
    then obtain j where "itoa_loop 12 v [] = Some (j, show_nat (nat v))"
      using itoa_loop_digits [of v 12 "[]"] by auto
    with 2 show ?thesis by (simp add: itoa_def show_int_def)
  next
    case 3
    then show ?thesis using itoa_panics [OF 3] by simp
  next
    case 4
    have w: "wrap64 (- v) = - v"
      using assms 4 by (intro wrap64_id) (simp add: fits64_def)
    show ?thesis using 4 w itoa_negative_panics [of v] by simp
  next
    case 5
    then have "itoa v = Some ''-''" by (simp add: itoa_def wrap64_def itoa_loop.simps)
    then show ?thesis using 5 by (simp add: show_int_def show_nat_nonempty [symmetric])
  qed
qed

theorem itoa_correct_iff_witness: "itoa 73 = Some (show_int 73)"
  using itoa_correct_iff [of 73] by (simp add: fits64_def)

definition alarming_factors :: "Factor list" where
  "alarming_factors = factors_of DefaultWeights (all_signals alarming_inputs)"

lemma alarming_factors_shape:
  "map (\<lambda>f. (rf_Code f, rf_Contribution f)) alarming_factors =
     [(''UNATTESTED_SESSION'', 30), (''NEW_DEVICE'', 20), (''NO_POSTURE'', 12), (''SOFTWARE_KEY'', 3),
      (''AGENT_SILENT'', 15), (''UNFAMILIAR_APPLICATION'', 6), (''BEHAVIOUR_ANOMALY'', 10),
      (''UNKNOWN_NETWORK'', 4), (''CRITICAL_RESOURCE'', 25), (''REPEATED_DENIALS'', 8)]"
  by (simp add: alarming_inputs_def quiet_inputs_def all_signals_def identitySignals_def
      deviceSignals_def behaviourSignals_def networkSignals_def resourceSignals_def
      historySignals_def time_Sub_def min_duration_def max_duration_def day_def hour_def
      alarming_factors_def factors_of_def factor_of_def weighted_def DefaultWeights_def
      f64_to_int_def fits64_def) (simp add: floor_eq_iff)

lemma alarming_printable: "printable alarming_inputs"
  by (rule printable_small) (simp_all add: alarming_inputs_def quiet_inputs_def)

text \<open>
  How an excess is absorbed.  The score of the alarming session is clamped at 100 by taking the
  whole excess off the single most significant factor, which leaves that factor with a negative
  contribution and, after the final sort, in the last place of the explanation.
\<close>

theorem clamp_makes_largest_factor_negative:
  "\<exists>a. Evaluate (NewEngine DefaultWeights DefaultThresholds) alarming_inputs = Some a \<and>
     ra_Score a = 100 \<and> rf_Code (last (ra_Factors a)) = ''UNATTESTED_SESSION'' \<and>
     rf_Contribution (last (ra_Factors a)) < 0"
proof -
  obtain f1 f2 f3 f4 f5 f6 f7 f8 f9 f10 where fs: "alarming_factors = [f1, f2, f3, f4, f5, f6, f7, f8, f9, f10]"
    and c: "rf_Contribution f1 = 30" "rf_Contribution f2 = 20" "rf_Contribution f3 = 12"
      "rf_Contribution f4 = 3" "rf_Contribution f5 = 15" "rf_Contribution f6 = 6"
      "rf_Contribution f7 = 10" "rf_Contribution f8 = 4" "rf_Contribution f9 = 25"
      "rf_Contribution f10 = 8" and code: "rf_Code f1 = ''UNATTESTED_SESSION''"
    using alarming_factors_shape by (auto simp: map_eq_Cons_conv)
  obtain ds where t: "tally alarming_factors = (133, ds)"
    by (simp add: fs tally_def c wrap64_def)
  have s: "sortFactors alarming_factors = [f1, f9, f2, f5, f3, f7, f10, f6, f8, f4]"
    by (simp add: fs sortFactors_def factor_less_def c)
  have "let a = conclude (NewEngine DefaultWeights DefaultThresholds) alarming_inputs alarming_factors
    in ra_Score a = 100 \<and> rf_Code (last (ra_Factors a)) = ''UNATTESTED_SESSION'' \<and>
       rf_Contribution (last (ra_Factors a)) < 0"
    by (simp add: conclude_def t s Let_def) (simp add: sortFactors_def factor_less_def c code wrap64_def)
  then show ?thesis
    by (simp add: Evaluate_eq alarming_printable alarming_factors_def NewEngine_def Let_def)
qed

end
