(* ===== verification/Posture.thy ===== *)
theory Posture
  imports Slices
begin

section \<open>Posture: from endpoint signals to a device trust score\<close>

text \<open>
  Package \<^verbatim>\<open>internal/posture\<close>: \<^verbatim>\<open>signals.go\<close> (what an agent reports), \<^verbatim>\<open>score.go\<close> (what the backend
  makes of it) and \<^verbatim>\<open>store.go\<close> (the append-only history).  A reported boolean is an option, because
  a control that was not reported is neither enabled nor disabled.  Collection errors are an
  association list.  A stored row keeps the decoded signals and factors; that a JSON column cannot
  be written or read back is a fault of that statement.
\<close>

subsection \<open>signals.go\<close>

record Signals =
  DiskEncryption :: "bool option"
  SecureBoot :: "bool option"
  Firewall :: "bool option"
  ScreenLock :: "bool option"
  AntiMalware :: "bool option"
  OSName :: string
  OSVersion :: string
  CollectionErrors :: "(string \<times> string) list"

datatype posture_error =
  ErrOSTooLong | ErrTooManyCollectionErrors | ErrCollectionErrorTooLong
| ErrNegativeWeight string | ErrWeightTotal int
| ErrNoPosture | ErrPostureDB string

fun collection_entries_ok :: "(string \<times> string) list \<Rightarrow> posture_error option" where
  "collection_entries_ok [] = None"
| "collection_entries_ok ((key, v) # es) =
     (if length key > 64 \<or> length v > 256 then Some ErrCollectionErrorTooLong
      else collection_entries_ok es)"

definition Signals_Validate :: "Signals \<Rightarrow> posture_error option" where
  "Signals_Validate s =
     (if length (OSName s) > 64 \<or> length (OSVersion s) > 64 then Some ErrOSTooLong
      else if length (CollectionErrors s) > 32 then Some ErrTooManyCollectionErrors
      else collection_entries_ok (CollectionErrors s))"

record DeviceContext =
  dc_Active :: bool
  dc_KeyProtection :: string
  dc_AgentVersion :: string
  dc_ExpectedAgent :: string
  dc_LastHeartbeatAt :: "time option"
  dc_Now :: time

datatype Source = SourceVerified | SourceReported

record posture_Factor =
  pf_Code :: string
  pf_Label :: string
  pf_Contribution :: int
  pf_Maximum :: int
  pf_Source :: Source
  pf_Detail :: string

definition Satisfied :: "posture_Factor \<Rightarrow> bool" where
  "Satisfied f \<longleftrightarrow> pf_Contribution f = pf_Maximum f \<and> pf_Maximum f > 0"

record posture_Assessment =
  pa_Score :: int
  pa_Factors :: "posture_Factor list"
  pa_ModelVersion :: string
  pa_Verified :: bool

definition shortfall :: "posture_Factor \<Rightarrow> int" where
  "shortfall f = wrap64 (pf_Maximum f - pf_Contribution f)"

text \<open>The inner loop of the ranking swaps the element at \<open>j\<close> towards the front.\<close>

fun sift :: "nat \<Rightarrow> posture_Factor list \<Rightarrow> posture_Factor list" where
  "sift 0 fs = fs"
| "sift (Suc j) fs =
     (if shortfall (fs ! Suc j) > shortfall (fs ! j)
      then sift j (fs[Suc j := fs ! j, j := fs ! Suc j])
      else fs)"

definition rank_factors :: "posture_Factor list \<Rightarrow> posture_Factor list" where
  "rank_factors fs = foldl (\<lambda>gs i. sift i gs) fs [1..<length fs]"

definition Weakest :: "posture_Assessment \<Rightarrow> int \<Rightarrow> posture_Factor list" where
  "Weakest a limit =
     (let ranked = rank_factors (filter (\<lambda>f. shortfall f > 0) (pa_Factors a))
      in if limit > 0 \<and> int (length ranked) > limit then take (nat limit) ranked else ranked)"

fun tristate :: "bool option \<Rightarrow> string \<Rightarrow> string \<Rightarrow> bool \<times> string" where
  "tristate None whenTrue whenFalse = (False, ''not reported by the agent'')"
| "tristate (Some True) whenTrue whenFalse = (True, whenTrue)"
| "tristate (Some False) whenTrue whenFalse = (False, whenFalse)"

definition posture_normalize :: "string \<Rightarrow> string" where
  "posture_normalize s = ToLower (TrimSpace s)"

subsection \<open>score.go: weights\<close>

definition posture_ModelVersion :: string where "posture_ModelVersion = ''posture-v1''"
definition AgentStaleAfter :: duration where "AgentStaleAfter = 15 * minute"

record posture_Weights =
  pw_DeviceIdentity :: int
  pw_AgentHealth :: int
  pw_DiskEncryption :: int
  pw_SecureBoot :: int
  pw_OSSupported :: int
  pw_Firewall :: int
  pw_ScreenLock :: int
  pw_AntiMalware :: int

definition posture_DefaultWeights :: posture_Weights where
  "posture_DefaultWeights = \<lparr>pw_DeviceIdentity = 20, pw_AgentHealth = 15, pw_DiskEncryption = 20,
     pw_SecureBoot = 15, pw_OSSupported = 10, pw_Firewall = 10, pw_ScreenLock = 5,
     pw_AntiMalware = 5\<rparr>"

definition Total :: "posture_Weights \<Rightarrow> int" where
  "Total w = wrap64 (pw_DeviceIdentity w + pw_AgentHealth w + pw_DiskEncryption w +
     pw_SecureBoot w + pw_OSSupported w + pw_Firewall w + pw_ScreenLock w + pw_AntiMalware w)"

definition posture_weight_entries :: "posture_Weights \<Rightarrow> (string \<times> int) list" where
  "posture_weight_entries w =
     [(''device identity'', pw_DeviceIdentity w), (''agent health'', pw_AgentHealth w),
      (''disk encryption'', pw_DiskEncryption w), (''secure boot'', pw_SecureBoot w),
      (''os supported'', pw_OSSupported w), (''firewall'', pw_Firewall w),
      (''screen lock'', pw_ScreenLock w), (''anti-malware'', pw_AntiMalware w)]"

fun first_negative :: "(string \<times> int) list \<Rightarrow> posture_error option" where
  "first_negative [] = None"
| "first_negative ((name, v) # es) = (if v < 0 then Some (ErrNegativeWeight name) else first_negative es)"

text \<open>\<open>es\<close> holds the entries of the validation's map in the order the runtime visits them.\<close>

definition posture_Weights_Validate :: "(string \<times> int) list \<Rightarrow> posture_Weights \<Rightarrow> posture_error option" where
  "posture_Weights_Validate es w =
     (case first_negative es of
        Some e \<Rightarrow> Some e
      | None \<Rightarrow> if Total w \<noteq> 100 then Some (ErrWeightTotal (Total w)) else None)"

subsection \<open>score.go: version comparison\<close>

fun splitVersion_loop :: "string \<Rightarrow> int list \<Rightarrow> int \<Rightarrow> bool \<Rightarrow> int list \<times> int \<times> bool" where
  "splitVersion_loop [] parts current digits = (parts, current, digits)"
| "splitVersion_loop (r # rs) parts current digits =
     (if is_digit r
      then splitVersion_loop rs parts (wrap64 (current * 10 + (int (of_char r) - 48))) True
      else if r = CHR ''.''
      then splitVersion_loop rs (parts @ [current]) 0 False
      else splitVersion_loop rs parts current digits)"

definition splitVersion :: "string \<Rightarrow> int list" where
  "splitVersion v =
     (let (parts, current, digits) = splitVersion_loop v [] 0 False
      in if digits \<or> parts = [] then parts @ [current] else parts)"

fun compare_parts :: "int list \<Rightarrow> int list \<Rightarrow> int" where
  "compare_parts [] [] = 0"
| "compare_parts (x # xs) [] = (if x \<noteq> 0 then (if x < 0 then -1 else 1) else compare_parts xs [])"
| "compare_parts [] (y # ys) = (if 0 \<noteq> y then (if 0 < y then -1 else 1) else compare_parts [] ys)"
| "compare_parts (x # xs) (y # ys) =
     (if x \<noteq> y then (if x < y then -1 else 1) else compare_parts xs ys)"

definition compareVersions :: "string \<Rightarrow> string \<Rightarrow> int" where
  "compareVersions a b = compare_parts (splitVersion a) (splitVersion b)"

definition MinimumOSVersions :: "string \<rightharpoonup> string" where
  "MinimumOSVersions = [''windows'' \<mapsto> ''10'', ''macos'' \<mapsto> ''14'']"

subsection \<open>score.go: factors\<close>

text \<open>\<^verbatim>\<open>Duration.Round(time.Minute)\<close> and \<^verbatim>\<open>Duration.String\<close> for a duration of at least a second.\<close>

definition duration_Round_minute :: "duration \<Rightarrow> duration" where
  "duration_Round_minute d =
     (let r = d mod minute
      in if 2 * r < minute then d - r
         else if d + (minute - r) \<le> max_duration then d + (minute - r) else max_duration)"

fun trim_zeros :: "nat \<Rightarrow> nat \<Rightarrow> string" where
  "trim_zeros 0 n = []"
| "trim_zeros (Suc k) n =
     (if n = 0 then [] else digit_char (n div 10 ^ k) # trim_zeros k (n mod 10 ^ k))"

definition duration_String :: "duration \<Rightarrow> string" where
  "duration_String d =
     (let secs = nat (d div second); frac = nat (d mod second);
          fractional = (if frac = 0 then [] else CHR ''.'' # trim_zeros 9 frac);
          tail = show_nat (secs mod 60) @ fractional @ ''s'';
          mins = secs div 60
      in if mins = 0 then tail
         else if mins div 60 = 0 then show_nat mins @ ''m'' @ tail
         else show_nat (mins div 60) @ ''h'' @ show_nat (mins mod 60) @ ''m'' @ tail)"

definition deviceIdentityFactor :: "DeviceContext \<Rightarrow> int \<Rightarrow> posture_Factor" where
  "deviceIdentityFactor ctx maximum =
     (let f = \<lparr>pf_Code = ''DEVICE_IDENTITY'', pf_Label = ''Device identity'', pf_Contribution = 0,
               pf_Maximum = maximum, pf_Source = SourceVerified, pf_Detail = []\<rparr>;
          prot = posture_normalize (dc_KeyProtection ctx)
      in if \<not> dc_Active ctx then f\<lparr>pf_Detail := ''the device is not active''\<rparr>
         else if prot = ''tpm'' \<or> prot = ''windows-cert-store''
         then f\<lparr>pf_Contribution := maximum, pf_Detail := ''hardware-backed key''\<rparr>
         else if prot = ''software''
         then f\<lparr>pf_Contribution := go_div (wrap64 (maximum * 3)) 5,
                pf_Detail := ''software-protected key; hardware-backed protection is stronger''\<rparr>
         else f\<lparr>pf_Detail := ''unrecognised key protection''\<rparr>)"

definition agentHealthFactor :: "DeviceContext \<Rightarrow> int \<Rightarrow> posture_Factor" where
  "agentHealthFactor ctx maximum =
     (let f = \<lparr>pf_Code = ''AGENT_HEALTH'', pf_Label = ''Agent health'', pf_Contribution = 0,
               pf_Maximum = maximum, pf_Source = SourceVerified, pf_Detail = []\<rparr>
      in case dc_LastHeartbeatAt ctx of
           None \<Rightarrow> f\<lparr>pf_Detail := ''the agent has never reported''\<rparr>
         | Some beat \<Rightarrow>
             (let since = time_Sub (dc_Now ctx) beat
              in if since > AgentStaleAfter
                 then f\<lparr>pf_Detail := ''the agent last reported '' @
                          duration_String (duration_Round_minute since) @ '' ago''\<rparr>
                 else if dc_ExpectedAgent ctx \<noteq> [] \<and> dc_AgentVersion ctx \<noteq> dc_ExpectedAgent ctx
                 then f\<lparr>pf_Contribution := go_div maximum 2,
                        pf_Detail := ''agent '' @ dc_AgentVersion ctx @ '' is behind the expected '' @
                          dc_ExpectedAgent ctx\<rparr>
                 else f\<lparr>pf_Contribution := maximum,
                        pf_Detail := ''the agent is reporting and current''\<rparr>))"

definition osSupportedFactor :: "Signals \<Rightarrow> int \<Rightarrow> posture_Factor" where
  "osSupportedFactor s maximum =
     (let f = \<lparr>pf_Code = ''OS_SUPPORTED'', pf_Label = ''Operating system currency'',
               pf_Contribution = 0, pf_Maximum = maximum, pf_Source = SourceReported,
               pf_Detail = []\<rparr>;
          unknown = f\<lparr>pf_Detail := ''operating system version could not be assessed''\<rparr>
      in case MinimumOSVersions (posture_normalize (OSName s)) of
           None \<Rightarrow> unknown
         | Some minimum \<Rightarrow>
             if OSVersion s = [] then unknown
             else if compareVersions (OSVersion s) minimum < 0
             then f\<lparr>pf_Detail := OSName s @ '' '' @ OSVersion s @
                      '' is below the supported minimum of '' @ minimum\<rparr>
             else f\<lparr>pf_Contribution := maximum,
                    pf_Detail := OSName s @ '' '' @ OSVersion s @ '' is supported''\<rparr>)"

definition reportedFactor ::
  "string \<Rightarrow> string \<Rightarrow> bool option \<Rightarrow> int \<Rightarrow> string \<Rightarrow> string \<Rightarrow> posture_Factor" where
  "reportedFactor code label v maximum whenTrue whenFalse =
     (let (satisfied, detail) = tristate v whenTrue whenFalse;
          f = \<lparr>pf_Code = code, pf_Label = label, pf_Contribution = 0, pf_Maximum = maximum,
               pf_Source = SourceReported, pf_Detail = detail\<rparr>
      in if satisfied then f\<lparr>pf_Contribution := maximum\<rparr> else f)"

definition posture_factors ::
  "Signals \<Rightarrow> DeviceContext \<Rightarrow> posture_Weights \<Rightarrow> posture_Factor list" where
  "posture_factors s ctx w =
     [deviceIdentityFactor ctx (pw_DeviceIdentity w),
      agentHealthFactor ctx (pw_AgentHealth w),
      reportedFactor ''DISK_ENCRYPTION'' ''Disk encryption'' (DiskEncryption s) (pw_DiskEncryption w)
        ''volume encryption is enabled'' ''volume encryption is disabled'',
      reportedFactor ''SECURE_BOOT'' ''Boot and system integrity'' (SecureBoot s) (pw_SecureBoot w)
        ''platform integrity protection is enabled'' ''platform integrity protection is disabled'',
      osSupportedFactor s (pw_OSSupported w),
      reportedFactor ''FIREWALL'' ''Host firewall'' (Firewall s) (pw_Firewall w)
        ''host firewall is enabled'' ''host firewall is disabled'',
      reportedFactor ''SCREEN_LOCK'' ''Screen lock'' (ScreenLock s) (pw_ScreenLock w)
        ''a password is required after sleep'' ''no password is required after sleep'',
      reportedFactor ''ANTI_MALWARE'' ''Malware protection'' (AntiMalware s) (pw_AntiMalware w)
        ''real-time protection is active'' ''real-time protection is not active'']"

definition posture_Evaluate ::
  "Signals \<Rightarrow> DeviceContext \<Rightarrow> posture_Weights \<Rightarrow> posture_Assessment" where
  "posture_Evaluate s ctx w =
     (let factors = posture_factors s ctx w;
          score = foldl (\<lambda>n f. wrap64 (n + pf_Contribution f)) 0 factors;
          score = (if score < 0 then 0 else score);
          score = (if score > 100 then 100 else score)
      in \<lparr>pa_Score = score, pa_Factors = factors, pa_ModelVersion = posture_ModelVersion,
          pa_Verified = list_all (\<lambda>f. pf_Source f = SourceVerified) factors\<rparr>)"

subsection \<open>store.go\<close>

record posture_Record =
  pr_ID :: uuid
  pr_DeviceID :: uuid
  pr_CollectedAt :: time
  pr_TrustScore :: int
  pr_Signals :: Signals
  pr_Factors :: "posture_Factor list"
  pr_Verified :: bool
  pr_ModelVersion :: string

type_synonym posture_db = "posture_Record list"

text \<open>\<open>ident\<close> and \<open>now\<close> are the identifier and the timestamp the database assigns to the row.\<close>

definition posture_Record_op ::
  "uuid \<Rightarrow> time \<Rightarrow> faults \<Rightarrow> uuid \<Rightarrow> Signals \<Rightarrow> posture_Assessment \<Rightarrow> posture_db \<Rightarrow>
   (posture_error + posture_Record) \<times> posture_db" where
  "posture_Record_op ident now fs device s a db =
     (if fault fs ''encode posture signals'' then (Inl (ErrPostureDB ''encode posture signals''), db)
      else if fault fs ''encode posture factors'' then (Inl (ErrPostureDB ''encode posture factors''), db)
      else if fault fs ''store posture'' \<or> \<not> (0 \<le> pa_Score a \<and> pa_Score a \<le> 100)
      then (Inl (ErrPostureDB ''store posture''), db)
      else
        (let row = \<lparr>pr_ID = ident, pr_DeviceID = device, pr_CollectedAt = now,
                    pr_TrustScore = pa_Score a, pr_Signals = s, pr_Factors = pa_Factors a,
                    pr_Verified = pa_Verified a, pr_ModelVersion = pa_ModelVersion a\<rparr>
         in if fault fs ''decode posture signals''
            then (Inl (ErrPostureDB ''decode posture signals''), db @ [row])
            else if fault fs ''decode posture factors''
            then (Inl (ErrPostureDB ''decode posture factors''), db @ [row])
            else (Inr row, db @ [row])))"

definition device_rows :: "uuid \<Rightarrow> posture_db \<Rightarrow> posture_db" where
  "device_rows device db = newest_first pr_CollectedAt (filter (\<lambda>r. pr_DeviceID r = device) db)"

definition posture_Latest :: "faults \<Rightarrow> uuid \<Rightarrow> posture_db \<Rightarrow> posture_error + posture_Record" where
  "posture_Latest fs device db =
     (if fault fs ''load posture'' then Inl (ErrPostureDB ''load posture'')
      else case device_rows device db of [] \<Rightarrow> Inl ErrNoPosture | r # _ \<Rightarrow> Inr r)"

definition posture_History :: "faults \<Rightarrow> uuid \<Rightarrow> int \<Rightarrow> posture_db \<Rightarrow> posture_error + posture_Record list" where
  "posture_History fs device limit db =
     (if fault fs ''query posture history'' then Inl (ErrPostureDB ''query posture history'')
      else if fault fs ''scan posture'' then Inl (ErrPostureDB ''scan posture'')
      else Inr (take (page_limit 200 50 limit) (device_rows device db)))"

definition posture_LatestScores :: "faults \<Rightarrow> posture_db \<Rightarrow> posture_error + (uuid \<rightharpoonup> int)" where
  "posture_LatestScores fs db =
     (if fault fs ''query latest posture scores'' then Inl (ErrPostureDB ''query latest posture scores'')
      else if fault fs ''scan posture score'' then Inl (ErrPostureDB ''scan posture score'')
      else Inr (\<lambda>device. case device_rows device db of [] \<Rightarrow> None | r # _ \<Rightarrow> Some (pr_TrustScore r)))"

subsection \<open>Weights that are safe to add up\<close>

lemma first_negative_None: "first_negative es = None \<longleftrightarrow> (\<forall>(name, v) \<in> set es. 0 \<le> v)"
  by (induction es rule: first_negative.induct) auto

definition posture_weights_ok :: "posture_Weights \<Rightarrow> bool" where
  "posture_weights_ok w \<longleftrightarrow>
     (\<forall>v \<in> snd ` set (posture_weight_entries w). 0 \<le> v \<and> v \<le> 100) \<and>
     (\<Sum>(name, v)\<leftarrow>posture_weight_entries w. v) = 100"

text \<open>Short of an overflow of the sum itself, validation leaves weights that sum to 100.\<close>

lemma posture_Weights_Validate_ok:
  assumes "mset es = mset (posture_weight_entries w)" "posture_Weights_Validate es w = None"
    and "\<forall>v \<in> snd ` set (posture_weight_entries w). v < 2 ^ 60"
  shows "posture_weights_ok w"
proof -
  have n: "first_negative es = None" and t: "Total w = 100"
    using assms(2) by (simp_all add: posture_Weights_Validate_def split: option.splits if_splits)
  have "\<forall>(name, v) \<in> set (posture_weight_entries w). 0 \<le> v"
    using n mset_eq_setD [OF assms(1)] by (simp add: first_negative_None)
  moreover from this have "Total w = (\<Sum>(name, v)\<leftarrow>posture_weight_entries w. v)"
    unfolding Total_def using assms(3)
    by (subst wrap64_id) (simp_all add: fits64_def posture_weight_entries_def)
  ultimately show ?thesis
    using t by (simp add: posture_weights_ok_def posture_weight_entries_def)
qed

text \<open>A factor that loses points never goes below nothing or above its maximum.\<close>

definition factor_in_range :: "posture_Factor \<Rightarrow> bool" where
  "factor_in_range f \<longleftrightarrow> 0 \<le> pf_Contribution f \<and> pf_Contribution f \<le> pf_Maximum f"

lemma deviceIdentityFactor_range:
  assumes "0 \<le> m" "m \<le> 100"
  shows "factor_in_range (deviceIdentityFactor ctx m)" "pf_Maximum (deviceIdentityFactor ctx m) = m"
proof -
  have "wrap64 (m * 3) = m * 3" using assms by (intro wrap64_id) (simp add: fits64_def)
  then show "factor_in_range (deviceIdentityFactor ctx m)"
    "pf_Maximum (deviceIdentityFactor ctx m) = m"
    using assms by (auto simp: factor_in_range_def deviceIdentityFactor_def Let_def go_div_nonneg)
qed

lemma agentHealthFactor_range:
  assumes "0 \<le> m"
  shows "factor_in_range (agentHealthFactor ctx m)" "pf_Maximum (agentHealthFactor ctx m) = m"
  using assms
  by (auto simp: factor_in_range_def agentHealthFactor_def Let_def go_div_nonneg split: option.splits)

lemma osSupportedFactor_range:
  assumes "0 \<le> m"
  shows "factor_in_range (osSupportedFactor s m)" "pf_Maximum (osSupportedFactor s m) = m"
  using assms by (auto simp: factor_in_range_def osSupportedFactor_def Let_def split: option.splits)

lemma reportedFactor_sel [simp]:
  "pf_Maximum (reportedFactor c l v m t f) = m" "pf_Source (reportedFactor c l v m t f) = SourceReported"
  "pf_Contribution (reportedFactor c l v m t f) = (if v = Some True then m else 0)"
  by (cases "(v, t, f)" rule: tristate.cases; simp add: reportedFactor_def)+

lemma osSupportedFactor_source [simp]: "pf_Source (osSupportedFactor s m) = SourceReported"
  by (auto simp: osSupportedFactor_def Let_def split: option.splits)

lemma posture_factors_range:
  assumes "posture_weights_ok w"
  shows "\<forall>f \<in> set (posture_factors s ctx w). factor_in_range f"
    and "(\<Sum>f\<leftarrow>posture_factors s ctx w. pf_Maximum f) = 100"
  using assms
  by (auto simp: posture_factors_def posture_weights_ok_def posture_weight_entries_def
      deviceIdentityFactor_range agentHealthFactor_range osSupportedFactor_range)
    (auto simp: factor_in_range_def)

lemma sum_in_range:
  "\<forall>f \<in> set fs. factor_in_range f \<Longrightarrow>
   0 \<le> (\<Sum>f\<leftarrow>fs. pf_Contribution f) \<and> (\<Sum>f\<leftarrow>fs. pf_Contribution f) \<le> (\<Sum>f\<leftarrow>fs. pf_Maximum f)"
  by (induction fs) (auto simp: factor_in_range_def)

lemma sum_eq_maxima_iff:
  "\<forall>f \<in> set fs. factor_in_range f \<Longrightarrow>
   (\<Sum>f\<leftarrow>fs. pf_Contribution f) = (\<Sum>f\<leftarrow>fs. pf_Maximum f) \<longleftrightarrow>
   (\<forall>f \<in> set fs. pf_Contribution f = pf_Maximum f)"
proof (induction fs)
  case (Cons f fs)
  then show ?case using sum_in_range [of fs] by (auto simp: factor_in_range_def)
qed simp

lemma foldl_wrap_sum:
  assumes "\<forall>f \<in> set fs. factor_in_range f" "0 \<le> n" "n + (\<Sum>f\<leftarrow>fs. pf_Maximum f) < 2 ^ 63"
  shows "foldl (\<lambda>n f. wrap64 (n + pf_Contribution f)) n fs = n + (\<Sum>f\<leftarrow>fs. pf_Contribution f)"
  using assms
proof (induction fs arbitrary: n)
  case (Cons f fs)
  have r: "factor_in_range f" "\<forall>f \<in> set fs. factor_in_range f" using Cons.prems by simp_all
  then have s: "0 \<le> (\<Sum>f\<leftarrow>fs. pf_Maximum f)" using sum_in_range [of fs] by linarith
  have "fits64 (n + pf_Contribution f)"
    using r(1) s Cons.prems(2,3) by (simp add: fits64_def factor_in_range_def)
  then show ?case
    using Cons.IH [of "n + pf_Contribution f"] r s Cons.prems
    by (simp add: wrap64_id factor_in_range_def)
qed simp

lemma posture_Evaluate_score:
  assumes "posture_weights_ok w"
  shows "pa_Score (posture_Evaluate s ctx w) = (\<Sum>f\<leftarrow>posture_factors s ctx w. pf_Contribution f)"
proof -
  note r = posture_factors_range [OF assms, of s ctx]
  show ?thesis
    using foldl_wrap_sum [OF r(1), of 0] sum_in_range [OF r(1)] r(2)
    by (simp add: posture_Evaluate_def Let_def)
qed

text \<open>Reporting a control as enabled where another report does not, all else equal.\<close>

definition reports_at_least :: "Signals \<Rightarrow> Signals \<Rightarrow> bool" where
  "reports_at_least s s' \<longleftrightarrow>
     (DiskEncryption s = Some True \<longrightarrow> DiskEncryption s' = Some True) \<and>
     (SecureBoot s = Some True \<longrightarrow> SecureBoot s' = Some True) \<and>
     (Firewall s = Some True \<longrightarrow> Firewall s' = Some True) \<and>
     (ScreenLock s = Some True \<longrightarrow> ScreenLock s' = Some True) \<and>
     (AntiMalware s = Some True \<longrightarrow> AntiMalware s' = Some True) \<and>
     OSName s' = OSName s \<and> OSVersion s' = OSVersion s"

subsection \<open>Versions\<close>

lemma compare_parts_swap: "compare_parts ys xs = - compare_parts xs ys"
  by (induction xs ys rule: compare_parts.induct) auto

lemma compare_parts_range: "compare_parts xs ys \<in> {-1, 0, 1}"
  by (induction xs ys rule: compare_parts.induct) auto

text \<open>Reading a missing component as zero.\<close>

definition hd0 :: "int list \<Rightarrow> int" where
  "hd0 xs = (case xs of [] \<Rightarrow> 0 | x # _ \<Rightarrow> x)"

lemma compare_parts_step:
  "xs \<noteq> [] \<or> ys \<noteq> [] \<Longrightarrow>
   compare_parts xs ys =
     (if hd0 xs < hd0 ys then -1 else if hd0 ys < hd0 xs then 1 else compare_parts (tl xs) (tl ys))"
  by (cases xs; cases ys) (auto simp: hd0_def)

lemma compare_parts_trans:
  "compare_parts xs ys \<le> 0 \<Longrightarrow> compare_parts ys zs \<le> 0 \<Longrightarrow> compare_parts xs zs \<le> 0"
proof (induction "length xs + length ys + length zs" arbitrary: xs ys zs rule: less_induct)
  case less
  show ?case
  proof (cases "xs = [] \<and> ys = [] \<or> ys = [] \<and> zs = [] \<or> xs = [] \<and> zs = []")
    case True
    then show ?thesis using less.prems by auto
  next
    case False
    then have "xs \<noteq> [] \<or> ys \<noteq> []" "ys \<noteq> [] \<or> zs \<noteq> []" "xs \<noteq> [] \<or> zs \<noteq> []" by auto
    note steps = this [THEN compare_parts_step]
    have "length (tl xs) + length (tl ys) + length (tl zs) < length xs + length ys + length zs"
      using False by (cases xs; cases ys; cases zs) auto
    from less.hyps [OF this] show ?thesis
      using less.prems unfolding steps by (auto split: if_splits)
  qed
qed

lemma splitVersion_loop_digits:
  assumes "\<forall>c \<in> set s. is_digit c" "int (foldl (\<lambda>n c. 10 * n + (of_char c - 48)) n s) < 2 ^ 63"
  shows "splitVersion_loop (s @ rest) parts (int n) d =
    splitVersion_loop rest parts (int (foldl (\<lambda>n c. 10 * n + (of_char c - 48)) n s)) (d \<or> s \<noteq> [])"
  using assms
proof (induction s arbitrary: n d)
  case Nil
  then show ?case by simp
next
  case (Cons c s)
  let ?f = "\<lambda>n c. 10 * n + (of_char c - 48 :: nat)"
  have ge: "m \<le> foldl ?f m s" for m :: nat
  proof (induction s arbitrary: m)
    case (Cons a s)
    then show ?case using le_trans [of m "?f m a"] by fastforce
  qed simp
  have c: "is_digit c" using Cons.prems by simp
  then have step: "int n * 10 + (int (of_char c) - 48) = int (?f n c)"
    by (simp add: is_digit_def of_nat_diff)
  have "int (?f n c) \<le> int (foldl ?f (?f n c) s)" using ge of_nat_le_iff by blast
  also have "\<dots> < 2 ^ 63" using Cons.prems(2) by simp
  finally have w: "wrap64 (int (?f n c)) = int (?f n c)"
    by (intro wrap64_id) (simp add: fits64_def)
  have "splitVersion_loop (c # s @ rest) parts (int n) d =
      splitVersion_loop (s @ rest) parts (int (?f n c)) True"
    unfolding splitVersion_loop.simps(2) step w using c by simp
  then show ?case
    using Cons.IH [of "?f n c" True] Cons.prems by (simp del: splitVersion_loop.simps)
qed

lemma splitVersion_loop_show:
  assumes "0 \<le> v" "v < 2 ^ 63"
  shows "splitVersion_loop (show_int v @ rest) parts 0 False = splitVersion_loop rest parts v True"
proof -
  have "foldl (\<lambda>n c. 10 * n + (of_char c - 48)) 0 (show_nat (nat v)) = nat v"
    using nat_of_digits_show_nat [of "nat v"] by (simp add: nat_of_digits.simps)
  then show ?thesis
    using splitVersion_loop_digits [of "show_nat (nat v)" 0 rest parts False] assms show_nat_digits [of "nat v"]
    by (simp add: show_int_def)
qed

lemma splitVersion_loop_Join:
  "vs \<noteq> [] \<Longrightarrow> \<forall>v \<in> set vs. 0 \<le> v \<and> v < 2 ^ 63 \<Longrightarrow>
   splitVersion_loop (Join (map show_int vs) ''.'') parts 0 False = (parts @ butlast vs, last vs, True)"
proof (induction vs arbitrary: parts)
  case (Cons v vs)
  have v: "0 \<le> v" "v < 2 ^ 63" using Cons.prems by simp_all
  show ?case
  proof (cases vs)
    case Nil
    then show ?thesis using splitVersion_loop_show [OF v, of "[]"] by simp
  next
    case (Cons u us)
    then have "Join (map show_int (v # vs)) ''.'' = show_int v @ ''.'' @ Join (map show_int vs) ''.''" by simp
    then show ?thesis
      using splitVersion_loop_show [OF v] Cons.IH [of "parts @ [v]"] Cons.prems Cons
      by (simp add: is_digit_def)
  qed
qed simp

lemma splitVersion_Join:
  "vs \<noteq> [] \<Longrightarrow> \<forall>v \<in> set vs. 0 \<le> v \<and> v < 2 ^ 63 \<Longrightarrow> splitVersion (Join (map show_int vs) ''.'') = vs"
  by (simp add: splitVersion_def splitVersion_loop_Join)

subsection \<open>Ranking\<close>

abbreviation worst_first :: "posture_Factor list \<Rightarrow> bool" where
  "worst_first fs \<equiv> sorted_wrt (\<lambda>f g. shortfall g \<le> shortfall f) fs"

lemma sift_spec:
  "worst_first p \<Longrightarrow>
   \<exists>q. sift (length p) (p @ x # r) = q @ r \<and> mset q = mset (p @ [x]) \<and> worst_first q \<and>
     (\<forall>v. filter (\<lambda>f. shortfall f = v) q = filter (\<lambda>f. shortfall f = v) (p @ [x]))"
proof (induction p arbitrary: r rule: rev_induct)
  case Nil
  show ?case by (rule exI [of _ "[x]"]) simp
next
  case (snoc y p)
  have p: "worst_first p" "\<forall>f \<in> set p. shortfall y \<le> shortfall f"
    using snoc.prems by (auto simp: sorted_wrt_append)
  show ?case
  proof (cases "shortfall x > shortfall y")
    case True
    have swap: "(p @ y # x # r)[Suc (length p) := y, length p := x] = p @ x # y # r"
      by (simp add: list_update_append)
    obtain q where q: "sift (length p) (p @ x # y # r) = q @ y # r" "mset q = mset (p @ [x])"
        "worst_first q" "\<forall>v. filter (\<lambda>f. shortfall f = v) q = filter (\<lambda>f. shortfall f = v) (p @ [x])"
      using snoc.IH [OF p(1), of "y # r"] by auto
    have "set q = set (p @ [x])" using q(2) by (metis set_mset_mset)
    then have "worst_first (q @ [y])" using q(3) p(2) True by (auto simp: sorted_wrt_append)
    then show ?thesis
      using q True swap by (intro exI [of _ "q @ [y]"]) (simp add: nth_append)
  next
    case False
    then have "worst_first (p @ [y, x])" using p by (auto simp: sorted_wrt_append)
    with False show ?thesis
      by (intro exI [of _ "p @ [y, x]"]) (simp add: nth_append)
  qed
qed

lemma rank_prefix:
  "0 < k \<Longrightarrow> k \<le> length fs \<Longrightarrow>
   \<exists>q. foldl (\<lambda>gs i. sift i gs) fs [1..<k] = q @ drop k fs \<and> mset q = mset (take k fs) \<and>
     worst_first q \<and>
     (\<forall>v. filter (\<lambda>f. shortfall f = v) q = filter (\<lambda>f. shortfall f = v) (take k fs))"
proof (induction k)
  case (Suc k)
  show ?case
  proof (cases "k = 0")
    case True
    then obtain f gs where "fs = f # gs" using Suc.prems by (cases fs) auto
    then show ?thesis using True by (intro exI [of _ "[f]"]) simp
  next
    case False
    then obtain q where q: "foldl (\<lambda>gs i. sift i gs) fs [1..<k] = q @ drop k fs"
        "mset q = mset (take k fs)" "worst_first q"
        "\<forall>v. filter (\<lambda>f. shortfall f = v) q = filter (\<lambda>f. shortfall f = v) (take k fs)"
      using Suc by auto
    have k: "k < length fs" using Suc.prems by simp
    have "length q = k" using q(2) k by (metis length_take min_absorb2 less_imp_le size_mset)
    with sift_spec [OF q(3), of "fs ! k" "drop (Suc k) fs"] q False k show ?thesis
      by (auto simp: take_Suc_conv_app_nth Cons_nth_drop_Suc)
  qed
qed simp

lemma rank_factors_spec:
  "mset (rank_factors fs) = mset fs" "worst_first (rank_factors fs)"
  "filter (\<lambda>f. shortfall f = v) (rank_factors fs) = filter (\<lambda>f. shortfall f = v) fs"
proof -
  have "mset (rank_factors fs) = mset fs \<and> worst_first (rank_factors fs) \<and>
      (\<forall>v. filter (\<lambda>f. shortfall f = v) (rank_factors fs) = filter (\<lambda>f. shortfall f = v) fs)"
    using rank_prefix [of "length fs" fs] by (cases "fs = []") (auto simp: rank_factors_def)
  then show "mset (rank_factors fs) = mset fs" "worst_first (rank_factors fs)"
    "filter (\<lambda>f. shortfall f = v) (rank_factors fs) = filter (\<lambda>f. shortfall f = v) fs"
    by auto
qed

subsection \<open>Properties\<close>

definition healthy_signals :: Signals where
  "healthy_signals = \<lparr>DiskEncryption = Some True, SecureBoot = Some True, Firewall = Some True,
     ScreenLock = Some True, AntiMalware = None, OSName = ''Windows'', OSVersion = ''11'',
     CollectionErrors = []\<rparr>"

definition healthy_context :: DeviceContext where
  "healthy_context = \<lparr>dc_Active = True, dc_KeyProtection = ''tpm'', dc_AgentVersion = ''1.0'',
     dc_ExpectedAgent = ''1.0'', dc_LastHeartbeatAt = Some 0, dc_Now = minute\<rparr>"

lemma posture_DefaultWeights_ok:
  "posture_Weights_Validate (posture_weight_entries posture_DefaultWeights) posture_DefaultWeights = None"
  "posture_weights_ok posture_DefaultWeights"
  "\<forall>v \<in> snd ` set (posture_weight_entries posture_DefaultWeights). v < 2 ^ 60"
  by (simp_all add: posture_Weights_Validate_def posture_weight_entries_def Total_def wrap64_def
      posture_DefaultWeights_def posture_weights_ok_def)

text \<open>
  A posture assessment reconciles.  With validated weights that cannot overflow, the score is
  exactly the sum of the factors' contributions, each factor stays between nothing and its maximum,
  the maxima sum to 100, a perfect score means that every control was fully awarded, and an
  assessment that rests on reported signals is never marked verified.
\<close>

theorem posture_reconciles:
  assumes "mset es = mset (posture_weight_entries w)" "posture_Weights_Validate es w = None"
    and "\<forall>v \<in> snd ` set (posture_weight_entries w). v < 2 ^ 60"
  shows "let a = posture_Evaluate s ctx w in
    pa_Score a = (\<Sum>f\<leftarrow>pa_Factors a. pf_Contribution f) \<and> 0 \<le> pa_Score a \<and> pa_Score a \<le> 100 \<and>
    (\<forall>f \<in> set (pa_Factors a). 0 \<le> pf_Contribution f \<and> pf_Contribution f \<le> pf_Maximum f) \<and>
    (\<Sum>f\<leftarrow>pa_Factors a. pf_Maximum f) = 100 \<and>
    (pa_Score a = 100 \<longleftrightarrow> (\<forall>f \<in> set (pa_Factors a). pf_Contribution f = pf_Maximum f)) \<and>
    \<not> pa_Verified a"
proof -
  have ok: "posture_weights_ok w" using posture_Weights_Validate_ok [OF assms] .
  note r = posture_factors_range [OF ok, of s ctx]
  have fs: "pa_Factors (posture_Evaluate s ctx w) = posture_factors s ctx w"
    by (simp add: posture_Evaluate_def Let_def)
  have "\<not> pa_Verified (posture_Evaluate s ctx w)"
    by (simp add: posture_Evaluate_def posture_factors_def Let_def)
  then show ?thesis
    using posture_Evaluate_score [OF ok, of s ctx] r sum_in_range [OF r(1)] sum_eq_maxima_iff [OF r(1)]
    by (simp add: Let_def fs factor_in_range_def)
qed

theorem posture_reconciles_witness:
  "pa_Score (posture_Evaluate healthy_signals healthy_context posture_DefaultWeights) \<le> 100 \<and>
   \<not> pa_Verified (posture_Evaluate healthy_signals healthy_context posture_DefaultWeights)"
  using posture_reconciles [OF refl posture_DefaultWeights_ok(1,3), of healthy_signals healthy_context]
  unfolding Let_def by blast

text \<open>
  Silence never scores better than a claim.  Turning controls reported as enabled into disabled
  or unreported ones, all else equal, never raises the trust score; as the order does not tell
  disabled from unreported, those two are worth the same.
\<close>

theorem posture_monotone:
  assumes "posture_weights_ok w" "reports_at_least s s'"
  shows "pa_Score (posture_Evaluate s ctx w) \<le> pa_Score (posture_Evaluate s' ctx w)"
proof -
  have "OSName s' = OSName s" "OSVersion s' = OSVersion s"
    using assms(2) by (simp_all add: reports_at_least_def)
  then have os: "osSupportedFactor s' m = osSupportedFactor s m" for m
    unfolding osSupportedFactor_def by (simp only:)
  have nonneg: "\<forall>v \<in> snd ` set (posture_weight_entries w). 0 \<le> v"
    using assms(1) by (simp add: posture_weights_ok_def)
  then show ?thesis
    using assms(2) unfolding posture_Evaluate_score [OF assms(1)]
    by (simp add: posture_factors_def os posture_weight_entries_def reports_at_least_def)
qed

theorem posture_monotone_witness:
  "pa_Score (posture_Evaluate (healthy_signals\<lparr>DiskEncryption := None\<rparr>) healthy_context posture_DefaultWeights) \<le>
   pa_Score (posture_Evaluate healthy_signals healthy_context posture_DefaultWeights)"
  using posture_monotone [OF posture_DefaultWeights_ok(2),
      of "healthy_signals\<lparr>DiskEncryption := None\<rparr>" healthy_signals healthy_context]
  by (simp add: reports_at_least_def healthy_signals_def)

text \<open>
  Comparing versions.  A dotted version printed from 64-bit components reads back as those
  components; the comparison of any two strings is antisymmetric and transitive, so it is a total
  preorder, and only the sign -1, 0 or 1 is returned.
\<close>

theorem compareVersions_order:
  assumes "vs \<noteq> []" "\<forall>v \<in> set vs. 0 \<le> v \<and> v < 2 ^ 63"
  shows "splitVersion (Join (map show_int vs) ''.'') = vs \<and>
    compareVersions a b \<in> {-1, 0, 1} \<and> compareVersions b a = - compareVersions a b \<and>
    (compareVersions a b \<le> 0 \<longrightarrow> compareVersions b c \<le> 0 \<longrightarrow> compareVersions a c \<le> 0)"
  using splitVersion_Join [OF assms] compare_parts_range [of "splitVersion a" "splitVersion b"]
    compare_parts_swap [of "splitVersion b" "splitVersion a"]
    compare_parts_trans [of "splitVersion a" "splitVersion b" "splitVersion c"]
  unfolding compareVersions_def by blast

theorem compareVersions_order_witness:
  "splitVersion (Join (map show_int [10, 0, 22631]) ''.'') = [10, 0, 22631]"
  using compareVersions_order [of "[10, 0, 22631]"] by simp

text \<open>
  The weakest factors.  The hand-written in-place insertion sort returns the factors that lost
  points, worst first and in their original order among equals, cut to the first \<open>limit\<close> of them
  when a positive limit is smaller than their number.
\<close>

theorem Weakest_spec:
  "\<exists>ranked. mset ranked = mset (filter (\<lambda>f. shortfall f > 0) (pa_Factors a)) \<and>
     sorted_wrt (\<lambda>f g. shortfall g \<le> shortfall f) ranked \<and>
     (\<forall>v. filter (\<lambda>f. shortfall f = v) ranked =
          filter (\<lambda>f. shortfall f = v) (filter (\<lambda>f. shortfall f > 0) (pa_Factors a))) \<and>
     Weakest a limit = (if limit \<le> 0 then ranked else take (nat limit) ranked)"
  using rank_factors_spec
  by (intro exI [of _ "rank_factors (filter (\<lambda>f. shortfall f > 0) (pa_Factors a))"])
    (auto simp: Weakest_def Let_def)

text \<open>
  A version suffix with digits.  The scanner skips characters that are neither digits nor dots
  and goes on accumulating, so the unsupported Windows release ''9-beta1'' reads as version 91 and
  earns full credit for operating system currency.
\<close>

theorem version_suffix_misread:
  "splitVersion ''9-beta1'' = [91] \<and>
   pf_Contribution (osSupportedFactor (healthy_signals\<lparr>OSVersion := ''9-beta1''\<rparr>) 10) = 10"
proof -
  have v: "splitVersion ''9-beta1'' = [91]" "splitVersion ''10'' = [10]"
    by (simp_all add: splitVersion_def is_digit_def wrap64_def)
  have "posture_normalize ''Windows'' = ''windows''"
    by (simp add: posture_normalize_def TrimSpace_ascii is_space_def ToLower_ascii to_lower_char_def Let_def
        char_of_def bit_0)
  with v show ?thesis
    by (simp add: osSupportedFactor_def healthy_signals_def MinimumOSVersions_def compareVersions_def Let_def)
qed

text \<open>
  Posture is an append-only history.  Recording keeps every earlier row, and when the database
  clock has not gone backwards the row just recorded is the device's latest, so its score is the
  one the fleet listing shows; other devices are unaffected.
\<close>

theorem posture_record_latest:
  assumes "posture_Record_op ident now [] device s a db = (res, db')"
    and "0 \<le> pa_Score a" "pa_Score a \<le> 100" "\<forall>r \<in> set db. pr_DeviceID r = device \<longrightarrow> pr_CollectedAt r < now"
  shows "\<exists>row. res = Inr row \<and> db' = db @ [row] \<and> posture_Latest [] device db' = Inr row \<and>
    pr_TrustScore row = pa_Score a \<and> pr_Factors row = pa_Factors a \<and>
    (\<forall>scores. posture_LatestScores [] db' = Inr scores \<longrightarrow> scores device = Some (pa_Score a)) \<and>
    (\<forall>d. d \<noteq> device \<longrightarrow> posture_Latest [] d db' = posture_Latest [] d db)"
proof -
  obtain row where row: "res = Inr row" "db' = db @ [row]" "pr_DeviceID row = device"
      "pr_CollectedAt row = now" "pr_TrustScore row = pa_Score a" "pr_Factors row = pa_Factors a"
    using assms(1-3) by (auto simp: posture_Record_op_def Let_def)
  obtain r rest where r: "device_rows device db' = r # rest"
    using row by (cases "device_rows device db'") (auto simp: device_rows_def)
  have "r \<in> set (filter (\<lambda>r. pr_DeviceID r = device) db')" "pr_CollectedAt row \<le> pr_CollectedAt r"
    using newest_first_Cons [OF r [unfolded device_rows_def]] row by auto
  then have "r = row" using row assms(4) by auto
  with r row show ?thesis
    by (intro exI [of _ row]) (auto simp: posture_Latest_def posture_LatestScores_def device_rows_def)
qed

theorem posture_record_latest_witness:
  "\<exists>row db'. posture_Record_op 7 minute [] 3 healthy_signals
       (posture_Evaluate healthy_signals healthy_context posture_DefaultWeights) [] = (Inr row, db') \<and>
     posture_Latest [] 3 db' = Inr row"
proof -
  let ?a = "posture_Evaluate healthy_signals healthy_context posture_DefaultWeights"
  have "0 \<le> pa_Score ?a" "pa_Score ?a \<le> 100"
    by (simp_all add: posture_Evaluate_def Let_def)
  then show ?thesis
    using posture_record_latest [of 7 minute 3 healthy_signals ?a "[]"]
    by (metis empty_iff list.set(1) surj_pair)
qed

end
