(* ===== verification/Policy.thy ===== *)
theory Policy
  imports Risk
begin

section \<open>Policy: from a risk assessment to a decision\<close>

text \<open>
  Package \<^verbatim>\<open>internal/policy\<close>: \<^verbatim>\<open>policy.go\<close> (conditions, validation, the engine and its degraded
  mode), \<^verbatim>\<open>defaults.go\<close> (the shipped set) and \<^verbatim>\<open>store.go\<close> (versions and decisions).  The policies table
  is the list of its rows; conditions and actions are kept decoded.  The clock readings of an
  evaluation are its arguments \<open>started\<close> and \<open>elapsed\<close>.
\<close>

subsection \<open>policy.go: data\<close>

datatype Decision =
  DecisionAllow | DecisionAllowMonitor | DecisionVerify | DecisionStepUpMFA | DecisionRestrict
| DecisionIsolate | DecisionDeny | DecisionOther string

fun knownDecisions :: "Decision \<Rightarrow> bool" where
  "knownDecisions (DecisionOther s) \<longleftrightarrow> False"
| "knownDecisions _ \<longleftrightarrow> True"

fun severity :: "Decision \<Rightarrow> nat" where
  "severity DecisionAllow = 0"
| "severity DecisionAllowMonitor = 1"
| "severity DecisionVerify = 2"
| "severity DecisionStepUpMFA = 3"
| "severity DecisionRestrict = 4"
| "severity DecisionIsolate = 5"
| "severity DecisionDeny = 6"
| "severity (DecisionOther s) = 0"

datatype FailMode = FailOpen | FailClosed | FailSafe | FailOther string

record Conditions =
  MinRisk :: "int option"
  MaxRisk :: "int option"
  Levels :: "string list"
  c_ResourceSensitivity :: "string list"
  RequireFactors :: "string list"

record Actions =
  ac_Decision :: Decision
  ac_CreateIncident :: bool
  ac_AlertSOC :: bool
  ac_Message :: string

record Policy =
  p_ID :: uuid
  p_PolicyID :: string
  p_Version :: int
  p_Name :: string
  p_Description :: string
  p_Priority :: int
  p_Enabled :: bool
  p_Conditions :: Conditions
  p_Actions :: Actions
  p_FailMode :: FailMode
  p_CreatedBy :: "uuid option"
  p_CreatedAt :: time

datatype policy_error =
  ErrPolicyID | ErrPolicyName | ErrUnknownDecision Decision | ErrFailMode | ErrMinRisk | ErrMaxRisk
| ErrRiskRange | ErrUnconstrained | ErrPolicyDB string

definition out_of_percent :: "int option \<Rightarrow> bool" where
  "out_of_percent v \<longleftrightarrow> (case v of None \<Rightarrow> False | Some n \<Rightarrow> n < 0 \<or> n > 100)"

definition Policy_Validate :: "Policy \<Rightarrow> policy_error option" where
  "Policy_Validate p =
     (let c = p_Conditions p
      in if TrimSpace (p_PolicyID p) = [] \<or> length (p_PolicyID p) > 64 then Some ErrPolicyID
         else if TrimSpace (p_Name p) = [] \<or> length (p_Name p) > 128 then Some ErrPolicyName
         else if \<not> knownDecisions (ac_Decision (p_Actions p))
         then Some (ErrUnknownDecision (ac_Decision (p_Actions p)))
         else if p_FailMode p \<notin> {FailOpen, FailClosed, FailSafe} then Some ErrFailMode
         else if out_of_percent (MinRisk c) then Some ErrMinRisk
         else if out_of_percent (MaxRisk c) then Some ErrMaxRisk
         else if (case (MinRisk c, MaxRisk c) of (Some lo, Some hi) \<Rightarrow> lo > hi | _ \<Rightarrow> False)
         then Some ErrRiskRange
         else if MinRisk c = None \<and> MaxRisk c = None \<and> Levels c = [] \<and>
                 c_ResourceSensitivity c = [] \<and> RequireFactors c = []
         then Some ErrUnconstrained
         else None)"

record Request =
  rq_Assessment :: Assessment
  rq_ResourceSensitivity :: string
  rq_ResourceID :: "uuid option"
  rq_Degraded :: bool

record Result =
  rs_Decision :: Decision
  rs_Reason :: string
  rs_PolicyID :: string
  rs_PolicyVersion :: int
  rs_CreateIncident :: bool
  rs_AlertSOC :: bool
  rs_Message :: string
  rs_Matched :: "string list"
  rs_EvaluatedAt :: time
  rs_Latency :: duration

subsection \<open>policy.go: matching\<close>

definition containsFold :: "string list \<Rightarrow> string \<Rightarrow> bool" where
  "containsFold haystack needle \<longleftrightarrow> list_ex (\<lambda>candidate. EqualFold candidate needle) haystack"

definition isSensitive :: "string \<Rightarrow> bool" where
  "isSensitive s \<longleftrightarrow> EqualFold s ''SENSITIVE'' \<or> EqualFold s ''CRITICAL''"

definition matches :: "Conditions \<Rightarrow> Request \<Rightarrow> bool" where
  "matches c r \<longleftrightarrow>
     (let a = rq_Assessment r; score = ra_Score a
      in (case MinRisk c of None \<Rightarrow> True | Some lo \<Rightarrow> \<not> score < lo) \<and>
         (case MaxRisk c of None \<Rightarrow> True | Some hi \<Rightarrow> \<not> score > hi) \<and>
         (Levels c = [] \<or> containsFold (Levels c) (Level_string (ra_Level a))) \<and>
         (c_ResourceSensitivity c = [] \<or>
          containsFold (c_ResourceSensitivity c) (rq_ResourceSensitivity r)) \<and>
         list_all (\<lambda>required. ToUpper required \<in> set (map rf_Code (ra_Factors a))) (RequireFactors c))"

subsection \<open>policy.go: engine\<close>

definition policy_less :: "Policy \<Rightarrow> Policy \<Rightarrow> bool" where
  "policy_less p q \<longleftrightarrow>
     (if p_Priority p \<noteq> p_Priority q then p_Priority p < p_Priority q
      else p_PolicyID p < p_PolicyID q)"

definition policy_NewEngine :: "Policy list \<Rightarrow> Policy list" where
  "policy_NewEngine policies = SliceStable policy_less (filter p_Enabled policies)"

definition citation :: "Policy \<Rightarrow> string" where
  "citation p = p_PolicyID p @ ''@v'' @ show_int (p_Version p)"

definition default_result :: "time \<Rightarrow> Result" where
  "default_result started = \<lparr>rs_Decision = DecisionAllow,
     rs_Reason = ''no policy matched; default allow'', rs_PolicyID = [], rs_PolicyVersion = 0,
     rs_CreateIncident = False, rs_AlertSOC = False, rs_Message = [], rs_Matched = [],
     rs_EvaluatedAt = started, rs_Latency = 0\<rparr>"

definition decide :: "Policy \<Rightarrow> Result \<Rightarrow> Result" where
  "decide p r =
     (if severity (ac_Decision (p_Actions p)) \<ge> severity (rs_Decision r)
      then r\<lparr>rs_Decision := ac_Decision (p_Actions p), rs_Reason := p_Name p,
             rs_PolicyID := p_PolicyID p, rs_PolicyVersion := p_Version p,
             rs_Message := ac_Message (p_Actions p)\<rparr>
      else r)"

definition consider_policy :: "Request \<Rightarrow> Result \<Rightarrow> Policy \<Rightarrow> Result" where
  "consider_policy rq r p =
     (if \<not> matches (p_Conditions p) rq then r
      else
        (let r = r\<lparr>rs_Matched := rs_Matched r @ [citation p]\<rparr>;
             r = decide p r;
             r = r\<lparr>rs_CreateIncident := rs_CreateIncident r \<or> ac_CreateIncident (p_Actions p)\<rparr>
         in r\<lparr>rs_AlertSOC := rs_AlertSOC r \<or> ac_AlertSOC (p_Actions p)\<rparr>))"

definition degraded :: "Policy list \<Rightarrow> Request \<Rightarrow> time \<Rightarrow> duration \<Rightarrow> Result" where
  "degraded policies rq started elapsed =
     (let mode = (if list_ex (\<lambda>p. matches (p_Conditions p) rq \<and> p_FailMode p = FailClosed) policies
                  then FailClosed else FailSafe);
          r = (default_result started)\<lparr>rs_Latency := elapsed\<rparr>
      in case mode of
           FailClosed \<Rightarrow> r\<lparr>rs_Decision := DecisionDeny,
             rs_Reason := ''control plane unavailable; policy is fail-closed''\<rparr>
         | FailOpen \<Rightarrow> r\<lparr>rs_Decision := DecisionAllow,
             rs_Reason := ''control plane unavailable; policy is fail-open''\<rparr>
         | _ \<Rightarrow>
             if isSensitive (rq_ResourceSensitivity rq)
             then r\<lparr>rs_Decision := DecisionRestrict,
                    rs_Reason := ''control plane unavailable; sensitive access restricted''\<rparr>
             else r\<lparr>rs_Decision := DecisionAllowMonitor,
                    rs_Reason := ''control plane unavailable; continuing on cached policy''\<rparr>)"

definition policy_Evaluate :: "Policy list \<Rightarrow> Request \<Rightarrow> time \<Rightarrow> duration \<Rightarrow> Result" where
  "policy_Evaluate policies rq started elapsed =
     (if rq_Degraded rq then degraded policies rq started elapsed
      else (foldl (consider_policy rq) (default_result started) policies)\<lparr>rs_Latency := elapsed\<rparr>)"

subsection \<open>defaults.go\<close>

definition any_conditions :: Conditions where
  "any_conditions = \<lparr>MinRisk = None, MaxRisk = None, Levels = [], c_ResourceSensitivity = [],
     RequireFactors = []\<rparr>"

definition default_policy ::
  "string \<Rightarrow> int \<Rightarrow> string \<Rightarrow> string \<Rightarrow> Conditions \<Rightarrow> Actions \<Rightarrow> FailMode \<Rightarrow> Policy" where
  "default_policy pid priority name description c a mode = \<lparr>p_ID = uuid_Nil, p_PolicyID = pid,
     p_Version = 1, p_Name = name, p_Description = description, p_Priority = priority,
     p_Enabled = True, p_Conditions = c, p_Actions = a, p_FailMode = mode, p_CreatedBy = None,
     p_CreatedAt = zero_time\<rparr>"

definition DefaultPolicies :: "Policy list" where
  "DefaultPolicies =
     [default_policy ''baseline-low'' 100 ''Allow low-risk sessions''
        ''Routine access from a trusted user on a trusted device.''
        (any_conditions\<lparr>Levels := [''LOW'']\<rparr>)
        \<lparr>ac_Decision = DecisionAllow, ac_CreateIncident = False, ac_AlertSOC = False, ac_Message = []\<rparr>
        FailOpen,
      default_policy ''baseline-medium'' 90 ''Monitor medium-risk sessions''
        ''Access continues, but the session is recorded for review.''
        (any_conditions\<lparr>Levels := [''MEDIUM'']\<rparr>)
        \<lparr>ac_Decision = DecisionAllowMonitor, ac_CreateIncident = False, ac_AlertSOC = False,
         ac_Message = []\<rparr>
        FailOpen,
      default_policy ''baseline-elevated'' 80 ''Verify elevated-risk sessions''
        ''Additional verification before sensitive operations.''
        (any_conditions\<lparr>Levels := [''ELEVATED'']\<rparr>)
        \<lparr>ac_Decision = DecisionVerify, ac_CreateIncident = False, ac_AlertSOC = False,
         ac_Message = ''Additional verification is required to continue.''\<rparr>
        FailSafe,
      default_policy ''baseline-high'' 70 ''Step up authentication at high risk''
        ''The user must re-authenticate before continuing.''
        (any_conditions\<lparr>Levels := [''HIGH'']\<rparr>)
        \<lparr>ac_Decision = DecisionStepUpMFA, ac_CreateIncident = False, ac_AlertSOC = True,
         ac_Message = ''Please confirm your identity to continue.''\<rparr>
        FailSafe,
      default_policy ''baseline-critical'' 10 ''Isolate critical-risk sessions''
        ''The session is isolated and an incident is opened for the SOC.''
        (any_conditions\<lparr>Levels := [''CRITICAL'']\<rparr>)
        \<lparr>ac_Decision = DecisionIsolate, ac_CreateIncident = True, ac_AlertSOC = True,
         ac_Message = ''Access has been suspended. Your security team has been notified.''\<rparr>
        FailClosed,
      default_policy ''critical-resource-guard'' 20 ''Restrict critical resources above elevated risk''
        ''The same behaviour is treated differently when a CRITICAL resource is involved.''
        (any_conditions\<lparr>MinRisk := Some 51, c_ResourceSensitivity := [''CRITICAL'']\<rparr>)
        \<lparr>ac_Decision = DecisionRestrict, ac_CreateIncident = True, ac_AlertSOC = True,
         ac_Message = ''Access to this resource is restricted at your current risk level.''\<rparr>
        FailClosed,
      default_policy ''new-device-sensitive'' 30 ''Step up on a new device reaching sensitive data''
        ''A device this user has never worked from, reaching classified material.''
        (any_conditions\<lparr>RequireFactors := [''NEW_DEVICE''],
           c_ResourceSensitivity := [''SENSITIVE'', ''CRITICAL'']\<rparr>)
        \<lparr>ac_Decision = DecisionStepUpMFA, ac_CreateIncident = False, ac_AlertSOC = True,
         ac_Message = ''Confirm your identity to use this device for sensitive resources.''\<rparr>
        FailClosed,
      default_policy ''unattested-session'' 5 ''Deny sessions without device attestation''
        ''A session should not exist without cryptographic device proof.''
        (any_conditions\<lparr>RequireFactors := [''UNATTESTED_SESSION'']\<rparr>)
        \<lparr>ac_Decision = DecisionDeny, ac_CreateIncident = True, ac_AlertSOC = True,
         ac_Message = ''This session could not be verified.''\<rparr>
        FailClosed]"

subsection \<open>store.go\<close>

text \<open>\<^verbatim>\<open>ORDER BY policy_id, version DESC\<close>, and the first row of each policy under \<^verbatim>\<open>DISTINCT ON\<close>.\<close>

definition version_less :: "Policy \<Rightarrow> Policy \<Rightarrow> bool" where
  "version_less p q \<longleftrightarrow>
     (if p_PolicyID p \<noteq> p_PolicyID q then p_PolicyID p < p_PolicyID q
      else p_Version p > p_Version q)"

fun distinct_on :: "Policy list \<Rightarrow> Policy list" where
  "distinct_on [] = []"
| "distinct_on (p # ps) = p # filter (\<lambda>q. p_PolicyID q \<noteq> p_PolicyID p) (distinct_on ps)"

definition Active_policies :: "faults \<Rightarrow> Policy list \<Rightarrow> policy_error + Policy list" where
  "Active_policies fs db =
     (if fault fs ''query active policies'' then Inl (ErrPolicyDB ''query active policies'')
      else if fault fs ''scan policy'' then Inl (ErrPolicyDB ''scan policy'')
      else Inr (distinct_on (SliceStable version_less (filter p_Enabled db))))"

definition All_policies :: "faults \<Rightarrow> Policy list \<Rightarrow> policy_error + Policy list" where
  "All_policies fs db =
     (if fault fs ''query policies'' then Inl (ErrPolicyDB ''query policies'')
      else if fault fs ''scan policy'' then Inl (ErrPolicyDB ''scan policy'')
      else Inr (SliceStable version_less db))"

definition next_version :: "string \<Rightarrow> Policy list \<Rightarrow> int" where
  "next_version pid db =
     (case filter (\<lambda>p. p_PolicyID p = pid) db of
        [] \<Rightarrow> 1
      | p # ps \<Rightarrow> foldl (\<lambda>n q. max n (p_Version q)) (p_Version p) ps + 1)"

definition Create_policy ::
  "uuid \<Rightarrow> time \<Rightarrow> faults \<Rightarrow> Policy \<Rightarrow> uuid option \<Rightarrow> Policy list \<Rightarrow> (policy_error + Policy) \<times> Policy list" where
  "Create_policy ident now fs p createdBy db =
     (case Policy_Validate p of
        Some e \<Rightarrow> (Inl e, db)
      | None \<Rightarrow>
          if fault fs ''encode policy conditions''
          then (Inl (ErrPolicyDB ''encode policy conditions''), db)
          else if fault fs ''encode policy actions''
          then (Inl (ErrPolicyDB ''encode policy actions''), db)
          else if fault fs ''create policy'' \<or> \<not> fits16 (p_Priority p)
          then (Inl (ErrPolicyDB ''create policy''), db)
          else
            (let row = p\<lparr>p_ID := ident, p_Version := next_version (p_PolicyID p) db,
                         p_CreatedBy := createdBy, p_CreatedAt := now\<rparr>
             in (Inr row, db @ [row])))"

record policy_decision_row =
  pd_ID :: uuid
  pd_SessionID :: uuid
  pd_UserID :: uuid
  pd_DeviceID :: uuid
  pd_RiskScoreID :: "uuid option"
  pd_ResourceID :: "uuid option"
  pd_PolicyID :: "string option"
  pd_PolicyVersion :: "int option"
  pd_Decision :: Decision
  pd_Reason :: string
  pd_EvaluatedAt :: time
  pd_LatencyUs :: int
  pd_IncidentID :: "uuid option"

definition RecordDecision ::
  "uuid \<Rightarrow> faults \<Rightarrow> uuid \<Rightarrow> uuid \<Rightarrow> uuid \<Rightarrow> uuid option \<Rightarrow> uuid option \<Rightarrow> Result \<Rightarrow> uuid option \<Rightarrow>
   policy_decision_row list \<Rightarrow> policy_error option \<times> policy_decision_row list" where
  "RecordDecision ident fs sid uid did riskScoreID resourceID r incidentID db =
     (let latency = go_div (rs_Latency r) microsecond
      in if fault fs ''record policy decision'' \<or> \<not> knownDecisions (rs_Decision r) \<or> \<not> \<bar>latency\<bar> < 2 ^ 31
         then (Some (ErrPolicyDB ''record policy decision''), db)
         else (None, db @ [\<lparr>pd_ID = ident, pd_SessionID = sid, pd_UserID = uid, pd_DeviceID = did,
                 pd_RiskScoreID = riskScoreID, pd_ResourceID = resourceID,
                 pd_PolicyID = (if rs_PolicyID r = [] then None else Some (rs_PolicyID r)),
                 pd_PolicyVersion = (if rs_PolicyVersion r = 0 then None else Some (rs_PolicyVersion r)),
                 pd_Decision = rs_Decision r, pd_Reason = rs_Reason r,
                 pd_EvaluatedAt = rs_EvaluatedAt r, pd_LatencyUs = latency,
                 pd_IncidentID = incidentID\<rparr>]))"

record DecisionRecord =
  dr_ID :: uuid
  dr_SessionID :: uuid
  dr_UserName :: string
  dr_DeviceName :: string
  dr_PolicyID :: string
  dr_PolicyVersion :: int
  dr_Decision :: Decision
  dr_Reason :: string
  dr_EvaluatedAt :: time
  dr_LatencyUs :: int

text \<open>The names joined from the tables of users and devices are lookups in \<open>names\<close> and \<open>hosts\<close>.\<close>

definition decision_record ::
  "(uuid \<rightharpoonup> string) \<Rightarrow> (uuid \<rightharpoonup> string) \<Rightarrow> policy_decision_row \<Rightarrow> DecisionRecord" where
  "decision_record names hosts r =
     \<lparr>dr_ID = pd_ID r, dr_SessionID = pd_SessionID r,
      dr_UserName = (case names (pd_UserID r) of None \<Rightarrow> [] | Some n \<Rightarrow> n),
      dr_DeviceName = (case hosts (pd_DeviceID r) of None \<Rightarrow> [] | Some n \<Rightarrow> n),
      dr_PolicyID = (case pd_PolicyID r of None \<Rightarrow> [] | Some p \<Rightarrow> p),
      dr_PolicyVersion = (case pd_PolicyVersion r of None \<Rightarrow> 0 | Some v \<Rightarrow> v),
      dr_Decision = pd_Decision r, dr_Reason = pd_Reason r, dr_EvaluatedAt = pd_EvaluatedAt r,
      dr_LatencyUs = pd_LatencyUs r\<rparr>"

definition Decisions ::
  "(uuid \<rightharpoonup> string) \<Rightarrow> (uuid \<rightharpoonup> string) \<Rightarrow> faults \<Rightarrow> uuid option \<Rightarrow> int \<Rightarrow> policy_decision_row list \<Rightarrow>
   policy_error + DecisionRecord list" where
  "Decisions names hosts fs session limit db =
     (if fault fs ''query policy decisions'' then Inl (ErrPolicyDB ''query policy decisions'')
      else if fault fs ''scan policy decision'' then Inl (ErrPolicyDB ''scan policy decision'')
      else Inr (map (decision_record names hosts)
        (take (page_limit 500 100 limit)
          (newest_first pd_EvaluatedAt
            (filter (\<lambda>r. case session of None \<Rightarrow> True | Some s \<Rightarrow> pd_SessionID r = s) db)))))"

text \<open>
  \<open>idents\<close> yields the identifiers of the rows the seeding inserts, and \<open>fc k\<close> the faults of its
  \<open>k\<close>-th insertion: each is a statement of its own.
\<close>

fun seed :: "(nat \<Rightarrow> uuid) \<Rightarrow> time \<Rightarrow> (nat \<Rightarrow> faults) \<Rightarrow> nat \<Rightarrow> Policy list \<Rightarrow> Policy list \<Rightarrow>
  nat \<times> policy_error option \<times> Policy list" where
  "seed idents now fc created [] db = (created, None, db)"
| "seed idents now fc created (p # ps) db =
     (case Create_policy (idents created) now (fc created) p None db of
        (Inl e, db') \<Rightarrow> (created, Some e, db')
      | (Inr _, db') \<Rightarrow> seed idents now fc (Suc created) ps db')"

definition EnsureDefaults ::
  "(nat \<Rightarrow> uuid) \<Rightarrow> time \<Rightarrow> faults \<Rightarrow> (nat \<Rightarrow> faults) \<Rightarrow> Policy list \<Rightarrow> nat \<times> policy_error option \<times> Policy list" where
  "EnsureDefaults idents now fs fc db =
     (case All_policies fs db of
        Inl e \<Rightarrow> (0, Some e, db)
      | Inr existing \<Rightarrow> if existing \<noteq> [] then (0, None, db) else seed idents now fc 0 DefaultPolicies db)"

subsection \<open>Orders of the engine and of the store\<close>

interpretation policy_order: slice_order policy_less
  by unfold_locales (auto simp: policy_less_def split: if_splits)

interpretation version_order: slice_order version_less
  by unfold_locales (auto simp: version_less_def split: if_splits)

lemma set_policy_NewEngine [simp]: "set (policy_NewEngine ps) = {p \<in> set ps. p_Enabled p}"
  by (auto simp: policy_NewEngine_def)

lemma policy_NewEngine_perm:
  assumes "mset ps = mset qs" "distinct (map p_PolicyID (filter p_Enabled ps))"
  shows "policy_NewEngine ps = policy_NewEngine qs"
  unfolding policy_NewEngine_def
proof (rule policy_order.SliceStable_perm)
  show "mset (filter p_Enabled ps) = mset (filter p_Enabled qs)" using assms(1) by (simp add: mset_filter)
  fix p q assume "p \<in> set (filter p_Enabled ps)" "q \<in> set (filter p_Enabled ps)" "p \<noteq> q"
  then have "p_PolicyID p \<noteq> p_PolicyID q"
    using assms(2) by (metis distinct_map inj_on_def)
  then show "policy_less p q \<or> policy_less q p"
    by (auto simp: policy_less_def neq_iff)
qed

subsection \<open>What the loop over the policies computes\<close>

definition applies :: "Request \<Rightarrow> Policy \<Rightarrow> bool" where
  "applies rq p \<longleftrightarrow> matches (p_Conditions p) rq"

definition cites :: "Result \<Rightarrow> Policy \<Rightarrow> bool" where
  "cites r p \<longleftrightarrow>
     rs_Decision r = ac_Decision (p_Actions p) \<and> rs_Reason r = p_Name p \<and>
     rs_PolicyID r = p_PolicyID p \<and> rs_PolicyVersion r = p_Version p \<and>
     rs_Message r = ac_Message (p_Actions p)"

definition policy_severity :: "Policy \<Rightarrow> nat" where
  "policy_severity p = severity (ac_Decision (p_Actions p))"

lemma consider_not [simp]: "\<not> applies rq p \<Longrightarrow> consider_policy rq r p = r"
  by (simp add: consider_policy_def applies_def)

lemma consider_applies:
  assumes "applies rq p"
  shows "severity (rs_Decision (consider_policy rq r p)) = max (severity (rs_Decision r)) (policy_severity p)"
    and "policy_severity p < severity (rs_Decision r) \<or> cites (consider_policy rq r p) p"
    and "policy_severity p < severity (rs_Decision r) \<Longrightarrow> cites r q \<Longrightarrow> cites (consider_policy rq r p) q"
    and "rs_CreateIncident (consider_policy rq r p) \<longleftrightarrow> rs_CreateIncident r \<or> ac_CreateIncident (p_Actions p)"
    and "rs_AlertSOC (consider_policy rq r p) \<longleftrightarrow> rs_AlertSOC r \<or> ac_AlertSOC (p_Actions p)"
    and "rs_Matched (consider_policy rq r p) = rs_Matched r @ [citation p]"
    and "rs_EvaluatedAt (consider_policy rq r p) = rs_EvaluatedAt r"
  using assms
  by (auto simp: consider_policy_def applies_def decide_def policy_severity_def cites_def Let_def)

lemma foldl_consider_unchanged:
  "\<forall>p \<in> set ps. \<not> applies rq p \<Longrightarrow> foldl (consider_policy rq) r ps = r"
  by (induction ps arbitrary: r) simp_all

lemma foldl_consider_severity:
  "severity (rs_Decision r) \<le> severity (rs_Decision (foldl (consider_policy rq) r ps)) \<and>
   (\<forall>p \<in> set ps. applies rq p \<longrightarrow>
      policy_severity p \<le> severity (rs_Decision (foldl (consider_policy rq) r ps)))"
proof (induction ps arbitrary: r)
  case (Cons p ps)
  show ?case
    using Cons [of "consider_policy rq r p"] consider_applies(1) [of rq p r]
    by (cases "applies rq p") auto
qed simp

lemma foldl_consider_cites:
  "(\<exists>p \<in> set ps. applies rq p \<and> severity (rs_Decision r) \<le> policy_severity p) \<or> (\<exists>q \<in> S. cites r q) \<Longrightarrow>
   \<exists>p \<in> {p \<in> set ps. applies rq p} \<union> S. cites (foldl (consider_policy rq) r ps) p"
proof (induction ps arbitrary: r S)
  case (Cons p ps)
  show ?case
  proof (cases "applies rq p")
    case False
    then show ?thesis using Cons.IH [of r S] Cons.prems by auto
  next
    case True
    let ?r = "consider_policy rq r p"
    consider (wins) "cites ?r p" | (loses) "policy_severity p < severity (rs_Decision r)"
      using consider_applies(2) [OF True] by blast
    then show ?thesis
    proof cases
      case wins
      then show ?thesis using Cons.IH [of ?r "insert p S"] True by auto
    next
      case loses
      then have "severity (rs_Decision ?r) = severity (rs_Decision r)"
        using consider_applies(1) [OF True, of r] by simp
      moreover have "\<forall>q. cites r q \<longrightarrow> cites ?r q" using consider_applies(3) [OF True loses] by blast
      ultimately show ?thesis using Cons.IH [of ?r S] Cons.prems loses True by fastforce
    qed
  qed
qed auto

lemma foldl_consider_flags:
  "(rs_CreateIncident (foldl (consider_policy rq) r ps) \<longleftrightarrow>
      rs_CreateIncident r \<or> (\<exists>p \<in> set ps. applies rq p \<and> ac_CreateIncident (p_Actions p))) \<and>
   (rs_AlertSOC (foldl (consider_policy rq) r ps) \<longleftrightarrow>
      rs_AlertSOC r \<or> (\<exists>p \<in> set ps. applies rq p \<and> ac_AlertSOC (p_Actions p))) \<and>
   rs_Matched (foldl (consider_policy rq) r ps) = rs_Matched r @ map citation (filter (applies rq) ps) \<and>
   rs_EvaluatedAt (foldl (consider_policy rq) r ps) = rs_EvaluatedAt r"
proof (induction ps arbitrary: r)
  case (Cons p ps)
  show ?case
    using Cons [of "consider_policy rq r p"] consider_applies(4-7) [of rq p r]
    by (cases "applies rq p") auto
qed simp

lemma policy_Evaluate_live:
  "\<not> rq_Degraded rq \<Longrightarrow>
   policy_Evaluate ps rq t d = (foldl (consider_policy rq) (default_result t) ps)\<lparr>rs_Latency := d\<rparr>"
  by (simp add: policy_Evaluate_def)

lemma policy_Evaluate_severity:
  assumes "\<not> rq_Degraded rq" "p \<in> set ps" "applies rq p"
  shows "policy_severity p \<le> severity (rs_Decision (policy_Evaluate ps rq t d))"
  using assms foldl_consider_severity [of "default_result t" rq ps] by (simp add: policy_Evaluate_live)

lemma policy_Evaluate_cites:
  assumes "\<not> rq_Degraded rq" "p \<in> set ps" "applies rq p"
  shows "\<exists>q \<in> set ps. applies rq q \<and> cites (policy_Evaluate ps rq t d) q"
  using assms foldl_consider_cites [of ps rq "default_result t" "{}"]
  by (auto simp: policy_Evaluate_live default_result_def cites_def)

lemma policy_Evaluate_none:
  assumes "\<not> rq_Degraded rq" "\<forall>p \<in> set ps. \<not> applies rq p"
  shows "policy_Evaluate ps rq t d = (default_result t)\<lparr>rs_Latency := d\<rparr>"
  using assms by (simp add: policy_Evaluate_live foldl_consider_unchanged)

text \<open>More policies never make the outcome less restrictive.\<close>

lemma policy_Evaluate_superset:
  assumes "\<not> rq_Degraded rq" "set ps \<subseteq> set qs"
  shows "severity (rs_Decision (policy_Evaluate ps rq t d)) \<le> severity (rs_Decision (policy_Evaluate qs rq t' d'))"
proof (cases "\<exists>p \<in> set ps. applies rq p")
  case True
  then obtain p where "p \<in> set ps" "applies rq p" by blast
  from policy_Evaluate_cites [OF assms(1) this, of t d] obtain q where
    "q \<in> set ps" "applies rq q" "cites (policy_Evaluate ps rq t d) q" by blast
  then show ?thesis
    using policy_Evaluate_severity [OF assms(1), of q qs t' d'] assms(2)
    by (auto simp: cites_def policy_severity_def)
next
  case False
  then show ?thesis using policy_Evaluate_none [OF assms(1)] by (simp add: default_result_def)
qed

subsection \<open>Versions in the store\<close>

abbreviation versions_of :: "string \<Rightarrow> Policy list \<Rightarrow> int list" where
  "versions_of pid db \<equiv> map p_Version (filter (\<lambda>p. p_PolicyID p = pid) db)"

definition versions_ok :: "Policy list \<Rightarrow> bool" where
  "versions_ok db \<longleftrightarrow>
     (\<forall>pid. distinct (versions_of pid db) \<and>
       set (versions_of pid db) = {1..int (length (versions_of pid db))})"

lemma foldl_max_Max:
  "foldl (\<lambda>n q. max n (p_Version q)) n ps = Max (insert n (p_Version ` set ps))"
proof (induction ps arbitrary: n)
  case (Cons p ps)
  have "Max (insert (max n (p_Version p)) (p_Version ` set ps)) =
      Max (insert n (insert (p_Version p) (p_Version ` set ps)))"
    by (cases "set ps = {}") (simp_all add: max.assoc)
  then show ?case using Cons by simp
qed simp

lemma next_version_eq:
  assumes "versions_ok db" shows "next_version pid db = int (length (versions_of pid db)) + 1"
proof (cases "filter (\<lambda>p. p_PolicyID p = pid) db")
  case Nil
  then show ?thesis by (simp add: next_version_def)
next
  case (Cons p ps)
  have "set (versions_of pid db) = {1..int (length (versions_of pid db))}"
    using assms by (simp add: versions_ok_def)
  with Cons have "Max (insert (p_Version p) (p_Version ` set ps)) = Max {1..int (length (versions_of pid db))}"
    by simp
  moreover have "Max {1..1 + int (length ps)} = 1 + int (length ps)" by (rule Max_eqI) auto
  ultimately show ?thesis using Cons by (simp add: next_version_def foldl_max_Max)
qed

lemma versions_ok_Nil: "versions_ok []"
  by (simp add: versions_ok_def)

lemma versions_ok_snoc:
  assumes "versions_ok db" "p_Version row = next_version (p_PolicyID row) db"
  shows "versions_ok (db @ [row])"
  unfolding versions_ok_def
proof
  fix pid
  have "{1..int n + 1} = insert (int n + 1) {1..int n}" for n by auto
  then show "distinct (versions_of pid (db @ [row])) \<and>
      set (versions_of pid (db @ [row])) = {1..int (length (versions_of pid (db @ [row])))}"
    using assms(1) [unfolded versions_ok_def, rule_format, of pid] assms(2) next_version_eq [OF assms(1)]
    by (cases "p_PolicyID row = pid") auto
qed

lemma Create_policy_cases:
  assumes "Create_policy ident now fs p by_user db = (res, db')"
  shows "db' = db \<and> (\<exists>e. res = Inl e) \<or>
    (\<exists>row. res = Inr row \<and> db' = db @ [row] \<and> Policy_Validate p = None \<and>
       row = p\<lparr>p_ID := ident, p_Version := next_version (p_PolicyID p) db,
               p_CreatedBy := by_user, p_CreatedAt := now\<rparr>)"
  using assms by (auto simp: Create_policy_def Let_def split: option.splits if_splits)

text \<open>The tables that policy creation alone can produce.\<close>

inductive policy_db_reachable :: "Policy list \<Rightarrow> bool" where
  empty: "policy_db_reachable []"
| create: "policy_db_reachable db \<Longrightarrow> Create_policy ident now fs p by_user db = (res, db') \<Longrightarrow>
    policy_db_reachable db'"

lemma reachable_versions_ok: "policy_db_reachable db \<Longrightarrow> versions_ok db"
proof (induction rule: policy_db_reachable.induct)
  case empty
  show ?case by (rule versions_ok_Nil)
next
  case (create db ident now fs p by_user res db')
  from Create_policy_cases [OF create.hyps(2)] show ?case
    by (elim disjE exE conjE) (use create.IH in \<open>auto intro!: versions_ok_snoc\<close>)
qed

lemma set_distinct_on: "set (distinct_on ps) \<subseteq> set ps"
  by (induction ps) auto

lemma distinct_on_ids: "distinct (map p_PolicyID (distinct_on ps))"
  by (induction ps) (auto simp: distinct_map_filter)

lemma distinct_on_complete: "p \<in> set ps \<Longrightarrow> \<exists>q \<in> set (distinct_on ps). p_PolicyID q = p_PolicyID p"
  by (induction ps) (auto, metis)

lemma distinct_on_highest:
  "sorted_wrt (\<lambda>p q. \<not> version_less q p) ps \<Longrightarrow> p \<in> set (distinct_on ps) \<Longrightarrow> q \<in> set ps \<Longrightarrow>
   p_PolicyID q = p_PolicyID p \<Longrightarrow> p_Version q \<le> p_Version p"
proof (induction ps)
  case (Cons a ps)
  show ?case
  proof (cases "p = a")
    case True
    then show ?thesis using Cons.prems by (auto simp: version_less_def)
  next
    case False
    then show ?thesis using Cons.prems Cons.IH set_distinct_on [of ps] by auto
  qed
qed simp

lemma Active_policies_spec:
  assumes "Active_policies [] db = Inr ps"
  shows "distinct (map p_PolicyID ps)"
    and "\<forall>p \<in> set ps. p \<in> set db \<and> p_Enabled p"
    and "\<forall>p \<in> set ps. \<forall>q \<in> set db. p_Enabled q \<and> p_PolicyID q = p_PolicyID p \<longrightarrow> p_Version q \<le> p_Version p"
    and "\<forall>q \<in> set db. p_Enabled q \<longrightarrow> (\<exists>p \<in> set ps. p_PolicyID p = p_PolicyID q)"
proof -
  let ?s = "SliceStable version_less (filter p_Enabled db)"
  have ps: "ps = distinct_on ?s" using assms by (simp add: Active_policies_def)
  show "distinct (map p_PolicyID ps)" unfolding ps by (rule distinct_on_ids)
  show "\<forall>p \<in> set ps. p \<in> set db \<and> p_Enabled p" using set_distinct_on [of ?s] unfolding ps by auto
  show "\<forall>p \<in> set ps. \<forall>q \<in> set db. p_Enabled q \<and> p_PolicyID q = p_PolicyID p \<longrightarrow> p_Version q \<le> p_Version p"
    using distinct_on_highest [OF version_order.SliceStable_sorted [of "filter p_Enabled db"]]
    unfolding ps by auto
  show "\<forall>q \<in> set db. p_Enabled q \<longrightarrow> (\<exists>p \<in> set ps. p_PolicyID p = p_PolicyID q)"
    using distinct_on_complete [of _ ?s] unfolding ps by simp
qed

subsection \<open>The shipped policies\<close>

lemma fold_levels [simp]:
  "fold_text ''LOW'' = [108, 111, 119]" "fold_text ''MEDIUM'' = [109, 101, 100, 105, 117, 109]"
  "fold_text ''ELEVATED'' = [101, 108, 101, 118, 97, 116, 101, 100]" "fold_text ''HIGH'' = [104, 105, 103, 104]"
  "fold_text ''CRITICAL'' = [99, 114, 105, 116, 105, 99, 97, 108]"
  "fold_text ''SENSITIVE'' = [115, 101, 110, 115, 105, 116, 105, 118, 101]"
  "fold_text ''INTERNAL'' = [105, 110, 116, 101, 114, 110, 97, 108]"
  by code_simp+

lemma ToUpper_codes [simp]:
  "ToUpper ''NEW_DEVICE'' = ''NEW_DEVICE''" "ToUpper ''UNATTESTED_SESSION'' = ''UNATTESTED_SESSION''"
  by (simp_all add: ToUpper_ascii to_upper_char_def Let_def)

lemma DefaultPolicies_valid:
  "list_all (\<lambda>p. Policy_Validate p = None \<and> fits16 (p_Priority p) \<and> p_Enabled p) DefaultPolicies"
  by (simp add: DefaultPolicies_def default_policy_def any_conditions_def Policy_Validate_def
      out_of_percent_def TrimSpace_ascii is_space_def fits16_def Let_def)

lemma DefaultPolicies_distinct: "distinct (map p_PolicyID DefaultPolicies)"
  by (simp add: DefaultPolicies_def default_policy_def)

lemma conclude_codes: "set (map rf_Code (ra_Factors (conclude e i fs))) = set (map rf_Code fs)"
proof -
  have "set (map rf_Code (fst (absorb x (gs, ds)))) = set (map rf_Code gs)" for x gs ds
    by (cases gs) simp_all
  then have "set (map rf_Code (fst (absorb x (sortFactors fs, ds)))) = set (map rf_Code fs)" for x ds
    by simp
  then show ?thesis
    by (auto simp: conclude_def Let_def split: prod.splits) (metis fst_conv image_eqI set_map)+
qed

subsection \<open>Properties\<close>

definition sample_assessment :: "Level \<Rightarrow> int \<Rightarrow> Assessment" where
  "sample_assessment l n = \<lparr>ra_SessionID = 1, ra_Score = n, ra_Level = l,
     ra_Action = RecommendedAction l, ra_Factors = [], ra_Dimensions = Map.empty,
     ra_ComputedAt = 0, ra_ModelVersion = ModelVersion, ra_TriggerEvent = []\<rparr>"

definition sample_request :: "Level \<Rightarrow> int \<Rightarrow> string \<Rightarrow> bool \<Rightarrow> Request" where
  "sample_request l n sens deg = \<lparr>rq_Assessment = sample_assessment l n,
     rq_ResourceSensitivity = sens, rq_ResourceID = None, rq_Degraded = deg\<rparr>"

text \<open>
  C6: the most restrictive matching policy wins.  With a live control plane the decision is at least
  as severe as that of every enabled policy that matches, it is the one of an enabled matching
  policy, which the result cites with its version, an incident is requested exactly if some
  matching policy requests one, and with no match at all the answer is the default allow.
\<close>

theorem most_restrictive_wins:
  assumes "\<not> rq_Degraded rq"
  shows "let r = policy_Evaluate (policy_NewEngine ps) rq t d;
             M = {p \<in> set ps. p_Enabled p \<and> matches (p_Conditions p) rq}
    in (\<forall>p \<in> M. severity (ac_Decision (p_Actions p)) \<le> severity (rs_Decision r)) \<and>
       (if M = {} then rs_Decision r = DecisionAllow \<and> rs_PolicyID r = [] \<and> rs_Matched r = []
        else \<exists>p \<in> M. rs_Decision r = ac_Decision (p_Actions p) \<and> rs_PolicyID r = p_PolicyID p \<and>
                rs_PolicyVersion r = p_Version p \<and> rs_Reason r = p_Name p) \<and>
       (rs_CreateIncident r \<longleftrightarrow> (\<exists>p \<in> M. ac_CreateIncident (p_Actions p))) \<and>
       (rs_AlertSOC r \<longleftrightarrow> (\<exists>p \<in> M. ac_AlertSOC (p_Actions p)))"
proof -
  let ?ps = "policy_NewEngine ps" and ?M = "{p \<in> set ps. p_Enabled p \<and> matches (p_Conditions p) rq}"
  let ?r = "policy_Evaluate ?ps rq t d"
  have M: "p \<in> ?M \<longleftrightarrow> p \<in> set ?ps \<and> applies rq p" for p by (auto simp: applies_def)
  have sev: "\<forall>p \<in> ?M. severity (ac_Decision (p_Actions p)) \<le> severity (rs_Decision ?r)"
    using policy_Evaluate_severity [OF assms, of _ ?ps t d] M unfolding policy_severity_def by blast
  have flags: "rs_CreateIncident ?r \<longleftrightarrow> (\<exists>p \<in> ?M. ac_CreateIncident (p_Actions p))"
      "rs_AlertSOC ?r \<longleftrightarrow> (\<exists>p \<in> ?M. ac_AlertSOC (p_Actions p))"
    using foldl_consider_flags [of rq "default_result t" ?ps] M
    by (auto simp: policy_Evaluate_live [OF assms] default_result_def)
  have "if ?M = {} then rs_Decision ?r = DecisionAllow \<and> rs_PolicyID ?r = [] \<and> rs_Matched ?r = []
      else \<exists>p \<in> ?M. rs_Decision ?r = ac_Decision (p_Actions p) \<and> rs_PolicyID ?r = p_PolicyID p \<and>
        rs_PolicyVersion ?r = p_Version p \<and> rs_Reason ?r = p_Name p"
  proof (cases "?M = {}")
    case True
    then have "\<forall>p \<in> set ?ps. \<not> applies rq p" using M by blast
    from policy_Evaluate_none [OF assms this] True show ?thesis by (simp add: default_result_def)
  next
    case False
    then obtain p where "p \<in> set ?ps" "applies rq p" using M by blast
    from policy_Evaluate_cites [OF assms this, of t d] M False show ?thesis
      by (simp only: if_False) (auto simp: cites_def)
  qed
  with sev flags show ?thesis by (simp only: Let_def)
qed

theorem most_restrictive_wins_witness:
  "\<not> rq_Degraded (sample_request LevelHigh 80 ''INTERNAL'' False) \<and>
   (\<nexists>p. p \<in> set DefaultPolicies \<and> p_Enabled p \<and>
      matches (p_Conditions p) (sample_request LevelHigh 80 ''INTERNAL'' False) \<and>
      severity (rs_Decision (policy_Evaluate (policy_NewEngine DefaultPolicies)
        (sample_request LevelHigh 80 ''INTERNAL'' False) 0 0)) < severity (ac_Decision (p_Actions p)))"
proof -
  have live: "\<not> rq_Degraded (sample_request LevelHigh 80 ''INTERNAL'' False)" by (simp add: sample_request_def)
  from most_restrictive_wins [OF this, of DefaultPolicies 0 0]
  have le: "\<forall>p \<in> {p \<in> set DefaultPolicies. p_Enabled p \<and>
      matches (p_Conditions p) (sample_request LevelHigh 80 ''INTERNAL'' False)}.
    severity (ac_Decision (p_Actions p)) \<le> severity (rs_Decision (policy_Evaluate (policy_NewEngine DefaultPolicies)
      (sample_request LevelHigh 80 ''INTERNAL'' False) 0 0))"
    unfolding Let_def by (rule conjunct1)
  show ?thesis
  proof (rule conjI [OF live], rule notI, elim exE conjE)
    fix p
    assume "p \<in> set DefaultPolicies" "p_Enabled p"
      and "matches (p_Conditions p) (sample_request LevelHigh 80 ''INTERNAL'' False)"
      and less: "severity (rs_Decision (policy_Evaluate (policy_NewEngine DefaultPolicies)
        (sample_request LevelHigh 80 ''INTERNAL'' False) 0 0)) < severity (ac_Decision (p_Actions p))"
    then have "p \<in> {p \<in> set DefaultPolicies. p_Enabled p \<and>
        matches (p_Conditions p) (sample_request LevelHigh 80 ''INTERNAL'' False)}" by blast
    from leD [OF bspec [OF le this]] less show False by (rule notE)
  qed
qed

text \<open>
  The outcome does not depend on the order of the rows.  However the database orders the
  policies, an engine built over the active ones gives the same result, citations included.
\<close>

theorem evaluation_order_independent:
  assumes "Active_policies [] db = Inr ps" "mset ps = mset qs"
  shows "policy_Evaluate (policy_NewEngine ps) rq t d = policy_Evaluate (policy_NewEngine qs) rq t d"
proof -
  have "distinct (map p_PolicyID (filter p_Enabled ps))"
    using Active_policies_spec(1) [OF assms(1)] by (simp add: distinct_map_filter)
  from policy_NewEngine_perm [OF assms(2) this] show ?thesis by simp
qed

theorem evaluation_order_independent_witness:
  "\<exists>ps. Active_policies [] DefaultPolicies = Inr ps \<and>
     policy_Evaluate (policy_NewEngine ps) (sample_request LevelLow 10 ''PUBLIC'' False) 0 0 =
     policy_Evaluate (policy_NewEngine (rev ps)) (sample_request LevelLow 10 ''PUBLIC'' False) 0 0"
proof -
  obtain ps where ps: "Active_policies [] DefaultPolicies = Inr ps" by (simp add: Active_policies_def)
  from evaluation_order_independent [OF this, of "rev ps"] ps show ?thesis by auto
qed

text \<open>
  C36: policies only ever tighten, in an outage as in normal operation: for one request, a larger set
  of policies, in any order and with any repetition, never makes the decision less severe; and in an
  outage no set of policies, fail-open ones included, allows more than restricted access to a
  sensitive or critical resource.
\<close>

theorem policies_only_tighten:
  assumes "set ps \<subseteq> set qs"
  shows "severity (rs_Decision (policy_Evaluate (policy_NewEngine ps) rq t d)) \<le>
      severity (rs_Decision (policy_Evaluate (policy_NewEngine qs) rq t' d')) \<and>
    (rq_Degraded rq \<and> isSensitive (rq_ResourceSensitivity rq) \<longrightarrow>
      severity DecisionRestrict \<le> severity (rs_Decision (policy_Evaluate (policy_NewEngine ps) rq t d)))"
proof (cases "rq_Degraded rq")
  case True
  have "list_ex P (policy_NewEngine ps) \<Longrightarrow> list_ex P (policy_NewEngine qs)" for P
    using assms by (auto simp: list_ex_iff)
  then show ?thesis using True by (auto simp: policy_Evaluate_def degraded_def Let_def)
next
  case False
  have "set (policy_NewEngine ps) \<subseteq> set (policy_NewEngine qs)" using assms by auto
  then show ?thesis using policy_Evaluate_superset [OF False] False by blast
qed

theorem policies_only_tighten_witness:
  "severity DecisionRestrict \<le>
     severity (rs_Decision (policy_Evaluate (policy_NewEngine []) (sample_request LevelLow 10 ''CRITICAL'' True) 0 0)) \<and>
   severity (rs_Decision (policy_Evaluate (policy_NewEngine []) (sample_request LevelLow 10 ''CRITICAL'' True) 0 0)) \<le>
     severity (rs_Decision (policy_Evaluate (policy_NewEngine (rev DefaultPolicies)) (sample_request LevelLow 10 ''CRITICAL'' True) 0 0))"
  using policies_only_tighten [of "[]" "rev DefaultPolicies" "sample_request LevelLow 10 ''CRITICAL'' True" 0 0 0 0]
  by (simp add: sample_request_def isSensitive_def EqualFold_def)

fun recommended_decision :: "Action \<Rightarrow> Decision" where
  "recommended_decision ActionAllow = DecisionAllow"
| "recommended_decision ActionAllowMonitor = DecisionAllowMonitor"
| "recommended_decision ActionVerify = DecisionVerify"
| "recommended_decision ActionStepUpMFA = DecisionStepUpMFA"
| "recommended_decision ActionRestrict = DecisionRestrict"
| "recommended_decision ActionIsolate = DecisionIsolate"

lemma default_applies:
  assumes "\<not> isSensitive (rq_ResourceSensitivity rq)"
    and "''UNATTESTED_SESSION'' \<notin> set (Codes (rq_Assessment rq))"
    and "ra_Level (rq_Assessment rq) = l" "l \<in> {LevelLow, LevelMedium, LevelElevated, LevelHigh, LevelCritical}"
  shows "\<exists>p \<in> set DefaultPolicies. applies rq p"
    and "\<forall>p \<in> set DefaultPolicies. applies rq p \<longrightarrow>
      ac_Decision (p_Actions p) = recommended_decision (RecommendedAction l)"
proof -
  have ns: "\<not> EqualFold ''SENSITIVE'' (rq_ResourceSensitivity rq)" "\<not> EqualFold ''CRITICAL'' (rq_ResourceSensitivity rq)"
    using assms(1) EqualFold_sym by (auto simp: isSensitive_def)
  have un: "''UNATTESTED_SESSION'' \<notin> rf_Code ` set (ra_Factors (rq_Assessment rq))"
    using assms(2) by (simp add: Codes_def)
  show "\<exists>p \<in> set DefaultPolicies. applies rq p"
    and "\<forall>p \<in> set DefaultPolicies. applies rq p \<longrightarrow>
      ac_Decision (p_Actions p) = recommended_decision (RecommendedAction l)"
    using assms(4) ns un
    by (cases l; simp add: DefaultPolicies_def default_policy_def any_conditions_def applies_def
        matches_def containsFold_def assms(3) EqualFold_def Let_def)+
qed

lemma default_decides:
  assumes "\<not> rq_Degraded rq" "\<not> isSensitive (rq_ResourceSensitivity rq)"
    and "''UNATTESTED_SESSION'' \<notin> set (Codes (rq_Assessment rq))"
    and "ra_Level (rq_Assessment rq) = l" "l \<in> {LevelLow, LevelMedium, LevelElevated, LevelHigh, LevelCritical}"
  shows "rs_Decision (policy_Evaluate (policy_NewEngine DefaultPolicies) rq t d) =
    recommended_decision (RecommendedAction l)"
proof -
  note d = default_applies [OF assms(2-5)]
  have en: "\<forall>p \<in> set DefaultPolicies. p_Enabled p"
    using DefaultPolicies_valid by (auto simp: list_all_iff)
  obtain p where "p \<in> set (policy_NewEngine DefaultPolicies)" "applies rq p" using d(1) en by auto
  from policy_Evaluate_cites [OF assms(1) this, of t d] d(2) show ?thesis
    by (auto simp: cites_def)
qed

text \<open>
  The shipped policies carry out the recommendation.  For an attested session that touches
  nothing sensitive, the decision under the default policies is the action the risk engine
  recommends for the assessed level.
\<close>

theorem defaults_follow_recommendation:
  assumes "\<not> rq_Degraded rq" "\<not> isSensitive (rq_ResourceSensitivity rq)"
    and "''UNATTESTED_SESSION'' \<notin> set (Codes (rq_Assessment rq))"
    and "ra_Level (rq_Assessment rq) = Thresholds_Level th n"
  shows "rs_Decision (policy_Evaluate (policy_NewEngine DefaultPolicies) rq t d) =
    recommended_decision (RecommendedAction (ra_Level (rq_Assessment rq)))"
proof -
  have "Thresholds_Level th n \<in> {LevelLow, LevelMedium, LevelElevated, LevelHigh, LevelCritical}"
    by (simp add: Thresholds_Level_def)
  from default_decides [OF assms this, of t d] show ?thesis by (simp add: assms(4))
qed

theorem defaults_follow_recommendation_witness:
  "rs_Decision (policy_Evaluate (policy_NewEngine DefaultPolicies)
     (sample_request (Thresholds_Level DefaultThresholds 90) 90 ''INTERNAL'' False) 0 0) = DecisionIsolate"
  using defaults_follow_recommendation
    [of "sample_request (Thresholds_Level DefaultThresholds 90) 90 ''INTERNAL'' False" DefaultThresholds 90 0 0]
  by (simp add: sample_request_def sample_assessment_def isSensitive_def EqualFold_def Codes_def
      Thresholds_Level_def DefaultThresholds_def Let_def)

definition denies_unattested :: "Policy \<Rightarrow> bool" where
  "denies_unattested p \<longleftrightarrow> p_Enabled p \<and> p_Conditions p = p_Conditions (last DefaultPolicies) \<and>
     p_Actions p = p_Actions (last DefaultPolicies)"

lemma unattested_code:
  assumes "\<not> in_SessionAttested i" "W_Identity (e_weights e) = Fin 1" "Evaluate e i = Some a"
  shows "''UNATTESTED_SESSION'' \<in> set (map rf_Code (ra_Factors a))"
proof -
  let ?s = "signal DimIdentity ''UNATTESTED_SESSION'' ''Session lacks device attestation''
              (Some ''established without cryptographic device proof'') (Fin 30)"
  have "0 < weighted (e_weights e) ?s"
    by (simp add: weighted_def assms(2) f64_to_int_def fits64_def)
  moreover have "?s \<in> set (all_signals i)"
    using assms(1) by (simp add: all_signals_def identitySignals_def)
  ultimately have "''UNATTESTED_SESSION'' \<in> set (map rf_Code (factors_of (e_weights e) (all_signals i)))"
    by (force simp: factors_of_def factor_of_def)
  then show ?thesis
    using assms(3) conclude_codes [of e i "factors_of (e_weights e) (all_signals i)"]
    by (simp add: Evaluate_eq split: if_splits)
qed

lemma unattested_rule_denies:
  assumes "''UNATTESTED_SESSION'' \<in> set (map rf_Code (ra_Factors (rq_Assessment rq)))" "\<not> rq_Degraded rq"
    and "p \<in> set ps" "denies_unattested p"
  shows "rs_Decision (policy_Evaluate (policy_NewEngine ps) rq t d) = DecisionDeny \<and>
    rs_CreateIncident (policy_Evaluate (policy_NewEngine ps) rq t d)"
proof -
  have p: "p_Enabled p" "ac_Decision (p_Actions p) = DecisionDeny" "ac_CreateIncident (p_Actions p)" "applies rq p"
    using assms(1,4) by (simp_all add: denies_unattested_def DefaultPolicies_def default_policy_def any_conditions_def
        applies_def matches_def Let_def)
  then have "p \<in> set (policy_NewEngine ps)" using assms(3) by simp
  from policy_Evaluate_severity [OF assms(2) this p(4), of t d] p(2)
  have "6 \<le> severity (rs_Decision (policy_Evaluate (policy_NewEngine ps) rq t d))"
    by (simp add: policy_severity_def)
  then have "rs_Decision (policy_Evaluate (policy_NewEngine ps) rq t d) = DecisionDeny"
    by (cases "rs_Decision (policy_Evaluate (policy_NewEngine ps) rq t d)") simp_all
  moreover have "rs_CreateIncident (policy_Evaluate (policy_NewEngine ps) rq t d)"
    using foldl_consider_flags [of rq "default_result t" "policy_NewEngine ps"]
      \<open>p \<in> set (policy_NewEngine ps)\<close> p(3,4)
    by (auto simp: policy_Evaluate_live [OF assms(2)])
  ultimately show ?thesis by blast
qed

text \<open>
  A session without device attestation is denied, end to end.  Whatever else is known about it,
  an unattested session assessed with an identity weight of one is denied with an incident by any
  policy set that includes the shipped rules, even where the clamping of the score has eaten up
  the contribution of the attestation factor.
\<close>

theorem unattested_session_denied:
  assumes "\<not> in_SessionAttested i" "W_Identity w = Fin 1"
    and "Evaluate (NewEngine w th) i = Some (rq_Assessment rq)" "\<not> rq_Degraded rq"
    and "set DefaultPolicies \<subseteq> set ps"
  shows "rs_Decision (policy_Evaluate (policy_NewEngine ps) rq t d) = DecisionDeny \<and>
    rs_CreateIncident (policy_Evaluate (policy_NewEngine ps) rq t d)"
proof (rule unattested_rule_denies [OF _ assms(4)])
  show "''UNATTESTED_SESSION'' \<in> set (map rf_Code (ra_Factors (rq_Assessment rq)))"
    by (rule unattested_code [OF assms(1) _ assms(3)]) (simp add: NewEngine_def assms(2))
  have "last DefaultPolicies \<in> set DefaultPolicies" by (simp add: DefaultPolicies_def)
  then show "last DefaultPolicies \<in> set ps" using assms(5) by (rule rev_subsetD)
  show "denies_unattested (last DefaultPolicies)"
    by (simp add: denies_unattested_def) (simp add: DefaultPolicies_def default_policy_def)
qed

theorem unattested_session_denied_witness:
  "\<exists>a. Evaluate (NewEngine DefaultWeights DefaultThresholds) alarming_inputs = Some a \<and>
     rs_Decision (policy_Evaluate (policy_NewEngine DefaultPolicies)
       \<lparr>rq_Assessment = a, rq_ResourceSensitivity = ''CRITICAL'', rq_ResourceID = None,
        rq_Degraded = False\<rparr> 0 0) = DecisionDeny"
proof -
  obtain a where a: "Evaluate (NewEngine DefaultWeights DefaultThresholds) alarming_inputs = Some a"
    using alarming_printable by (simp add: Evaluate_eq)
  then show ?thesis
    using unattested_session_denied [of alarming_inputs DefaultWeights DefaultThresholds
        "\<lparr>rq_Assessment = a, rq_ResourceSensitivity = ''CRITICAL'', rq_ResourceID = None, rq_Degraded = False\<rparr>"
        DefaultPolicies 0 0]
    by (simp add: alarming_inputs_def DefaultWeights_def)
qed

text \<open>
  A weight of zero switches the attestation rule off.  The weights that silence the identity
  dimension pass validation, and with them an unattested session of an otherwise ordinary user
  scores zero and is allowed by the shipped policies.
\<close>

theorem zero_identity_weight_allows_unattested:
  "let w = DefaultWeights\<lparr>W_Identity := Fin 0\<rparr>; i = quiet_inputs\<lparr>in_SessionAttested := False\<rparr>
   in Weights_Validate (weight_entries w) = None \<and>
     (\<exists>a. Evaluate (NewEngine w DefaultThresholds) i = Some a \<and> ra_Score a = 0 \<and>
        rs_Decision (policy_Evaluate (policy_NewEngine DefaultPolicies)
          \<lparr>rq_Assessment = a, rq_ResourceSensitivity = ''INTERNAL'', rq_ResourceID = None,
           rq_Degraded = False\<rparr> 0 0) = DecisionAllow)"
proof -
  let ?w = "DefaultWeights\<lparr>W_Identity := Fin 0\<rparr>" and ?i = "quiet_inputs\<lparr>in_SessionAttested := False\<rparr>"
  have v: "Weights_Validate (weight_entries ?w) = None"
    by (simp add: weight_entries_def DefaultWeights_def)
  have "printable ?i" by (rule printable_small) (simp_all add: quiet_inputs_def)
  moreover have "factors_of ?w (all_signals ?i) = []"
    by (simp add: all_signals_def identitySignals_def deviceSignals_def behaviourSignals_def
        networkSignals_def resourceSignals_def historySignals_def quiet_inputs_def time_Sub_def
        min_duration_def max_duration_def day_def hour_def minute_def factors_of_def weighted_def
        f64_to_int_def fits64_def)
  ultimately obtain a where a: "Evaluate (NewEngine ?w DefaultThresholds) ?i = Some a"
      "ra_Score a = 0" "ra_Factors a = []" "ra_Level a = LevelLow"
    by (simp add: Evaluate_eq NewEngine_def conclude_def tally_def sortFactors_def Thresholds_Level_def
        DefaultThresholds_def)
  let ?rq = "\<lparr>rq_Assessment = a, rq_ResourceSensitivity = ''INTERNAL'', rq_ResourceID = None,
    rq_Degraded = False\<rparr>"
  have "rs_Decision (policy_Evaluate (policy_NewEngine DefaultPolicies) ?rq 0 0) =
      recommended_decision (RecommendedAction LevelLow)"
    by (rule default_decides) (simp_all add: a Codes_def isSensitive_def EqualFold_def Let_def)
  with v a show ?thesis by (simp add: Let_def)
qed

text \<open>
  C37: versions are immutable and consecutive.  In every table that policy creation can produce, the
  versions of a policy are exactly 1 to n without repetition; a further creation that succeeds keeps
  every row, appends one, and gives it version n + 1, so a cited version always exists.
\<close>

theorem policy_versions_immutable:
  assumes "policy_db_reachable db" "Create_policy ident now fs p by_user db = (res, db')"
  shows "(\<forall>pid. distinct (versions_of pid db) \<and> set (versions_of pid db) = {1..int (length (versions_of pid db))}) \<and>
    (case res of
       Inl e \<Rightarrow> db' = db
     | Inr row \<Rightarrow> db' = db @ [row] \<and> Policy_Validate p = None \<and> p_PolicyID row = p_PolicyID p \<and>
         p_Conditions row = p_Conditions p \<and> p_Actions row = p_Actions p \<and>
         p_Version row = int (length (versions_of (p_PolicyID p) db)) + 1)"
proof -
  have ok: "versions_ok db" using reachable_versions_ok [OF assms(1)] .
  from Create_policy_cases [OF assms(2)] show ?thesis
  proof (elim disjE exE conjE)
    fix row assume "res = Inr row" "db' = db @ [row]" "Policy_Validate p = None"
      "row = p\<lparr>p_ID := ident, p_Version := next_version (p_PolicyID p) db,
         p_CreatedBy := by_user, p_CreatedAt := now\<rparr>"
    then show ?thesis using ok next_version_eq [OF ok, of "p_PolicyID p"] by (simp add: versions_ok_def)
  qed (use ok in \<open>simp add: versions_ok_def\<close>)
qed

theorem policy_versions_immutable_witness:
  "\<exists>row db'. Create_policy 9 0 [] (hd DefaultPolicies) None [] = (Inr row, db') \<and> p_Version row = 1"
proof -
  have v: "Policy_Validate (hd DefaultPolicies) = None" "fits16 (p_Priority (hd DefaultPolicies))"
    using DefaultPolicies_valid by (simp_all add: DefaultPolicies_def list_all_iff)
  obtain row db' where c: "Create_policy 9 0 [] (hd DefaultPolicies) None [] = (Inr row, db')"
    using v by (simp add: Create_policy_def Let_def)
  from policy_versions_immutable [OF policy_db_reachable.empty c] c show ?thesis by auto
qed

text \<open>
  What is in force.  The active set has one row per policy that has any enabled version, and it
  is the enabled version with the highest number.  Therefore creating a disabled version of a
  policy changes nothing: an enabled older version stays in force, and no operation retires it.
\<close>

theorem active_is_highest_enabled:
  assumes "Active_policies [] db = Inr ps"
  shows "distinct (map p_PolicyID ps) \<and>
    (\<forall>p \<in> set ps. p \<in> set db \<and> p_Enabled p \<and>
       (\<forall>q \<in> set db. p_Enabled q \<and> p_PolicyID q = p_PolicyID p \<longrightarrow> p_Version q \<le> p_Version p)) \<and>
    (\<forall>q \<in> set db. p_Enabled q \<longrightarrow> p_PolicyID q \<in> p_PolicyID ` set ps) \<and>
    (\<forall>ident now fs p by_user. \<not> p_Enabled p \<longrightarrow>
       Active_policies [] (snd (Create_policy ident now fs p by_user db)) = Inr ps)"
proof -
  have "Active_policies [] (snd (Create_policy ident now fs p by_user db)) = Inr ps"
    if "\<not> p_Enabled p" for ident now fs p by_user
    using that assms Create_policy_cases [of ident now fs p by_user db]
    by (cases "Create_policy ident now fs p by_user db") (auto simp: Active_policies_def)
  then show ?thesis using Active_policies_spec [OF assms] by (auto simp: image_iff) metis
qed

theorem active_is_highest_enabled_witness:
  "\<exists>ps. Active_policies [] DefaultPolicies = Inr ps \<and> distinct (map p_PolicyID ps)"
proof -
  obtain ps where ps: "Active_policies [] DefaultPolicies = Inr ps" by (simp add: Active_policies_def)
  with active_is_highest_enabled [OF ps] show ?thesis by blast
qed

definition seeded :: "(nat \<Rightarrow> uuid) \<Rightarrow> time \<Rightarrow> nat \<Rightarrow> Policy list \<Rightarrow> Policy list" where
  "seeded idents now k ps =
     map (\<lambda>(n, p). p\<lparr>p_ID := idents n, p_Version := 1, p_CreatedBy := None, p_CreatedAt := now\<rparr>)
       (zip [k..<k + length ps] ps)"

lemma seeded_ids [simp]: "map p_PolicyID (seeded idents now k ps) = map p_PolicyID ps"
  by (rule nth_equalityI) (simp_all add: seeded_def)

lemma seeded_Nil [simp]: "seeded idents now k [] = []"
  by (simp add: seeded_def)

lemma seeded_Cons [simp]:
  "seeded idents now k (p # ps) =
     p\<lparr>p_ID := idents k, p_Version := 1, p_CreatedBy := None, p_CreatedAt := now\<rparr> #
     seeded idents now (Suc k) ps"
proof -
  have "[k..<k + length (p # ps)] = k # [Suc k..<Suc k + length ps]" by (simp add: upt_conv_Cons del: upt_Suc)
  then show ?thesis by (simp add: seeded_def del: upt_Suc)
qed

lemma seed_append:
  assumes "list_all (\<lambda>p. Policy_Validate p = None \<and> fits16 (p_Priority p) \<and> p_Enabled p) ps"
    and "distinct (map p_PolicyID ps)" "set (map p_PolicyID ps) \<inter> set (map p_PolicyID db) = {}"
    and "\<forall>j. k \<le> j \<and> j < k + length ps \<longrightarrow> fc j = []"
  shows "seed idents now fc k (ps @ qs) db =
    seed idents now fc (k + length ps) qs (db @ seeded idents now k ps)"
  using assms
proof (induction ps arbitrary: k db)
  case (Cons p ps)
  let ?row = "p\<lparr>p_ID := idents k, p_Version := 1, p_CreatedBy := None, p_CreatedAt := now\<rparr>"
  have "\<forall>q \<in> set db. p_PolicyID q \<noteq> p_PolicyID p"
    using Cons.prems(3) by (auto simp: image_iff)
  then have "filter (\<lambda>q. p_PolicyID q = p_PolicyID p) db = []" by (simp add: filter_empty_conv)
  then have "Create_policy (idents k) now (fc k) p None db = (Inr ?row, db @ [?row])"
    using Cons.prems(1,4) by (simp add: Create_policy_def next_version_def Let_def)
  moreover have "seed idents now fc (Suc k) (ps @ qs) (db @ [?row]) =
      seed idents now fc (Suc k + length ps) qs ((db @ [?row]) @ seeded idents now (Suc k) ps)"
    using Cons.prems by (intro Cons.IH) auto
  ultimately show ?case by simp
qed simp

lemma EnsureDefaults_again: "db \<noteq> [] \<Longrightarrow> EnsureDefaults idents now [] fc db = (0, None, db)"
  by (simp add: EnsureDefaults_def All_policies_def)

lemma EnsureDefaults_seed:
  assumes "DefaultPolicies = ps @ qs" "\<forall>j < length ps. fc j = []"
  shows "EnsureDefaults idents now [] fc [] = seed idents now fc (length ps) qs (seeded idents now 0 ps)"
proof -
  have "distinct (map p_PolicyID (ps @ qs))"
      "list_all (\<lambda>p. Policy_Validate p = None \<and> fits16 (p_Priority p) \<and> p_Enabled p) (ps @ qs)"
    using DefaultPolicies_distinct DefaultPolicies_valid unfolding assms(1) .
  then show ?thesis
    using seed_append [of ps "[]" 0 fc idents now qs] assms(2)
    by (simp add: EnsureDefaults_def All_policies_def assms(1))
qed

text \<open>
  Seeding the shipped policies.  On an empty table and without faults all eight are stored as
  version 1 in order, and running it again, as every start of the process does, changes nothing.
\<close>

theorem ensure_defaults:
  "let db = snd (snd (EnsureDefaults idents now [] (\<lambda>_. []) [])) in
     EnsureDefaults idents now [] (\<lambda>_. []) [] = (8, None, db) \<and>
     map p_PolicyID db = map p_PolicyID DefaultPolicies \<and> map p_Actions db = map p_Actions DefaultPolicies \<and>
     map p_Conditions db = map p_Conditions DefaultPolicies \<and>
     EnsureDefaults idents' now' [] fc' db = (0, None, db)"
proof -
  let ?db = "seeded idents now 0 DefaultPolicies"
  have len: "length DefaultPolicies = 8" by (simp add: DefaultPolicies_def)
  then have e: "EnsureDefaults idents now [] (\<lambda>_. []) [] = (8, None, ?db)"
    using EnsureDefaults_seed [of DefaultPolicies "[]" "\<lambda>_. []" idents now] by simp
  have "?db \<noteq> []" using len by (auto simp: seeded_def)
  moreover have "map p_Actions ?db = map p_Actions DefaultPolicies"
      "map p_Conditions ?db = map p_Conditions DefaultPolicies"
    by (rule nth_equalityI; simp add: seeded_def)+
  ultimately show ?thesis using EnsureDefaults_again by (simp add: e)
qed

text \<open>
  A first boot that fails half way is never repaired.  When the last of the eight insertions
  fails, the error is returned, but the table is no longer empty, so no later start adds the
  missing rule, the one that denies sessions without device attestation.
\<close>

theorem partial_seeding_is_permanent:
  "let (n, e, db) = EnsureDefaults idents now [] (\<lambda>k. if k = 7 then [''create policy''] else []) [] in
     n = 7 \<and> e = Some (ErrPolicyDB ''create policy'') \<and> ''unattested-session'' \<notin> p_PolicyID ` set db \<and>
     EnsureDefaults idents' now' [] fc' db = (0, None, db)"
proof -
  let ?ps = "take 7 DefaultPolicies" and ?p = "DefaultPolicies ! 7"
  let ?db = "seeded idents now 0 ?ps"
  have len: "length ?ps = 7" by (simp add: DefaultPolicies_def)
  have split: "DefaultPolicies = ?ps @ [?p]" by (simp add: DefaultPolicies_def)
  have "?p \<in> set DefaultPolicies" by (metis in_set_conv_decomp split)
  then have "Policy_Validate ?p = None" using DefaultPolicies_valid by (auto simp: list_all_iff)
  then have e: "EnsureDefaults idents now [] (\<lambda>k. if k = 7 then [''create policy''] else []) [] =
      (7, Some (ErrPolicyDB ''create policy''), ?db)"
    using EnsureDefaults_seed [OF split, of "\<lambda>k. if k = 7 then [''create policy''] else []" idents now] len
    by (simp add: Create_policy_def fault_def)
  have "p_PolicyID ` set ?db = set (map p_PolicyID ?ps)" by (metis seeded_ids set_map)
  then have "''unattested-session'' \<notin> p_PolicyID ` set ?db"
    by (simp add: DefaultPolicies_def default_policy_def)
  moreover have "?db \<noteq> []" using len by (auto simp: seeded_def)
  ultimately show ?thesis using EnsureDefaults_again by (simp add: e)
qed

end
