(* ===== verification/AuditLog.thy ===== *)
theory AuditLog
  imports Slices
begin

section \<open>Audit: a log in which every entry commits to its predecessor\<close>

text \<open>
  Package \<^verbatim>\<open>internal/audit\<close>: \<^verbatim>\<open>audit.go\<close> (entries, hashes, chain verification) and \<^verbatim>\<open>store.go\<close> (the
  append under an advisory lock, paged reading and verification).

  A byte string is a \<^typ>\<open>string\<close>; a nil and an empty slice are the same value.  Parameters of the
  model are \<open>sha\<close> (SHA-256), \<open>enc\<close> (the JSON text of the canonical structure, \<open>None\<close> when a detail
  cannot be encoded), \<open>inet\<close> (what PostgreSQL's \<^verbatim>\<open>host\<close> returns for an address stored in an INET
  column, \<open>None\<close> when it rejects the text) and \<open>jsonb\<close> (a detail read back from a JSONB column).
  The values in a detail are opaque.  An append is one transaction under a lock, so appends are
  sequential; identity values are consumed even when a transaction does not commit.
\<close>

subsection \<open>audit.go: entries\<close>

datatype ActorType = ActorUser | ActorDevice | ActorSystem | ActorSimulator | ActorOther string

datatype audit_Result = ResultSuccess | ResultDenied | ResultFailure | ResultOther string

definition ActionAuthenticate :: string where "ActionAuthenticate = ''auth.authenticate''"
definition ActionAuthorizationDeny :: string where "ActionAuthorizationDeny = ''auth.authorization_denied''"
definition ActionDevTokenIssued :: string where "ActionDevTokenIssued = ''auth.dev_token_issued''"
definition ActionDeviceEnroll :: string where "ActionDeviceEnroll = ''device.enroll''"
definition ActionDeviceHeartbeat :: string where "ActionDeviceHeartbeat = ''device.heartbeat''"
definition ActionDeviceRevoke :: string where "ActionDeviceRevoke = ''device.revoke''"
definition ActionEnrollTokenIssue :: string where "ActionEnrollTokenIssue = ''device.enrollment_token_issued''"
definition ActionAuditRead :: string where "ActionAuditRead = ''audit.read''"
definition ActionSessionBegin :: string where "ActionSessionBegin = ''session.begin''"
definition ActionSessionEnd :: string where "ActionSessionEnd = ''session.end''"
definition ActionPostureRejected :: string where "ActionPostureRejected = ''device.posture_rejected''"
definition ActionPolicyCreated :: string where "ActionPolicyCreated = ''policy.created''"
definition ActionIncidentUpdated :: string where "ActionIncidentUpdated = ''incident.status_changed''"
definition ActionScenarioRun :: string where "ActionScenarioRun = ''demo.scenario_run''"

type_synonym 'v detail = "(string \<times> 'v) list"

record 'v audit_Entry =
  ae_At :: time
  ae_ActorType :: ActorType
  ae_ActorID :: string
  ae_Action :: string
  ae_TargetType :: string
  ae_TargetID :: string
  ae_Result :: audit_Result
  ae_RequestID :: string
  ae_SourceIP :: string
  ae_Detail :: "'v detail option"

record 'v audit_Record =
  ar_Seq :: int
  ar_Entry :: "'v audit_Entry"
  ar_PrevHash :: string
  ar_Hash :: string

text \<open>\<open>canonical\<close> is the structure whose JSON text is hashed; its timestamp is printed by the encoder.\<close>

record 'v canonical =
  ca_At :: time
  ca_ActorType :: ActorType
  ca_ActorID :: string
  ca_Action :: string
  ca_TargetType :: string
  ca_TargetID :: string
  ca_Result :: audit_Result
  ca_RequestID :: string
  ca_SourceIP :: string
  ca_Detail :: "'v detail option"

definition Normalize :: "'v audit_Entry \<Rightarrow> 'v audit_Entry" where
  "Normalize e =
     (let e = e\<lparr>ae_At := time_Truncate_us (ae_At e)\<rparr>;
          e = (if ae_Detail e = None then e\<lparr>ae_Detail := Some []\<rparr> else e)
      in if ae_Result e = ResultOther [] then e\<lparr>ae_Result := ResultSuccess\<rparr> else e)"

definition canonical_of :: "'v audit_Entry \<Rightarrow> 'v canonical" where
  "canonical_of n = \<lparr>ca_At = ae_At n, ca_ActorType = ae_ActorType n, ca_ActorID = ae_ActorID n,
     ca_Action = ae_Action n, ca_TargetType = ae_TargetType n, ca_TargetID = ae_TargetID n,
     ca_Result = ae_Result n, ca_RequestID = ae_RequestID n, ca_SourceIP = ae_SourceIP n,
     ca_Detail = ae_Detail n\<rparr>"

definition CanonicalBytes :: "('v canonical \<Rightarrow> string option) \<Rightarrow> 'v audit_Entry \<Rightarrow> string option" where
  "CanonicalBytes enc e = enc (canonical_of (Normalize e))"

definition ComputeHash ::
  "(string \<Rightarrow> string) \<Rightarrow> ('v canonical \<Rightarrow> string option) \<Rightarrow> string \<Rightarrow> 'v audit_Entry \<Rightarrow> string option" where
  "ComputeHash sha enc prevHash e =
     (case CanonicalBytes enc e of None \<Rightarrow> None | Some body \<Rightarrow> Some (sha (prevHash @ body)))"

subsection \<open>audit.go: verification\<close>

datatype chain_reason = NotAscending | PrevMismatch | Unencodable | ContentMismatch

datatype audit_error = ChainError int chain_reason | ErrActionRequired | ErrEncodeEntry | ErrAuditDB string

definition equalHash :: "string \<Rightarrow> string \<Rightarrow> bool" where
  "equalHash a b \<longleftrightarrow>
     (if length a = 0 \<and> length b = 0 then True
      else if length a \<noteq> length b then False
      else list_all2 (=) a b)"

text \<open>\<open>before\<close> is the sequence number of the preceding record of the slice, if there is one.\<close>

fun verify_loop ::
  "(string \<Rightarrow> string) \<Rightarrow> ('v canonical \<Rightarrow> string option) \<Rightarrow> int option \<Rightarrow> string \<Rightarrow> 'v audit_Record list \<Rightarrow>
   audit_error option" where
  "verify_loop sha enc before prev [] = None"
| "verify_loop sha enc before prev (r # rs) =
     (if (case before of None \<Rightarrow> False | Some s \<Rightarrow> ar_Seq r \<le> s) then Some (ChainError (ar_Seq r) NotAscending)
      else if \<not> equalHash (ar_PrevHash r) prev then Some (ChainError (ar_Seq r) PrevMismatch)
      else case ComputeHash sha enc prev (ar_Entry r) of
             None \<Rightarrow> Some (ChainError (ar_Seq r) Unencodable)
           | Some want \<Rightarrow>
               if \<not> equalHash (ar_Hash r) want then Some (ChainError (ar_Seq r) ContentMismatch)
               else verify_loop sha enc (Some (ar_Seq r)) (ar_Hash r) rs)"

definition VerifyChainFrom ::
  "(string \<Rightarrow> string) \<Rightarrow> ('v canonical \<Rightarrow> string option) \<Rightarrow> string \<Rightarrow> 'v audit_Record list \<Rightarrow> audit_error option" where
  "VerifyChainFrom sha enc prev records = verify_loop sha enc None prev records"

definition VerifyChain ::
  "(string \<Rightarrow> string) \<Rightarrow> ('v canonical \<Rightarrow> string option) \<Rightarrow> 'v audit_Record list \<Rightarrow> audit_error option" where
  "VerifyChain sha enc records = VerifyChainFrom sha enc [] records"

subsection \<open>store.go\<close>

record 'v audit_db =
  au_rows :: "'v audit_Record list"
  au_next :: int

definition by_seq :: "'v audit_Record list \<Rightarrow> 'v audit_Record list" where
  "by_seq = SliceStable (\<lambda>a b. ar_Seq a < ar_Seq b)"

definition chain_head :: "'v audit_Record list \<Rightarrow> string" where
  "chain_head rows = (case rev (by_seq rows) of [] \<Rightarrow> [] | r # _ \<Rightarrow> ar_Hash r)"

definition actor_known :: "ActorType \<Rightarrow> bool" where
  "actor_known a \<longleftrightarrow> a \<in> {ActorUser, ActorDevice, ActorSystem, ActorSimulator}"

text \<open>What the table holds for an entry, and a later \<^verbatim>\<open>SELECT\<close> returns.\<close>

definition stored_entry ::
  "(string \<Rightarrow> string option) \<Rightarrow> ('v detail \<Rightarrow> 'v detail) \<Rightarrow> 'v audit_Entry \<Rightarrow> 'v audit_Entry option" where
  "stored_entry inet jsonb e =
     (if \<not> actor_known (ae_ActorType e) then None
      else case (if ae_SourceIP e = [] then Some [] else inet (ae_SourceIP e)) of
             None \<Rightarrow> None
           | Some ip \<Rightarrow> Some (e\<lparr>ae_SourceIP := ip, ae_Detail := map_option jsonb (ae_Detail e)\<rparr>))"

definition audit_Record_op ::
  "(string \<Rightarrow> string) \<Rightarrow> ('v canonical \<Rightarrow> string option) \<Rightarrow> (string \<Rightarrow> string option) \<Rightarrow>
   ('v detail \<Rightarrow> 'v detail) \<Rightarrow> time \<Rightarrow> faults \<Rightarrow> 'v audit_Entry \<Rightarrow> 'v audit_db \<Rightarrow>
   audit_error option \<times> 'v audit_db" where
  "audit_Record_op sha enc inet jsonb now fs entry db =
     (let entry = (if time_IsZero (ae_At entry) then entry\<lparr>ae_At := now\<rparr> else entry);
          entry = Normalize entry
      in if ae_Action entry = [] \<or> ae_ActorType entry = ActorOther [] then (Some ErrActionRequired, db)
         else if fault fs ''begin audit transaction'' then (Some (ErrAuditDB ''begin audit transaction''), db)
         else if fault fs ''lock audit chain'' then (Some (ErrAuditDB ''lock audit chain''), db)
         else if fault fs ''read audit chain head'' then (Some (ErrAuditDB ''read audit chain head''), db)
         else
           (let prevHash = chain_head (au_rows db)
            in case ComputeHash sha enc prevHash entry of
                 None \<Rightarrow> (Some ErrEncodeEntry, db)
               | Some hash \<Rightarrow>
                   if fault fs ''insert audit record'' then (Some (ErrAuditDB ''insert audit record''), db)
                   else
                     (let spent = db\<lparr>au_next := au_next db + 1\<rparr>
                      in case stored_entry inet jsonb entry of
                           None \<Rightarrow> (Some (ErrAuditDB ''insert audit record''), spent)
                         | Some e \<Rightarrow>
                             if fault fs ''commit'' then (Some (ErrAuditDB ''commit''), spent)
                             else (None, spent\<lparr>au_rows := au_rows db @
                               [\<lparr>ar_Seq = au_next db, ar_Entry = e, ar_PrevHash = prevHash, ar_Hash = hash\<rparr>]\<rparr>))))"

definition List_records :: "faults \<Rightarrow> int \<Rightarrow> int \<Rightarrow> 'v audit_Record list \<Rightarrow> audit_error + 'v audit_Record list" where
  "List_records fs afterSeq limit rows =
     (if fault fs ''query audit log'' then Inl (ErrAuditDB ''query audit log'')
      else if fault fs ''scan audit record'' then Inl (ErrAuditDB ''scan audit record'')
      else Inr (take (page_limit 1000 100 limit) (by_seq (filter (\<lambda>r. ar_Seq r > afterSeq) rows))))"

lemma set_by_seq [simp]: "set (by_seq rs) = set rs"
  by (simp add: by_seq_def)

text \<open>\<open>fs a\<close> are the faults of the page read after sequence number \<open>a\<close>.\<close>

function Verify_from ::
  "(string \<Rightarrow> string) \<Rightarrow> ('v canonical \<Rightarrow> string option) \<Rightarrow> (int \<Rightarrow> faults) \<Rightarrow> int \<Rightarrow> string \<Rightarrow>
   'v audit_Record list \<Rightarrow> audit_error option" where
  "Verify_from sha enc fs after prev rows =
     (case List_records (fs after) after 500 rows of
        Inl e \<Rightarrow> Some e
      | Inr records \<Rightarrow>
          if records = [] then None
          else case VerifyChainFrom sha enc prev records of
                 Some e \<Rightarrow> Some e
               | None \<Rightarrow> Verify_from sha enc fs (ar_Seq (last records)) (ar_Hash (last records)) rows)"
  by pat_completeness auto
termination
proof (relation "measure (\<lambda>(sha, enc, fs, after, prev, rows). length (filter (\<lambda>r. ar_Seq r > after) rows))", goal_cases)
  case (2 sha enc fs after prev rows records)
  have "set records \<subseteq> set (filter (\<lambda>r. ar_Seq r > after) rows)"
    using 2(1) by (auto simp: List_records_def split: if_splits dest: in_set_takeD)
  moreover have "last records \<in> set records" using 2(2) by simp
  ultimately have r: "last records \<in> set rows" "after < ar_Seq (last records)" by auto
  have "filter (\<lambda>r. ar_Seq r > ar_Seq (last records)) rows =
      filter (\<lambda>r. ar_Seq r > ar_Seq (last records)) (filter (\<lambda>r. ar_Seq r > after) rows)"
    using r(2) by (induction rows) auto
  also have "length \<dots> < length (filter (\<lambda>r. ar_Seq r > after) rows)"
    using r by (intro length_filter_less [of "last records"]) auto
  finally show ?case by simp
qed simp

definition Verify ::
  "(string \<Rightarrow> string) \<Rightarrow> ('v canonical \<Rightarrow> string option) \<Rightarrow> (int \<Rightarrow> faults) \<Rightarrow> 'v audit_Record list \<Rightarrow>
   audit_error option" where
  "Verify sha enc fs rows = Verify_from sha enc fs 0 [] rows"

declare Verify_from.simps [simp del]

text \<open>\<open>Log\<close> swallows the error of a recorder, which is absent in some configurations.\<close>

definition Log ::
  "('v audit_Entry \<Rightarrow> 'v audit_db \<Rightarrow> audit_error option \<times> 'v audit_db) option \<Rightarrow> 'v audit_Entry \<Rightarrow>
   'v audit_db \<Rightarrow> 'v audit_db" where
  "Log recorder entry db = (case recorder of None \<Rightarrow> db | Some rec \<Rightarrow> snd (rec entry db))"

subsection \<open>Chains\<close>

interpretation seq_order: slice_order "\<lambda>a b. ar_Seq a < ar_Seq b"
  by unfold_locales auto

lemma equalHash_iff [simp]: "equalHash a b \<longleftrightarrow> a = b"
  by (auto simp: equalHash_def list.rel_eq)

lemma Normalize_idem [simp]: "Normalize (Normalize e) = Normalize e"
  by (cases e) (simp add: Normalize_def Let_def)

lemma CanonicalBytes_Normalize [simp]: "CanonicalBytes enc (Normalize e) = CanonicalBytes enc e"
  by (simp add: CanonicalBytes_def)

text \<open>What a slice that verifies looks like.\<close>

fun chain_ok ::
  "(string \<Rightarrow> string) \<Rightarrow> ('v canonical \<Rightarrow> string option) \<Rightarrow> int option \<Rightarrow> string \<Rightarrow> 'v audit_Record list \<Rightarrow> bool" where
  "chain_ok sha enc before prev [] \<longleftrightarrow> True"
| "chain_ok sha enc before prev (r # rs) \<longleftrightarrow>
     (\<forall>s. before = Some s \<longrightarrow> s < ar_Seq r) \<and> ar_PrevHash r = prev \<and>
     ComputeHash sha enc prev (ar_Entry r) = Some (ar_Hash r) \<and>
     chain_ok sha enc (Some (ar_Seq r)) (ar_Hash r) rs"

lemma verify_loop_None: "verify_loop sha enc before prev rs = None \<longleftrightarrow> chain_ok sha enc before prev rs"
  by (induction rs arbitrary: before prev) (auto split: option.splits)

definition last_seq :: "int option \<Rightarrow> 'v audit_Record list \<Rightarrow> int option" where
  "last_seq before rs = (if rs = [] then before else Some (ar_Seq (last rs)))"

definition last_hash :: "string \<Rightarrow> 'v audit_Record list \<Rightarrow> string" where
  "last_hash prev rs = (if rs = [] then prev else ar_Hash (last rs))"

lemma last_simps [simp]:
  "last_seq b [] = b" "last_seq b (r # rs) = last_seq (Some (ar_Seq r)) rs"
  "last_hash p [] = p" "last_hash p (r # rs) = last_hash (ar_Hash r) rs"
  by (auto simp: last_seq_def last_hash_def)

lemma verify_loop_append:
  "verify_loop sha enc b p (xs @ ys) =
     (case verify_loop sha enc b p xs of
        Some e \<Rightarrow> Some e | None \<Rightarrow> verify_loop sha enc (last_seq b xs) (last_hash p xs) ys)"
  by (induction xs arbitrary: b p) (auto split: option.splits)

lemma chain_ok_append:
  "chain_ok sha enc b p (xs @ ys) \<longleftrightarrow>
     chain_ok sha enc b p xs \<and> chain_ok sha enc (last_seq b xs) (last_hash p xs) ys"
  by (induction xs arbitrary: b p) auto

text \<open>The check of the first record against a predecessor is redundant in ascending slices.\<close>

lemma verify_loop_start:
  "\<forall>r \<in> set rs. \<forall>s. b = Some s \<longrightarrow> s < ar_Seq r \<Longrightarrow> verify_loop sha enc b p rs = verify_loop sha enc None p rs"
  by (cases rs) (auto split: option.split)

lemma chain_ok_ascending:
  "chain_ok sha enc b p rs \<Longrightarrow> sorted_wrt (\<lambda>x y. ar_Seq x < ar_Seq y) rs \<and>
     (\<forall>s. b = Some s \<longrightarrow> (\<forall>r \<in> set rs. s < ar_Seq r))"
proof (induction rs arbitrary: b p)
  case (Cons r rs)
  then have "sorted_wrt (\<lambda>x y. ar_Seq x < ar_Seq y) rs" "\<forall>x \<in> set rs. ar_Seq r < ar_Seq x" by auto
  then show ?case using Cons.prems by (auto intro: less_trans)
qed simp

subsection \<open>Reading page by page\<close>

definition rows_ok :: "'v audit_Record list \<Rightarrow> bool" where
  "rows_ok rows \<longleftrightarrow> distinct (map ar_Seq rows) \<and> (\<forall>r \<in> set rows. 0 < ar_Seq r)"

lemma by_seq_ascending:
  assumes "distinct (map ar_Seq rs)" shows "sorted_wrt (\<lambda>x y. ar_Seq x < ar_Seq y) (by_seq rs)"
proof -
  have "mset (map ar_Seq (by_seq rs)) = mset (map ar_Seq rs)" by (simp add: by_seq_def)
  then have d: "distinct (map ar_Seq (by_seq rs))" using assms by (metis mset_eq_imp_distinct_iff)
  have "sorted_wrt (\<lambda>x y. ar_Seq x \<le> ar_Seq y) (by_seq rs)"
    using seq_order.SliceStable_sorted [of rs] by (simp add: by_seq_def not_less)
  then have "sorted_wrt (\<le>) (map ar_Seq (by_seq rs))" by (simp add: sorted_wrt_map)
  with d have "sorted_wrt (<) (map ar_Seq (by_seq rs))" by (simp add: strict_sorted_iff)
  then show ?thesis by (simp add: sorted_wrt_map)
qed

lemma by_seq_id: "sorted_wrt (\<lambda>x y. ar_Seq x < ar_Seq y) rs \<Longrightarrow> by_seq rs = rs"
  unfolding by_seq_def
  by (rule seq_order.SliceStable_id) (auto elim: sorted_wrt_mono_rel [rotated])

text \<open>Restricting to what comes after a record of the sorted table drops a prefix of it.\<close>

lemma by_seq_after:
  assumes "distinct (map ar_Seq rows)" "by_seq rows = xs @ ys" "xs \<noteq> []"
  shows "by_seq (filter (\<lambda>r. ar_Seq r > ar_Seq (last xs)) rows) = ys"
proof -
  have asc: "sorted_wrt (\<lambda>x y. ar_Seq x < ar_Seq y) (xs @ ys)"
    using by_seq_ascending [OF assms(1)] assms(2) by simp
  have "filter (\<lambda>r. ar_Seq r > ar_Seq (last xs)) xs = []"
  proof -
    have "ar_Seq x \<le> ar_Seq (last xs)" if "x \<in> set xs" for x
      using asc that assms(3)
      by (cases xs rule: rev_cases) (auto simp: sorted_wrt_append intro: less_imp_le)
    then show ?thesis by (auto simp: filter_empty_conv not_less)
  qed
  moreover have "filter (\<lambda>r. ar_Seq r > ar_Seq (last xs)) ys = ys"
    using asc assms(3) by (auto simp: sorted_wrt_append intro!: filter_True)
  ultimately have f: "filter (\<lambda>r. ar_Seq r > ar_Seq (last xs)) (by_seq rows) = ys"
    by (simp add: assms(2))
  have "by_seq (filter (\<lambda>r. ar_Seq r > ar_Seq (last xs)) rows) = by_seq ys"
    unfolding by_seq_def
  proof (rule seq_order.SliceStable_perm)
    show "mset (filter (\<lambda>r. ar_Seq (last xs) < ar_Seq r) rows) = mset ys"
      using arg_cong [OF f, of mset] by (simp add: mset_filter by_seq_def)
    fix x y assume "x \<in> set (filter (\<lambda>r. ar_Seq (last xs) < ar_Seq r) rows)"
      "y \<in> set (filter (\<lambda>r. ar_Seq (last xs) < ar_Seq r) rows)" "x \<noteq> y"
    then have "ar_Seq x \<noteq> ar_Seq y" using assms(1) by (auto simp: distinct_map inj_on_def)
    then show "ar_Seq x < ar_Seq y \<or> ar_Seq y < ar_Seq x" by auto
  qed
  also have "\<dots> = ys" using asc by (intro by_seq_id) (simp add: sorted_wrt_append)
  finally show ?thesis .
qed

lemma Verify_from_suffix:
  assumes "distinct (map ar_Seq rows)" "by_seq rows = xs @ ys"
    and "by_seq (filter (\<lambda>r. ar_Seq r > after) rows) = ys" "last_hash [] xs = prev"
  shows "Verify_from sha enc (\<lambda>_. []) after prev rows = VerifyChainFrom sha enc prev ys"
  using assms
proof (induction "length ys" arbitrary: xs ys after prev rule: less_induct)
  case less
  let ?p = "take 500 ys" and ?q = "drop 500 ys"
  have list: "List_records [] after 500 rows = Inr ?p"
    using less.prems(3) by (simp add: List_records_def page_limit_def)
  show ?case
  proof (cases "ys = []")
    case True
    then show ?thesis using list by (simp add: Verify_from.simps [of sha enc _ after] VerifyChainFrom_def)
  next
    case False
    then have ne: "?p \<noteq> []" by simp
    have "by_seq rows = (xs @ ?p) @ ?q" using less.prems(2) by simp
    moreover have "by_seq (filter (\<lambda>r. ar_Seq r > ar_Seq (last ?p)) rows) = ?q"
      using by_seq_after [OF less.prems(1), of "xs @ ?p" ?q] less.prems(2) ne by (simp add: last_append)
    ultimately have ih: "Verify_from sha enc (\<lambda>_. []) (ar_Seq (last ?p)) (ar_Hash (last ?p)) rows =
        VerifyChainFrom sha enc (ar_Hash (last ?p)) ?q"
      using False ne less.prems(1) by (intro less.hyps [of _ "xs @ ?p"]) (auto simp: last_hash_def)
    have asc: "sorted_wrt (\<lambda>x y. ar_Seq x < ar_Seq y) (?p @ ?q)"
      using by_seq_ascending [OF less.prems(1)] less.prems(2) by (simp add: sorted_wrt_append)
    then have "\<forall>r \<in> set ?q. ar_Seq (last ?p) < ar_Seq r"
      using ne last_in_set [OF ne] unfolding sorted_wrt_append by blast
    then have "verify_loop sha enc (last_seq None ?p) (last_hash prev ?p) ?q =
        VerifyChainFrom sha enc (ar_Hash (last ?p)) ?q"
      using ne verify_loop_start [of ?q "Some (ar_Seq (last ?p))"]
      by (simp add: VerifyChainFrom_def last_seq_def last_hash_def)
    then have "VerifyChainFrom sha enc prev (?p @ ?q) =
        (case VerifyChainFrom sha enc prev ?p of Some e \<Rightarrow> Some e
         | None \<Rightarrow> VerifyChainFrom sha enc (ar_Hash (last ?p)) ?q)"
      unfolding VerifyChainFrom_def [of _ _ prev] verify_loop_append by (simp only:)
    then show ?thesis
      unfolding Verify_from.simps [of sha enc _ after] list sum.case append_take_drop_id ih
      using ne by (simp only: if_False)
  qed
qed

lemma Verify_paged:
  assumes "rows_ok rows" shows "Verify sha enc (\<lambda>_. []) rows = VerifyChain sha enc (by_seq rows)"
proof -
  have "filter (\<lambda>r. ar_Seq r > 0) rows = rows" using assms by (auto simp: rows_ok_def intro!: filter_True)
  then show ?thesis
    using Verify_from_suffix [of rows "[]" "by_seq rows" 0 "[]"] assms
    by (simp add: Verify_def VerifyChain_def rows_ok_def)
qed

subsection \<open>Appending\<close>

definition effective :: "time \<Rightarrow> 'v audit_Entry \<Rightarrow> 'v audit_Entry" where
  "effective now e = Normalize (if time_IsZero (ae_At e) then e\<lparr>ae_At := now\<rparr> else e)"

text \<open>
  What the chain relies on of the database: the stored form of an entry has the canonical bytes of
  the entry that was hashed (the address is in PostgreSQL's own notation, the detail survives JSONB).
\<close>

definition storage_faithful ::
  "('v canonical \<Rightarrow> string option) \<Rightarrow> (string \<Rightarrow> string option) \<Rightarrow> ('v detail \<Rightarrow> 'v detail) \<Rightarrow> 'v audit_Entry \<Rightarrow> bool" where
  "storage_faithful enc inet jsonb e \<longleftrightarrow>
     (\<forall>e'. stored_entry inet jsonb e = Some e' \<longrightarrow> CanonicalBytes enc e' = CanonicalBytes enc e)"

definition audit_ok ::
  "(string \<Rightarrow> string) \<Rightarrow> ('v canonical \<Rightarrow> string option) \<Rightarrow> 'v audit_db \<Rightarrow> bool" where
  "audit_ok sha enc db \<longleftrightarrow>
     0 < au_next db \<and> (\<forall>r \<in> set (au_rows db). 0 < ar_Seq r \<and> ar_Seq r < au_next db) \<and>
     chain_ok sha enc None [] (au_rows db)"

lemma chain_head_last:
  "chain_ok sha enc None [] rows \<Longrightarrow> chain_head rows = last_hash [] rows"
  using chain_ok_ascending [of sha enc None "[]" rows]
  by (cases rows rule: rev_cases) (simp_all add: chain_head_def by_seq_id last_hash_def)

lemma audit_Record_cases:
  assumes "audit_Record_op sha enc inet jsonb now fs entry db = (res, db')"
  shows "(res \<noteq> None \<and> au_rows db' = au_rows db \<and> au_next db' \<in> {au_next db, au_next db + 1}) \<or>
    (\<exists>e hash. res = None \<and> stored_entry inet jsonb (effective now entry) = Some e \<and>
       ComputeHash sha enc (chain_head (au_rows db)) (effective now entry) = Some hash \<and>
       au_next db' = au_next db + 1 \<and>
       au_rows db' = au_rows db @ [\<lparr>ar_Seq = au_next db, ar_Entry = e,
         ar_PrevHash = chain_head (au_rows db), ar_Hash = hash\<rparr>])"
  using assms unfolding audit_Record_op_def effective_def [symmetric] Let_def
  by (simp only: split: if_splits option.splits) auto

lemma audit_ok_Record:
  assumes "audit_ok sha enc db" "storage_faithful enc inet jsonb (effective now entry)"
    and "audit_Record_op sha enc inet jsonb now fs entry db = (res, db')"
  shows "audit_ok sha enc db'"
  using audit_Record_cases [OF assms(3)]
proof (elim disjE exE conjE)
  fix e hash
  assume e: "stored_entry inet jsonb (effective now entry) = Some e"
    and h: "ComputeHash sha enc (chain_head (au_rows db)) (effective now entry) = Some hash"
    and db': "au_next db' = au_next db + 1" "au_rows db' = au_rows db @ [\<lparr>ar_Seq = au_next db, ar_Entry = e,
         ar_PrevHash = chain_head (au_rows db), ar_Hash = hash\<rparr>]"
  have "CanonicalBytes enc e = CanonicalBytes enc (effective now entry)"
    using assms(2) e by (simp add: storage_faithful_def)
  with h have "ComputeHash sha enc (chain_head (au_rows db)) e = Some hash" by (simp add: ComputeHash_def)
  moreover have "chain_head (au_rows db) = last_hash [] (au_rows db)"
    using assms(1) chain_head_last by (auto simp: audit_ok_def)
  moreover have "\<forall>s. last_seq None (au_rows db) = Some s \<longrightarrow> s < au_next db"
    using assms(1) by (auto simp: last_seq_def audit_ok_def split: if_splits)
  ultimately show ?thesis
    using assms(1) by (auto simp: audit_ok_def db' chain_ok_append)
qed (use assms(1) in \<open>auto simp: audit_ok_def\<close>)

inductive audit_reachable ::
  "(string \<Rightarrow> string) \<Rightarrow> ('v canonical \<Rightarrow> string option) \<Rightarrow> (string \<Rightarrow> string option) \<Rightarrow>
   ('v detail \<Rightarrow> 'v detail) \<Rightarrow> 'v audit_db \<Rightarrow> bool"
  for sha enc inet jsonb where
  empty: "audit_reachable sha enc inet jsonb \<lparr>au_rows = [], au_next = 1\<rparr>"
| record_entry: "audit_reachable sha enc inet jsonb db \<Longrightarrow>
    storage_faithful enc inet jsonb (effective now entry) \<Longrightarrow>
    audit_Record_op sha enc inet jsonb now fs entry db = (res, db') \<Longrightarrow>
    audit_reachable sha enc inet jsonb db'"

lemma reachable_audit_ok: "audit_reachable sha enc inet jsonb db \<Longrightarrow> audit_ok sha enc db"
  by (induction rule: audit_reachable.induct) (auto simp: audit_ok_def [of _ _ "\<lparr>au_rows = [], au_next = 1\<rparr>"] intro: audit_ok_Record)

lemma audit_ok_rows: "audit_ok sha enc db \<Longrightarrow> rows_ok (au_rows db) \<and> by_seq (au_rows db) = au_rows db"
proof -
  assume ok: "audit_ok sha enc db"
  then have asc: "sorted_wrt (\<lambda>x y. ar_Seq x < ar_Seq y) (au_rows db)"
    using chain_ok_ascending [of sha enc None "[]"] by (auto simp: audit_ok_def)
  then have "sorted_wrt (<) (map ar_Seq (au_rows db))" by (simp add: sorted_wrt_map)
  then have "distinct (map ar_Seq (au_rows db))" by (simp add: strict_sorted_iff)
  with ok by_seq_id [OF asc] show ?thesis by (auto simp: rows_ok_def audit_ok_def)
qed

subsection \<open>What the hashes commit to\<close>

definition hash_inputs :: "('v canonical \<Rightarrow> string option) \<Rightarrow> 'v audit_Record list \<Rightarrow> string set" where
  "hash_inputs enc rs =
     {p. \<exists>r \<in> set rs. \<exists>b. CanonicalBytes enc (ar_Entry r) = Some b \<and> p = ar_PrevHash r @ b}"

lemma hash_inputs_append: "hash_inputs enc (xs @ ys) = hash_inputs enc xs \<union> hash_inputs enc ys"
  by (auto simp: hash_inputs_def)

lemma chain_ok_snoc:
  "chain_ok sha enc None [] (rs @ [r]) \<longleftrightarrow>
     chain_ok sha enc None [] rs \<and> (\<forall>s. last_seq None rs = Some s \<longrightarrow> s < ar_Seq r) \<and>
     ar_PrevHash r = last_hash [] rs \<and>
     (\<exists>b. CanonicalBytes enc (ar_Entry r) = Some b \<and> ar_Hash r = sha (last_hash [] rs @ b))"
  by (auto simp: chain_ok_append ComputeHash_def split: option.splits)

lemma chain_hash_length:
  assumes "\<forall>s. length (sha s) = 32" "chain_ok sha enc None [] rs" "rs \<noteq> []"
  shows "length (last_hash [] rs) = 32"
  using assms by (cases rs rule: rev_cases) (auto simp: chain_ok_snoc last_hash_def)

lemma head_commits:
  assumes "\<forall>s. length (sha s) = 32"
  shows "length rs = length rs' \<Longrightarrow> chain_ok sha enc None [] rs \<Longrightarrow> chain_ok sha enc None [] rs' \<Longrightarrow>
    inj_on sha (hash_inputs enc rs \<union> hash_inputs enc rs') \<Longrightarrow> last_hash [] rs = last_hash [] rs' \<Longrightarrow>
    map (\<lambda>r. (CanonicalBytes enc (ar_Entry r), ar_PrevHash r, ar_Hash r)) rs =
    map (\<lambda>r. (CanonicalBytes enc (ar_Entry r), ar_PrevHash r, ar_Hash r)) rs'"
proof (induction rs arbitrary: rs' rule: rev_induct)
  case (snoc r rs)
  then obtain r' qs where rs': "rs' = qs @ [r']" by (cases rs' rule: rev_cases) auto
  obtain b b' where b: "CanonicalBytes enc (ar_Entry r) = Some b" "ar_Hash r = sha (last_hash [] rs @ b)"
      "CanonicalBytes enc (ar_Entry r') = Some b'" "ar_Hash r' = sha (last_hash [] qs @ b')"
      "ar_PrevHash r = last_hash [] rs" "ar_PrevHash r' = last_hash [] qs"
      "chain_ok sha enc None [] rs" "chain_ok sha enc None [] qs"
    using snoc.prems(2,3) unfolding rs' chain_ok_snoc by blast
  have "sha (last_hash [] rs @ b) = sha (last_hash [] qs @ b')"
    using snoc.prems(5) b by (simp add: rs' last_hash_def)
  moreover have "last_hash [] rs @ b \<in> hash_inputs enc (rs @ [r]) \<union> hash_inputs enc rs'"
      "last_hash [] qs @ b' \<in> hash_inputs enc (rs @ [r]) \<union> hash_inputs enc rs'"
    using b by (auto simp: hash_inputs_def rs')
  ultimately have eq: "last_hash [] rs @ b = last_hash [] qs @ b'"
    using snoc.prems(4) by (auto dest: inj_onD)
  have "length (last_hash [] rs) = length (last_hash [] qs)"
    using snoc.prems(1) rs' chain_hash_length [OF assms b(7)] chain_hash_length [OF assms b(8)]
    by (cases "rs = []"; cases "qs = []") auto
  with eq have p: "last_hash [] rs = last_hash [] qs" "b = b'" by simp_all
  have "inj_on sha (hash_inputs enc rs \<union> hash_inputs enc qs)"
    using snoc.prems(4) by (rule inj_on_subset) (auto simp: rs' hash_inputs_append)
  then have "map (\<lambda>r. (CanonicalBytes enc (ar_Entry r), ar_PrevHash r, ar_Hash r)) rs =
      map (\<lambda>r. (CanonicalBytes enc (ar_Entry r), ar_PrevHash r, ar_Hash r)) qs"
    using snoc.IH [of qs] snoc.prems(1) rs' b(7,8) p(1) by simp
  with b p show ?case by (simp add: rs')
qed simp

subsection \<open>Properties\<close>

text \<open>A log of two entries under an encoder that writes actor and action, for the examples below.\<close>

definition sample_entry :: "string \<Rightarrow> nat audit_Entry" where
  "sample_entry action = \<lparr>ae_At = second, ae_ActorType = ActorSystem, ae_ActorID = ''sys'',
     ae_Action = action, ae_TargetType = [], ae_TargetID = [], ae_Result = ResultSuccess,
     ae_RequestID = [], ae_SourceIP = ''10.0.0.1'', ae_Detail = Some []\<rparr>"

definition sample_enc :: "nat canonical \<Rightarrow> string option" where
  "sample_enc c = Some (ca_ActorID c @ ca_Action c)"

definition sample_sha :: "string \<Rightarrow> string" where
  "sample_sha s = take 32 (rev s @ replicate 32 (CHR ''0''))"

definition sample_log :: "nat audit_Record list" where
  "sample_log =
     (let h1 = sample_sha ''sysa''; h2 = sample_sha (h1 @ ''sysb'')
      in [\<lparr>ar_Seq = 1, ar_Entry = sample_entry ''a'', ar_PrevHash = [], ar_Hash = h1\<rparr>,
          \<lparr>ar_Seq = 2, ar_Entry = sample_entry ''b'', ar_PrevHash = h1, ar_Hash = h2\<rparr>])"

lemma sample_bytes [simp]: "CanonicalBytes sample_enc (sample_entry action) = Some (''sys'' @ action)"
  by (simp add: CanonicalBytes_def sample_enc_def canonical_of_def Normalize_def sample_entry_def Let_def)

lemma sample_sha_length: "\<forall>s. length (sample_sha s) = 32"
  by (simp add: sample_sha_def min_def)

lemma sample_log_verifies: "VerifyChain sample_sha sample_enc sample_log = None"
  by (simp add: VerifyChain_def VerifyChainFrom_def sample_log_def ComputeHash_def Let_def)

lemma sample_faithful:
  "storage_faithful sample_enc Some id (effective now (sample_entry action))"
  by (simp add: storage_faithful_def stored_entry_def actor_known_def sample_entry_def effective_def
      Normalize_def CanonicalBytes_def canonical_of_def sample_enc_def time_IsZero_def zero_time_def
      second_def Let_def)

text \<open>
  C11: honest logs verify.  However many entries are appended, whatever faults strike in between, a
  log written only by the recorder verifies from the first page to the last, provided each stored
  entry reads back as it was hashed; a failed append leaves the rows unchanged.
\<close>

theorem recorded_log_verifies:
  assumes "audit_reachable sha enc inet jsonb db"
  shows "Verify sha enc (\<lambda>_. []) (au_rows db) = None \<and>
    (case audit_Record_op sha enc inet jsonb now fs entry db of
       (Some e, db') \<Rightarrow> au_rows db' = au_rows db
     | (None, db') \<Rightarrow> \<exists>r. au_rows db' = au_rows db @ [r] \<and> ar_PrevHash r = last_hash [] (au_rows db))"
proof -
  have ok: "audit_ok sha enc db" using reachable_audit_ok [OF assms] .
  then have chain: "chain_ok sha enc None [] (au_rows db)" by (simp add: audit_ok_def)
  have "Verify sha enc (\<lambda>_. []) (au_rows db) = None"
    using audit_ok_rows [OF ok] chain
    by (simp add: Verify_paged VerifyChain_def VerifyChainFrom_def verify_loop_None)
  moreover obtain res db' where r: "audit_Record_op sha enc inet jsonb now fs entry db = (res, db')" by fastforce
  ultimately show ?thesis
    using audit_Record_cases [OF r] chain_head_last [OF chain] by (auto split: option.splits)
qed

theorem recorded_log_verifies_witness:
  "\<exists>db :: nat audit_db. au_rows db \<noteq> [] \<and> Verify sample_sha sample_enc (\<lambda>_. []) (au_rows db) = None"
proof -
  let ?db0 = "\<lparr>au_rows = [], au_next = 1\<rparr> :: nat audit_db" and ?e = "sample_entry ''auth.authenticate''"
  obtain res db' where r: "audit_Record_op sample_sha sample_enc Some id 0 [] ?e ?db0 = (res, db')" by fastforce
  have "au_rows (snd (audit_Record_op sample_sha sample_enc Some id 0 [] ?e ?db0)) \<noteq> []"
    by (simp add: audit_Record_op_def sample_entry_def Normalize_def ComputeHash_def CanonicalBytes_def
        sample_enc_def stored_entry_def actor_known_def Let_def)
  then have "au_rows db' \<noteq> []" using r by simp
  moreover have "audit_reachable sample_sha sample_enc Some id db'"
    using audit_reachable.empty sample_faithful r by (rule audit_reachable.record_entry)
  from recorded_log_verifies [OF this, of 0 "[]" ?e]
  have "Verify sample_sha sample_enc (\<lambda>_. []) (au_rows db') = None" by simp
  ultimately show ?thesis by blast
qed

text \<open>
  C22: paged verification is whole verification.  On every table with distinct positive sequence
  numbers, walking the log in pages of 500 gives the verdict, and names the record, that checking
  all rows in sequence order at once would.
\<close>

theorem paged_verification_complete:
  assumes "distinct (map ar_Seq rows)" "\<forall>r \<in> set rows. 0 < ar_Seq r"
  shows "Verify sha enc (\<lambda>_. []) rows = VerifyChain sha enc (by_seq rows)"
  using assms by (intro Verify_paged) (simp add: rows_ok_def)

theorem paged_verification_complete_witness:
  "Verify sample_sha sample_enc (\<lambda>_. [])
     [\<lparr>ar_Seq = 1, ar_Entry = sample_entry ''a'', ar_PrevHash = [], ar_Hash = []\<rparr>] =
   Some (ChainError 1 ContentMismatch)"
  using paged_verification_complete
    [of "[\<lparr>ar_Seq = 1, ar_Entry = sample_entry ''a'', ar_PrevHash = [], ar_Hash = []\<rparr>]" sample_sha sample_enc]
  by (simp add: by_seq_def VerifyChain_def VerifyChainFrom_def ComputeHash_def CanonicalBytes_def
      sample_enc_def sample_sha_def canonical_of_def Normalize_def sample_entry_def Let_def)

text \<open>
  C7: altering a record is detected, and located.  In a log that verifies, replacing the content of
  one record by anything with different canonical bytes is reported at that record; removing a
  record that is not the last one is reported at its successor.  The hash must have no collision
  among the inputs involved and no two records the same hash.
\<close>

theorem tampering_located:
  assumes "VerifyChain sha enc (xs @ r # ys) = None"
    and "CanonicalBytes enc e \<noteq> CanonicalBytes enc (ar_Entry r)"
    and "inj_on sha (hash_inputs enc [r] \<union> hash_inputs enc [r\<lparr>ar_Entry := e\<rparr>])"
    and "distinct ([] # map ar_Hash (xs @ r # ys))"
  shows "(\<exists>why. VerifyChain sha enc (xs @ r\<lparr>ar_Entry := e\<rparr> # ys) = Some (ChainError (ar_Seq r) why)) \<and>
    (\<forall>s zs. ys = s # zs \<longrightarrow> VerifyChain sha enc (xs @ ys) = Some (ChainError (ar_Seq s) PrevMismatch))"
proof -
  have ok: "chain_ok sha enc None [] (xs @ r # ys)"
    using assms(1) by (simp add: VerifyChain_def VerifyChainFrom_def verify_loop_None)
  then have xs: "verify_loop sha enc None [] xs = None" by (simp add: chain_ok_append verify_loop_None)
  have r: "\<forall>s. last_seq None xs = Some s \<longrightarrow> s < ar_Seq r" "ar_PrevHash r = last_hash [] xs"
      "ComputeHash sha enc (last_hash [] xs) (ar_Entry r) = Some (ar_Hash r)"
      "chain_ok sha enc (Some (ar_Seq r)) (ar_Hash r) ys"
    using ok by (simp_all add: chain_ok_append)
  have "ComputeHash sha enc (last_hash [] xs) e \<noteq> Some (ar_Hash r)"
    using r(2,3) assms(2,3) by (auto simp: ComputeHash_def hash_inputs_def dest: inj_onD split: option.splits)
  then have "\<exists>why. VerifyChain sha enc (xs @ r\<lparr>ar_Entry := e\<rparr> # ys) = Some (ChainError (ar_Seq r) why)"
    using r(1,2) by (auto simp: VerifyChain_def VerifyChainFrom_def verify_loop_append xs split: option.splits)
  moreover have "VerifyChain sha enc (xs @ s # zs) = Some (ChainError (ar_Seq s) PrevMismatch)"
    if ys: "ys = s # zs" for s zs
  proof -
    have "\<forall>q. last_seq None xs = Some q \<longrightarrow> q < ar_Seq s" "ar_PrevHash s = ar_Hash r"
      using r(1,4) ys by auto
    moreover have "ar_Hash r \<noteq> last_hash [] xs"
      using assms(4) by (auto simp: last_hash_def split: if_splits)
    ultimately show ?thesis
      by (auto simp: VerifyChain_def VerifyChainFrom_def verify_loop_append xs split: option.splits)
  qed
  ultimately show ?thesis by blast
qed

theorem tampering_located_witness:
  "\<exists>why. VerifyChain sample_sha sample_enc ([(hd sample_log)\<lparr>ar_Entry := sample_entry ''c''\<rparr>] @ tl sample_log) =
     Some (ChainError 1 why)"
proof -
  have split: "[] @ hd sample_log # tl sample_log = sample_log" by (simp add: sample_log_def Let_def)
  have seq: "ar_Seq (hd sample_log) = 1" by (simp add: sample_log_def Let_def)
  have "CanonicalBytes sample_enc (sample_entry ''c'') \<noteq> CanonicalBytes sample_enc (ar_Entry (hd sample_log))"
    by (simp add: sample_log_def Let_def)
  moreover have "inj_on sample_sha (hash_inputs sample_enc [hd sample_log] \<union>
      hash_inputs sample_enc [(hd sample_log)\<lparr>ar_Entry := sample_entry ''c''\<rparr>])"
    by (simp add: sample_log_def hash_inputs_def inj_on_def sample_sha_def Let_def)
  moreover have "distinct ([] # map ar_Hash ([] @ hd sample_log # tl sample_log))"
    by (simp add: sample_log_def sample_sha_def Let_def)
  ultimately show ?thesis
    using tampering_located [of sample_sha sample_enc "[]" "hd sample_log" "tl sample_log" "sample_entry ''c''"]
      sample_log_verifies split seq by simp
qed

text \<open>
  The head hash commits to the whole history.  Two logs of the same length that both verify and
  end in the same hash agree in the canonical bytes and in the hashes of every record, so rewriting
  history with recomputed hashes changes the head.
\<close>

theorem head_commits_to_history:
  assumes "\<forall>s. length (sha s) = 32" "length rs = length rs'" "rs \<noteq> []"
    and "VerifyChain sha enc rs = None" "VerifyChain sha enc rs' = None"
    and "inj_on sha (hash_inputs enc rs \<union> hash_inputs enc rs')" "ar_Hash (last rs) = ar_Hash (last rs')"
  shows "map (\<lambda>r. (CanonicalBytes enc (ar_Entry r), ar_PrevHash r, ar_Hash r)) rs =
    map (\<lambda>r. (CanonicalBytes enc (ar_Entry r), ar_PrevHash r, ar_Hash r)) rs'"
proof -
  have "rs' \<noteq> []" using assms(2,3) by auto
  then show ?thesis
    using assms head_commits [OF assms(1,2), of enc]
    by (simp add: VerifyChain_def VerifyChainFrom_def verify_loop_None last_hash_def)
qed

theorem head_commits_to_history_witness:
  "map (\<lambda>r. (CanonicalBytes sample_enc (ar_Entry r), ar_PrevHash r, ar_Hash r)) sample_log =
   map (\<lambda>r. (CanonicalBytes sample_enc (ar_Entry r), ar_PrevHash r, ar_Hash r))
     (map (\<lambda>r. r\<lparr>ar_Seq := ar_Seq r + 5\<rparr>) sample_log)"
proof -
  have "VerifyChain sample_sha sample_enc (map (\<lambda>r. r\<lparr>ar_Seq := ar_Seq r + 5\<rparr>) sample_log) = None"
    by (simp add: VerifyChain_def VerifyChainFrom_def sample_log_def ComputeHash_def Let_def)
  moreover have "inj_on sample_sha (hash_inputs sample_enc sample_log \<union>
      hash_inputs sample_enc (map (\<lambda>r. r\<lparr>ar_Seq := ar_Seq r + 5\<rparr>) sample_log))"
    by (simp add: sample_log_def hash_inputs_def inj_on_def sample_sha_def Let_def)
  moreover have "sample_log \<noteq> []" by (simp add: sample_log_def Let_def)
  ultimately show ?thesis
    by (intro head_commits_to_history [OF sample_sha_length _ _ sample_log_verifies])
      (simp_all add: last_map)
qed

text \<open>
  Cutting off the end is not detected.  Every prefix of a log that verifies, down to the empty
  log, verifies as well: the chain alone does not reveal that its latest records were removed.
\<close>

theorem truncation_undetected:
  assumes "VerifyChain sha enc rs = None"
  shows "VerifyChain sha enc (take n rs) = None"
  using assms chain_ok_append [of sha enc None "[]" "take n rs" "drop n rs"]
  by (simp add: VerifyChain_def VerifyChainFrom_def verify_loop_None)

theorem truncation_undetected_witness:
  "VerifyChain sample_sha sample_enc (take 1 sample_log) = None"
  using sample_log_verifies by (rule truncation_undetected)

end
