(* ===== verification/Codec.thy ===== *)
theory Codec
  imports Prelude
begin

section \<open>Codec: hexadecimal, base64 and decimal\<close>

text \<open>
  The encodings of the standard library the device and session packages use on bytes that come from
  outside: \<^verbatim>\<open>hex.EncodeToString\<close>, \<^verbatim>\<open>base64.RawURLEncoding.EncodeToString\<close>,
  \<^verbatim>\<open>base64.StdEncoding.DecodeString\<close> and \<^verbatim>\<open>strconv.ParseInt\<close> in base ten.
\<close>

definition byte :: "char \<Rightarrow> nat" where "byte c = of_char c"

lemma byte_less [simp]: "byte c < 256"
  by (simp add: byte_def)

lemma byte_inject [simp]: "byte c = byte d \<longleftrightarrow> c = d"
  by (simp add: byte_def)

definition hex_encode :: "string \<Rightarrow> string" where
  "hex_encode s = concat (map (\<lambda>c. [hex_digit (byte c div 16), hex_digit (byte c mod 16)]) s)"

lemma hex_encode_simps [simp]:
  "hex_encode [] = []" "hex_encode (c # s) = hex_digit (byte c div 16) # hex_digit (byte c mod 16) # hex_encode s"
  by (simp_all add: hex_encode_def)

lemma length_hex_encode [simp]: "length (hex_encode s) = 2 * length s"
  by (induction s) simp_all

lemma byte_div_16 [simp]: "byte c div 16 < 16"
  using byte_less [of c] by linarith

lemma hex_encode_inject: "hex_encode s = hex_encode t \<longleftrightarrow> s = t"
proof
  show "hex_encode s = hex_encode t \<Longrightarrow> s = t"
  proof (induction s arbitrary: t)
    case Nil
    then show ?case by (cases t) simp_all
  next
    case (Cons c s)
    then obtain d u where t: "t = d # u" by (cases t) auto
    have "byte c div 16 = byte d div 16" "byte c mod 16 = byte d mod 16"
      using Cons.prems by (auto simp: t intro: hex_digit_inj)
    then have "byte c = byte d" by (metis div_mult_mod_eq)
    with Cons t show ?case by simp
  qed
qed simp

lemma hex_digit_ge: "d < 16 \<Longrightarrow> 48 \<le> (of_char (hex_digit d) :: nat)"
  by (simp add: hex_digit_def)

lemma hex_encode_chars: "c \<in> set (hex_encode s) \<Longrightarrow> \<exists>d < 16. c = hex_digit d"
proof (induction s)
  case (Cons a s)
  have m: "byte a mod 16 < 16" by simp
  have "c = hex_digit (byte a div 16) \<or> c = hex_digit (byte a mod 16) \<or> c \<in> set (hex_encode s)"
    using Cons.prems by simp
  then show ?case using Cons.IH m byte_div_16 [of a] by blast
qed simp

lemma hex_encode_no_newline [simp]: "newline \<notin> set (hex_encode s)"
proof
  assume "newline \<in> set (hex_encode s)"
  then obtain d where d: "d < 16" "newline = hex_digit d" using hex_encode_chars by blast
  have "(of_char newline :: nat) = 10" by (simp add: newline_def)
  then show False using hex_digit_ge [OF d(1)] d(2) by simp
qed

definition b64_symbol :: "char \<Rightarrow> char \<Rightarrow> nat \<Rightarrow> char" where
  "b64_symbol c62 c63 n =
     (if n < 26 then char_of (65 + n) else if n < 52 then char_of (71 + n)
      else if n < 62 then char_of (n - 4) else if n = 62 then c62 else c63)"

fun RawURLEncode :: "string \<Rightarrow> string" where
  "RawURLEncode [] = []"
| "RawURLEncode [a] =
     (let s = b64_symbol (CHR ''-'') (CHR ''_''); n = byte a * 16
      in [s (n div 64), s (n mod 64)])"
| "RawURLEncode [a, b] =
     (let s = b64_symbol (CHR ''-'') (CHR ''_''); n = (byte a * 256 + byte b) * 4
      in [s (n div 4096), s (n div 64 mod 64), s (n mod 64)])"
| "RawURLEncode (a # b # c # rest) =
     (let s = b64_symbol (CHR ''-'') (CHR ''_''); n = (byte a * 256 + byte b) * 256 + byte c
      in [s (n div 262144), s (n div 4096 mod 64), s (n div 64 mod 64), s (n mod 64)] @
         RawURLEncode rest)"

definition b64_value :: "char \<Rightarrow> nat option" where
  "b64_value c =
     (let n = byte c
      in if 65 \<le> n \<and> n \<le> 90 then Some (n - 65) else if 97 \<le> n \<and> n \<le> 122 then Some (n - 71)
         else if 48 \<le> n \<and> n \<le> 57 then Some (n + 4) else if c = CHR ''+'' then Some 62
         else if c = CHR ''/'' then Some 63 else None)"

fun b64_quads :: "string \<Rightarrow> string option" where
  "b64_quads [] = Some []"
| "b64_quads (a # b # c # d # rest) =
     (case (b64_value a, b64_value b) of
        (Some w, Some x) \<Rightarrow>
          if c = CHR ''='' \<and> d = CHR ''='' \<and> rest = [] then Some [char_of ((w * 64 + x) div 16)]
          else (case b64_value c of
                  None \<Rightarrow> None
                | Some y \<Rightarrow>
                    if d = CHR ''='' \<and> rest = []
                    then (let n = ((w * 64 + x) * 64 + y) div 4 in Some [char_of (n div 256), char_of (n mod 256)])
                    else (case (b64_value d, b64_quads rest) of
                            (Some z, Some t) \<Rightarrow>
                              (let n = ((w * 64 + x) * 64 + y) * 64 + z
                               in Some (char_of (n div 65536) # char_of (n div 256 mod 256) # char_of (n mod 256) # t))
                          | _ \<Rightarrow> None))
      | _ \<Rightarrow> None)"
| "b64_quads _ = None"

definition StdDecode :: "string \<Rightarrow> string option" where
  "StdDecode s = b64_quads (filter (\<lambda>c. c \<noteq> CHR 0x0D \<and> c \<noteq> CHR 0x0A) s)"

definition ParseInt :: "string \<Rightarrow> int option" where
  "ParseInt s =
     (let (neg, ds) = (case s of c # cs \<Rightarrow> if c = CHR ''-'' then (True, cs) else if c = CHR ''+'' then (False, cs) else (False, s)
                       | [] \<Rightarrow> (False, []))
      in if ds = [] \<or> \<not> list_all is_digit ds then None
         else (let n = int (nat_of_digits ds); v = (if neg then - n else n)
               in if fits64 v then Some v else None))"

lemma ParseInt_fits: "ParseInt s = Some v \<Longrightarrow> fits64 v"
  by (auto simp: ParseInt_def Let_def split: prod.splits if_splits)

text \<open>What the decimal printer writes, the parser reads back.\<close>

lemma ParseInt_show_int:
  assumes "fits64 v" shows "ParseInt (show_int v) = Some v"
proof (cases "v < 0")
  case True
  then show ?thesis
    using assms show_nat_digits [of "nat (- v)"]
    by (simp add: ParseInt_def show_int_def list_all_iff Let_def)
next
  case False
  obtain c cs where c: "show_nat (nat v) = c # cs" by (metis neq_Nil_conv show_nat_nonempty)
  then have "is_digit c" using show_nat_digits [of "nat v"] by simp
  then have "c \<noteq> CHR ''-''" "c \<noteq> CHR ''+''" by (auto simp: is_digit_def)
  then show ?thesis
    using assms False show_nat_digits [of "nat v"] nat_of_digits_show_nat [of "nat v"] c
    by (simp add: ParseInt_def show_int_def list_all_iff Let_def)
qed

end
