(* ===== verification/Single_Use.thy ===== *)
theory Single_Use
  imports Main
begin

section \<open>Single use: credentials that can be spent once\<close>

text \<open>
  Enrollment tokens, replay nonces and attestation challenges share one contract: an operation that
  spends a credential succeeds only if the credential is unspent, and marks it spent; no operation
  makes a spent credential usable again.  The locale \<open>single_use\<close> states it for an operation
  \<open>spend\<close> that reports success and returns the new state, a \<open>key\<close> for the credential an operation
  presents, the set \<open>spent\<close> of keys a state has seen used, and an invariant \<open>ok\<close>.  What follows,
  for every sequence of operations, is proved here once: no key is spent twice.
\<close>

fun run_spends :: "('op \<Rightarrow> 's \<Rightarrow> bool \<times> 's) \<Rightarrow> ('op \<Rightarrow> 'k) \<Rightarrow> 'op list \<Rightarrow> 's \<Rightarrow> 'k list \<times> 's" where
  "run_spends spend key [] s = ([], s)"
| "run_spends spend key (x # xs) s =
     (let (done, s') = spend x s; (ks, s'') = run_spends spend key xs s'
      in (if done then key x # ks else ks, s''))"

locale single_use =
  fixes spend :: "'op \<Rightarrow> 's \<Rightarrow> bool \<times> 's"
    and key :: "'op \<Rightarrow> 'k"
    and spent :: "'s \<Rightarrow> 'k set"
    and ok :: "'s \<Rightarrow> bool"
  assumes fresh: "ok s \<Longrightarrow> spend x s = (True, s') \<Longrightarrow> key x \<notin> spent s"
    and marks: "ok s \<Longrightarrow> spend x s = (True, s') \<Longrightarrow> key x \<in> spent s'"
    and keeps: "ok s \<Longrightarrow> spend x s = (r, s') \<Longrightarrow> spent s \<subseteq> spent s'"
    and preserves: "ok s \<Longrightarrow> spend x s = (r, s') \<Longrightarrow> ok s'"
begin

lemma run_spends_once:
  "ok s \<Longrightarrow> run_spends spend key xs s = (ks, s') \<Longrightarrow>
   distinct ks \<and> set ks \<inter> spent s = {} \<and> set ks \<union> spent s \<subseteq> spent s' \<and> ok s'"
proof (induction xs arbitrary: s ks)
  case Nil
  then show ?case by simp
next
  case (Cons x xs)
  obtain r s1 where r: "spend x s = (r, s1)" by fastforce
  obtain ks1 where ks: "run_spends spend key xs s1 = (ks1, s')" "ks = (if r then key x # ks1 else ks1)"
    using Cons.prems(2) r by (auto split: prod.splits)
  have step: "spent s \<subseteq> spent s1" "ok s1" using keeps [OF Cons.prems(1) r] preserves [OF Cons.prems(1) r] .
  note ih = Cons.IH [OF step(2) ks(1)]
  show ?case
  proof (cases r)
    case True
    then have "spend x s = (True, s1)" using r by simp
    then have "key x \<notin> spent s" "key x \<in> spent s1"
      using fresh [OF Cons.prems(1)] marks [OF Cons.prems(1)] by blast+
    then show ?thesis using ih step ks(2) True by auto
  qed (use ih step ks(2) in auto)
qed

lemma spent_stays_unusable:
  assumes "ok s" "key x \<in> spent s" "run_spends spend key xs s = (ks, s')" "spend x s' = (r, s'')"
  shows "\<not> r"
proof -
  have "ok s'" "key x \<in> spent s'" using run_spends_once [OF assms(1,3)] assms(2) by auto
  then show ?thesis using fresh [of s' x] assms(4) by (cases r) auto
qed

end

end
