(* ===== verification/Device.thy ===== *)
theory Device
  imports Slices Codec Single_Use
begin

section \<open>Device: enrollment, signed requests and revocation\<close>

text \<open>
  Package \<^verbatim>\<open>internal/device\<close>: \<^verbatim>\<open>signing.go\<close> (what is signed, the clock and nonce checks), \<^verbatim>\<open>store.go\<close>
  (devices, enrollment tokens, replay nonces) and \<^verbatim>\<open>middleware.go\<close> (the authentication of a request),
  and the pruning of nonces in \<^verbatim>\<open>cmd/netrad/main.go\<close>.

  Parameters: \<open>sha\<close> (SHA-256), \<open>edv\<close> (\<^verbatim>\<open>ed25519.Verify\<close>) and \<open>pgts\<close> (the timestamp PostgreSQL
  stores for a Go instant, \<open>None\<close> when it is out of range).  The clock, fresh identifiers and random
  bytes are arguments.  A transaction either commits as a whole or leaves the tables unchanged.
\<close>

subsection \<open>signing.go\<close>

definition MaxClockSkew :: duration where "MaxClockSkew = 5 * minute"
definition NonceMinLength :: nat where "NonceMinLength = 16"
definition PublicKeySize :: nat where "PublicKeySize = 32"
definition SignatureSize :: nat where "SignatureSize = 64"

datatype device_error =
  ErrSignature | ErrClockSkew duration | ErrBadPublicKey
| ErrEnrollmentToken | ErrDeviceExists | ErrDeviceNotFound | ErrDeviceNotActive | ErrReplayedNonce
| ErrValidation string | ErrDeviceDB string

record SigningInput =
  si_Method :: string
  si_Path :: string
  si_Timestamp :: time
  si_Nonce :: string
  si_Body :: string

definition CanonicalString :: "(string \<Rightarrow> string) \<Rightarrow> SigningInput \<Rightarrow> string" where
  "CanonicalString sha i =
     Join [''NETRA-v1'', ToUpper (si_Method i), si_Path i, show_int (time_Unix (si_Timestamp i)),
           si_Nonce i, hex_encode (sha (si_Body i))] [newline]"

definition VerifySignature ::
  "(string \<Rightarrow> string) \<Rightarrow> (string \<Rightarrow> string \<Rightarrow> string \<Rightarrow> bool) \<Rightarrow> string \<Rightarrow> SigningInput \<Rightarrow> string \<Rightarrow>
   device_error option" where
  "VerifySignature sha edv publicKey i signature =
     (if length publicKey \<noteq> PublicKeySize then Some ErrSignature
      else case StdDecode signature of
             None \<Rightarrow> Some ErrSignature
           | Some raw \<Rightarrow>
               if length raw \<noteq> SignatureSize then Some ErrSignature
               else if \<not> edv publicKey (CanonicalString sha i) raw then Some ErrSignature
               else None)"

definition CheckClockSkew :: "time \<Rightarrow> time \<Rightarrow> device_error option" where
  "CheckClockSkew timestamp now =
     (let drift = time_Sub now timestamp;
          drift = (if drift < 0 then duration_neg drift else drift)
      in if drift > MaxClockSkew then Some (ErrClockSkew drift) else None)"

definition nonce_char :: "char \<Rightarrow> bool" where
  "nonce_char r \<longleftrightarrow>
     (let n = byte r in 48 \<le> n \<and> n \<le> 57 \<or> 97 \<le> n \<and> n \<le> 102 \<or> 65 \<le> n \<and> n \<le> 70) \<or> r = CHR ''-''"

definition ValidateNonce :: "string \<Rightarrow> device_error option" where
  "ValidateNonce nonce =
     (if length nonce < NonceMinLength then Some ErrSignature
      else if length nonce > 128 then Some ErrSignature
      else if \<not> list_all nonce_char nonce then Some ErrSignature
      else None)"

definition ParsePublicKey :: "string \<Rightarrow> device_error + string" where
  "ParsePublicKey encoded =
     (case StdDecode (TrimSpace encoded) of
        None \<Rightarrow> Inl ErrBadPublicKey
      | Some raw \<Rightarrow> if length raw \<noteq> PublicKeySize then Inl ErrBadPublicKey else Inr raw)"

subsection \<open>store.go: rows\<close>

datatype device_State = StatePending | StateActive | StateRevoked

record Device =
  d_ID :: uuid
  d_DeviceUID :: string
  d_Hostname :: string
  d_OSName :: string
  d_OSVersion :: string
  d_AgentVersion :: string
  d_PublicKey :: string
  d_KeyAlgorithm :: string
  d_KeyProtection :: string
  d_State :: device_State
  d_EnrolledAt :: "time option"
  d_LastHeartbeatAt :: "time option"
  d_RevokedAt :: "time option"
  d_RevokedReason :: string
  d_CreatedAt :: time

record EnrollRequest =
  er_DeviceUID :: string
  er_Hostname :: string
  er_OSName :: string
  er_OSVersion :: string
  er_AgentVersion :: string
  er_PublicKey :: string
  er_KeyProtection :: string

record enrollment_token =
  et_ID :: uuid
  et_TokenHash :: string
  et_Label :: string
  et_CreatedBy :: "uuid option"
  et_ExpiresAt :: time
  et_UsedAt :: "time option"
  et_DeviceID :: "uuid option"

record replay_nonce =
  rn_Nonce :: string
  rn_DeviceID :: uuid
  rn_SeenAt :: time

record device_db =
  dd_devices :: "Device list"
  dd_tokens :: "enrollment_token list"
  dd_nonces :: "replay_nonce list"

subsection \<open>store.go: operations\<close>

fun first_bad_field :: "(string \<times> string) list \<Rightarrow> device_error option" where
  "first_bad_field [] = None"
| "first_bad_field ((name, v) # fs) =
     (if TrimSpace v = [] \<or> length v > 128 then Some (ErrValidation name) else first_bad_field fs)"

definition EnrollRequest_Validate :: "EnrollRequest \<Rightarrow> device_error option" where
  "EnrollRequest_Validate r =
     (let l = length (TrimSpace (er_DeviceUID r))
      in if l < 8 \<or> l > 128 then Some (ErrValidation ''device_uid'')
         else if TrimSpace (er_Hostname r) = [] \<or> length (er_Hostname r) > 255 then Some (ErrValidation ''hostname'')
         else if length (er_PublicKey r) \<noteq> 32 then Some (ErrValidation ''public_key'')
         else if er_KeyProtection r \<notin> {''software'', ''tpm'', ''windows-cert-store''}
         then Some (ErrValidation ''key_protection'')
         else first_bad_field [(''os_name'', er_OSName r), (''os_version'', er_OSVersion r),
                (''agent_version'', er_AgentVersion r)])"

definition IssueEnrollmentToken ::
  "(string \<Rightarrow> string) \<Rightarrow> string \<Rightarrow> uuid \<Rightarrow> time \<Rightarrow> faults \<Rightarrow> uuid option \<Rightarrow> string \<Rightarrow> duration \<Rightarrow> device_db \<Rightarrow>
   (device_error + string \<times> uuid) \<times> device_db" where
  "IssueEnrollmentToken sha raw ident now fs createdBy label ttl db =
     (if ttl \<le> 0 \<or> ttl > 30 * 24 * hour then (Inl (ErrValidation ''enrollment token lifetime''), db)
      else if fault fs ''generate enrollment token'' then (Inl (ErrDeviceDB ''generate enrollment token''), db)
      else
        (let plaintext = RawURLEncode raw; sum = sha plaintext
         in if fault fs ''store enrollment token'' \<or> sum \<in> set (map et_TokenHash (dd_tokens db)) \<or>
               ident \<in> set (map et_ID (dd_tokens db))
            then (Inl (ErrDeviceDB ''store enrollment token''), db)
            else (Inr (plaintext, ident),
              db\<lparr>dd_tokens := dd_tokens db @ [\<lparr>et_ID = ident, et_TokenHash = sum, et_Label = label,
                   et_CreatedBy = createdBy, et_ExpiresAt = time_Add now ttl, et_UsedAt = None,
                   et_DeviceID = None\<rparr>]\<rparr>)))"

definition enrolled_row :: "uuid \<Rightarrow> time \<Rightarrow> EnrollRequest \<Rightarrow> Device" where
  "enrolled_row ident now r =
     \<lparr>d_ID = ident, d_DeviceUID = er_DeviceUID r, d_Hostname = er_Hostname r, d_OSName = er_OSName r,
      d_OSVersion = er_OSVersion r, d_AgentVersion = er_AgentVersion r, d_PublicKey = er_PublicKey r,
      d_KeyAlgorithm = ''ed25519'', d_KeyProtection = er_KeyProtection r, d_State = StateActive,
      d_EnrolledAt = Some now, d_LastHeartbeatAt = None, d_RevokedAt = None, d_RevokedReason = [],
      d_CreatedAt = now\<rparr>"

definition spend :: "uuid \<Rightarrow> time \<Rightarrow> uuid \<Rightarrow> enrollment_token \<Rightarrow> enrollment_token" where
  "spend tokenID now device t =
     (if et_ID t = tokenID then t\<lparr>et_UsedAt := Some now, et_DeviceID := Some device\<rparr> else t)"

definition Enroll ::
  "(string \<Rightarrow> string) \<Rightarrow> uuid \<Rightarrow> time \<Rightarrow> faults \<Rightarrow> string \<Rightarrow> EnrollRequest \<Rightarrow> device_db \<Rightarrow>
   (device_error + Device) \<times> device_db" where
  "Enroll sha ident now fs token r db =
     (case EnrollRequest_Validate r of
        Some e \<Rightarrow> (Inl e, db)
      | None \<Rightarrow>
          let sum = sha (TrimSpace token)
          in if fault fs ''begin enrollment'' then (Inl (ErrDeviceDB ''begin enrollment''), db)
             else if fault fs ''look up enrollment token'' then (Inl (ErrDeviceDB ''look up enrollment token''), db)
             else case find (\<lambda>t. et_TokenHash t = sum) (dd_tokens db) of
                    None \<Rightarrow> (Inl ErrEnrollmentToken, db)
                  | Some t \<Rightarrow>
                      if et_UsedAt t \<noteq> None \<or> time_After now (et_ExpiresAt t) then (Inl ErrEnrollmentToken, db)
                      else if fault fs ''create device'' then (Inl (ErrDeviceDB ''create device''), db)
                      else if er_DeviceUID r \<in> set (map d_DeviceUID (dd_devices db)) \<or>
                              ident \<in> set (map d_ID (dd_devices db))
                      then (Inl ErrDeviceExists, db)
                      else if fault fs ''consume enrollment token'' then (Inl (ErrDeviceDB ''consume enrollment token''), db)
                      else if fault fs ''commit enrollment'' then (Inl (ErrDeviceDB ''commit enrollment''), db)
                      else
                        (let created = enrolled_row ident now r
                         in (Inr created,
                             db\<lparr>dd_devices := dd_devices db @ [created],
                                dd_tokens := map (spend (et_ID t) now ident) (dd_tokens db)\<rparr>)))"

definition ByUID :: "faults \<Rightarrow> string \<Rightarrow> device_db \<Rightarrow> device_error + Device" where
  "ByUID fs uid db =
     (if fault fs ''load device'' then Inl (ErrDeviceDB ''load device'')
      else case find (\<lambda>d. d_DeviceUID d = uid) (dd_devices db) of None \<Rightarrow> Inl ErrDeviceNotFound | Some d \<Rightarrow> Inr d)"

definition ByID :: "faults \<Rightarrow> uuid \<Rightarrow> device_db \<Rightarrow> device_error + Device" where
  "ByID fs ident db =
     (if fault fs ''load device'' then Inl (ErrDeviceDB ''load device'')
      else case find (\<lambda>d. d_ID d = ident) (dd_devices db) of None \<Rightarrow> Inl ErrDeviceNotFound | Some d \<Rightarrow> Inr d)"

definition heartbeat_less :: "Device \<Rightarrow> Device \<Rightarrow> bool" where
  "heartbeat_less a b \<longleftrightarrow>
     (case (d_LastHeartbeatAt a, d_LastHeartbeatAt b) of
        (Some x, Some y) \<Rightarrow> if x \<noteq> y then x > y else d_CreatedAt a > d_CreatedAt b
      | (Some x, None) \<Rightarrow> True
      | (None, Some y) \<Rightarrow> False
      | (None, None) \<Rightarrow> d_CreatedAt a > d_CreatedAt b)"

definition List_devices :: "faults \<Rightarrow> int \<Rightarrow> device_db \<Rightarrow> device_error + Device list" where
  "List_devices fs limit db =
     (if fault fs ''list devices'' then Inl (ErrDeviceDB ''list devices'')
      else if fault fs ''scan device'' then Inl (ErrDeviceDB ''scan device'')
      else Inr (take (page_limit 500 100 limit) (SliceStable heartbeat_less (dd_devices db))))"

definition beat :: "time \<Rightarrow> uuid \<Rightarrow> string \<Rightarrow> Device \<Rightarrow> Device" where
  "beat now ident agentVersion d =
     (if d_ID d = ident \<and> d_State d = StateActive
      then d\<lparr>d_LastHeartbeatAt := Some now,
             d_AgentVersion := (if agentVersion = [] then d_AgentVersion d else agentVersion)\<rparr>
      else d)"

definition Heartbeat :: "time \<Rightarrow> faults \<Rightarrow> uuid \<Rightarrow> string \<Rightarrow> device_db \<Rightarrow> device_error option \<times> device_db" where
  "Heartbeat now fs ident agentVersion db =
     (if fault fs ''record heartbeat'' then (Some (ErrDeviceDB ''record heartbeat''), db)
      else if \<not> list_ex (\<lambda>d. d_ID d = ident \<and> d_State d = StateActive) (dd_devices db) then (Some ErrDeviceNotActive, db)
      else (None, db\<lparr>dd_devices := map (beat now ident agentVersion) (dd_devices db)\<rparr>))"

definition mark_revoked :: "time \<Rightarrow> uuid \<Rightarrow> string \<Rightarrow> Device \<Rightarrow> Device" where
  "mark_revoked now ident reason d =
     (if d_ID d = ident \<and> d_State d \<noteq> StateRevoked
      then d\<lparr>d_State := StateRevoked, d_RevokedAt := Some now, d_RevokedReason := reason\<rparr>
      else d)"

definition Revoke :: "time \<Rightarrow> faults \<Rightarrow> uuid \<Rightarrow> string \<Rightarrow> device_db \<Rightarrow> device_error option \<times> device_db" where
  "Revoke now fs ident reason db =
     (if fault fs ''revoke device'' then (Some (ErrDeviceDB ''revoke device''), db)
      else if \<not> list_ex (\<lambda>d. d_ID d = ident \<and> d_State d \<noteq> StateRevoked) (dd_devices db) then (Some ErrDeviceNotFound, db)
      else (None, db\<lparr>dd_devices := map (mark_revoked now ident reason) (dd_devices db)\<rparr>))"

definition ConsumeNonce ::
  "(time \<Rightarrow> time option) \<Rightarrow> faults \<Rightarrow> uuid \<Rightarrow> string \<Rightarrow> time \<Rightarrow> device_db \<Rightarrow> device_error option \<times> device_db" where
  "ConsumeNonce pgts fs device nonce seenAt db =
     (case pgts seenAt of
        None \<Rightarrow> (Some (ErrDeviceDB ''record request nonce''), db)
      | Some seen \<Rightarrow>
          if fault fs ''record request nonce'' then (Some (ErrDeviceDB ''record request nonce''), db)
          else if list_ex (\<lambda>n. rn_DeviceID n = device \<and> rn_Nonce n = nonce) (dd_nonces db)
          then (Some ErrReplayedNonce, db)
          else (None, db\<lparr>dd_nonces := dd_nonces db @ [\<lparr>rn_Nonce = nonce, rn_DeviceID = device, rn_SeenAt = seen\<rparr>]\<rparr>))"

definition PruneNonces :: "faults \<Rightarrow> time \<Rightarrow> device_db \<Rightarrow> (device_error + nat) \<times> device_db" where
  "PruneNonces fs before db =
     (if fault fs ''prune request nonces'' then (Inl (ErrDeviceDB ''prune request nonces''), db)
      else
        (let kept = filter (\<lambda>n. \<not> rn_SeenAt n < before) (dd_nonces db)
         in (Inr (length (dd_nonces db) - length kept), db\<lparr>dd_nonces := kept\<rparr>)))"

text \<open>\<^verbatim>\<open>cmd/netrad/main.go\<close>: one tick of the pruner.\<close>

definition prune_tick :: "faults \<Rightarrow> time \<Rightarrow> device_db \<Rightarrow> device_db" where
  "prune_tick fs now db = snd (PruneNonces fs (time_Add now (-2 * MaxClockSkew)) db)"

subsection \<open>middleware.go\<close>

definition MaxSignedBodyBytes :: nat where "MaxSignedBodyBytes = 4194304"

record signed_request =
  sr_Method :: string
  sr_Path :: string
  sr_DeviceUID :: string
  sr_Nonce :: string
  sr_Signature :: string
  sr_RawTimestamp :: string
  sr_Body :: string

datatype auth_outcome = Reject401 | Fail500 | Accept Device string

definition RequireDeviceSignature ::
  "(string \<Rightarrow> string) \<Rightarrow> (string \<Rightarrow> string \<Rightarrow> string \<Rightarrow> bool) \<Rightarrow> (time \<Rightarrow> time option) \<Rightarrow> time \<Rightarrow> faults \<Rightarrow>
   signed_request \<Rightarrow> device_db \<Rightarrow> auth_outcome \<times> device_db" where
  "RequireDeviceSignature sha edv pgts now fs r db =
     (if sr_DeviceUID r = [] \<or> sr_Nonce r = [] \<or> sr_Signature r = [] \<or> sr_RawTimestamp r = [] then (Reject401, db)
      else if ValidateNonce (sr_Nonce r) \<noteq> None then (Reject401, db)
      else case ParseInt (sr_RawTimestamp r) of
             None \<Rightarrow> (Reject401, db)
           | Some seconds \<Rightarrow>
               let timestamp = time_of_Unix seconds
               in if CheckClockSkew timestamp now \<noteq> None then (Reject401, db)
                  else if fault fs ''read body'' \<or> length (sr_Body r) > MaxSignedBodyBytes then (Reject401, db)
                  else case ByUID fs (sr_DeviceUID r) db of
                         Inl _ \<Rightarrow> (Reject401, db)
                       | Inr enrolled \<Rightarrow>
                           if d_State enrolled \<noteq> StateActive then (Reject401, db)
                           else
                             (let i = \<lparr>si_Method = sr_Method r, si_Path = sr_Path r,
                                        si_Timestamp = timestamp, si_Nonce = sr_Nonce r, si_Body = sr_Body r\<rparr>
                              in if VerifySignature sha edv (d_PublicKey enrolled) i (sr_Signature r) \<noteq> None
                                 then (Reject401, db)
                                 else case ConsumeNonce pgts fs (d_ID enrolled) (sr_Nonce r) timestamp db of
                                        (Some e, db') \<Rightarrow> (if e = ErrReplayedNonce then Reject401 else Fail500, db')
                                      | (None, db') \<Rightarrow> (Accept enrolled (sr_Body r), db')))"

subsection \<open>Clock skew\<close>

lemma CheckClockSkew_None_iff:
  "CheckClockSkew timestamp now = None \<longleftrightarrow>
     \<bar>now - timestamp\<bar> \<le> MaxClockSkew \<or> now - timestamp \<le> min_duration"
proof -
  consider (past) "now - timestamp > max_duration" | (future) "now - timestamp \<le> min_duration"
    | (near) "min_duration < now - timestamp" "now - timestamp \<le> max_duration" by linarith
  then show ?thesis
  proof cases
    case past
    then show ?thesis
      by (simp add: CheckClockSkew_def time_Sub_def min_duration_def max_duration_def MaxClockSkew_def minute_def Let_def)
  next
    case future
    then have "time_Sub now timestamp = min_duration"
      by (simp add: time_Sub_def min_duration_def max_duration_def)
    then show ?thesis
      using future by (simp add: CheckClockSkew_def duration_neg_min Let_def) (simp add: min_duration_def MaxClockSkew_def minute_def)
  next
    case near
    then have "time_Sub now timestamp = now - timestamp" by (simp add: time_Sub_def)
    moreover have "duration_neg (now - timestamp) = - (now - timestamp)"
      using near by (intro duration_neg_other) (auto simp: fits64_def min_duration_def max_duration_def)
    ultimately show ?thesis using near by (auto simp: CheckClockSkew_def Let_def)
  qed
qed

text \<open>Ten minutes after its timestamp a request is out of the window for good.\<close>

lemma CheckClockSkew_late:
  assumes "timestamp < now - 2 * MaxClockSkew" shows "CheckClockSkew timestamp now \<noteq> None"
  using assms unfolding CheckClockSkew_None_iff by (auto simp: MaxClockSkew_def minute_def min_duration_def)

subsection \<open>What an accepted request has been through\<close>

lemma ConsumeNonce_cases:
  assumes "ConsumeNonce pgts fs device nonce seenAt db = (res, db')"
  shows "(res \<noteq> None \<and> db' = db) \<or>
    (\<exists>seen. res = None \<and> pgts seenAt = Some seen \<and>
       (\<forall>n \<in> set (dd_nonces db). \<not> (rn_DeviceID n = device \<and> rn_Nonce n = nonce)) \<and>
       db' = db\<lparr>dd_nonces := dd_nonces db @ [\<lparr>rn_Nonce = nonce, rn_DeviceID = device, rn_SeenAt = seen\<rparr>]\<rparr>)"
  using assms by (auto simp: ConsumeNonce_def list_ex_iff split: option.splits if_splits)

lemma accept_cases:
  assumes "RequireDeviceSignature sha edv pgts now fs r db = (Accept d body, db')"
  obtains seconds where "ParseInt (sr_RawTimestamp r) = Some seconds"
    "CheckClockSkew (time_of_Unix seconds) now = None" "ValidateNonce (sr_Nonce r) = None"
    "d \<in> set (dd_devices db)" "d_DeviceUID d = sr_DeviceUID r" "d_State d = StateActive"
    "VerifySignature sha edv (d_PublicKey d) \<lparr>si_Method = sr_Method r, si_Path = sr_Path r,
       si_Timestamp = time_of_Unix seconds, si_Nonce = sr_Nonce r, si_Body = sr_Body r\<rparr> (sr_Signature r) = None"
    "ConsumeNonce pgts fs (d_ID d) (sr_Nonce r) (time_of_Unix seconds) db = (None, db')" "body = sr_Body r"
proof -
  obtain seconds where p: "ParseInt (sr_RawTimestamp r) = Some seconds"
    using assms by (cases "ParseInt (sr_RawTimestamp r)") (auto simp: RequireDeviceSignature_def split: if_splits)
  obtain e where e: "ByUID fs (sr_DeviceUID r) db = Inr e"
    using assms p by (cases "ByUID fs (sr_DeviceUID r) db") (auto simp: RequireDeviceSignature_def Let_def split: if_splits)
  obtain res db1 where c: "ConsumeNonce pgts fs (d_ID e) (sr_Nonce r) (time_of_Unix seconds) db = (res, db1)" by fastforce
  have "e \<in> set (dd_devices db) \<and> d_DeviceUID e = sr_DeviceUID r"
    using e by (auto simp: ByUID_def split: if_splits option.splits dest: find_SomeD)
  then show ?thesis
    using assms p e c
    by (intro that [of seconds]) (simp_all add: RequireDeviceSignature_def Let_def split: if_splits option.splits)
qed

lemma RequireDeviceSignature_db:
  assumes "RequireDeviceSignature sha edv pgts now fs r db = (out, db')"
  shows "dd_devices db' = dd_devices db \<and> dd_tokens db' = dd_tokens db \<and>
    ((\<forall>d body. out \<noteq> Accept d body) \<longrightarrow> db' = db)"
proof (cases "\<exists>d body. out = Accept d body")
  case True
  then obtain d body where out: "out = Accept d body" by blast
  from assms [unfolded out] show ?thesis
    by (rule accept_cases) (use out in \<open>auto dest!: ConsumeNonce_cases\<close>)
next
  case False
  have "db' = db"
  proof (cases "ParseInt (sr_RawTimestamp r)")
    case (Some seconds)
    show ?thesis
    proof (cases "ByUID fs (sr_DeviceUID r) db")
      case (Inr e)
      obtain res db1 where "ConsumeNonce pgts fs (d_ID e) (sr_Nonce r) (time_of_Unix seconds) db = (res, db1)" by fastforce
      with assms False Some Inr show ?thesis
        by (auto simp: RequireDeviceSignature_def Let_def split: if_splits option.splits dest: ConsumeNonce_cases)
    qed (use assms Some in \<open>auto simp: RequireDeviceSignature_def Let_def split: if_splits\<close>)
  qed (use assms in \<open>auto simp: RequireDeviceSignature_def split: if_splits\<close>)
  with False show ?thesis by blast
qed

subsection \<open>Sequences of operations\<close>

datatype device_op =
  OpIssue string uuid faults "uuid option" string duration
| OpEnroll uuid faults string EnrollRequest
| OpHeartbeat faults uuid string
| OpRevoke faults uuid string
| OpRequest faults signed_request
| OpPrune faults

text \<open>One operation at one instant, with the request it accepted: device, nonce and timestamp.\<close>

type_synonym accepted = "uuid \<times> string \<times> time"

fun exec_op ::
  "(string \<Rightarrow> string) \<Rightarrow> (string \<Rightarrow> string \<Rightarrow> string \<Rightarrow> bool) \<Rightarrow> (time \<Rightarrow> time option) \<Rightarrow> time \<Rightarrow> device_op \<Rightarrow>
   device_db \<Rightarrow> accepted option \<times> device_db" where
  "exec_op sha edv pgts now (OpIssue raw ident fs by_user label ttl) db =
     (None, snd (IssueEnrollmentToken sha raw ident now fs by_user label ttl db))"
| "exec_op sha edv pgts now (OpEnroll ident fs token r) db = (None, snd (Enroll sha ident now fs token r db))"
| "exec_op sha edv pgts now (OpHeartbeat fs ident v) db = (None, snd (Heartbeat now fs ident v db))"
| "exec_op sha edv pgts now (OpRevoke fs ident reason) db = (None, snd (Revoke now fs ident reason db))"
| "exec_op sha edv pgts now (OpRequest fs r) db =
     (case RequireDeviceSignature sha edv pgts now fs r db of
        (Accept d body, db') \<Rightarrow> (Some (d_ID d, sr_Nonce r, time_of_Unix (the (ParseInt (sr_RawTimestamp r)))), db')
      | (_, db') \<Rightarrow> (None, db'))"
| "exec_op sha edv pgts now (OpPrune fs) db = (None, prune_tick fs now db)"

inductive agent_run ::
  "(string \<Rightarrow> string) \<Rightarrow> (string \<Rightarrow> string \<Rightarrow> string \<Rightarrow> bool) \<Rightarrow> (time \<Rightarrow> time option) \<Rightarrow> device_db \<Rightarrow>
   time \<Rightarrow> device_db \<Rightarrow> accepted list \<Rightarrow> bool"
  for sha edv pgts db0 where
  start: "agent_run sha edv pgts db0 now db0 []"
| step: "agent_run sha edv pgts db0 clock db acc \<Longrightarrow> clock \<le> now \<Longrightarrow>
    exec_op sha edv pgts now op db = (out, db') \<Longrightarrow>
    agent_run sha edv pgts db0 now db' (acc @ (case out of None \<Rightarrow> [] | Some a \<Rightarrow> [a]))"

lemma exec_op_accept:
  assumes "exec_op sha edv pgts now op db = (Some (i, n, t), db')"
  obtains seen d where "CheckClockSkew t now = None" "pgts t = Some seen" "d \<in> set (dd_devices db)"
    "d_ID d = i" "d_State d = StateActive"
    "\<forall>m \<in> set (dd_nonces db). \<not> (rn_DeviceID m = i \<and> rn_Nonce m = n)"
    "db' = db\<lparr>dd_nonces := dd_nonces db @ [\<lparr>rn_Nonce = n, rn_DeviceID = i, rn_SeenAt = seen\<rparr>]\<rparr>"
proof -
  obtain fs r where op: "op = OpRequest fs r" using assms by (cases op) auto
  obtain out where r: "RequireDeviceSignature sha edv pgts now fs r db = (out, db')"
    using assms op by (auto split: prod.splits auth_outcome.splits)
  then obtain d body where out: "out = Accept d body" using assms op by (cases out) auto
  from r [unfolded out] obtain seconds where "ParseInt (sr_RawTimestamp r) = Some seconds"
      "CheckClockSkew (time_of_Unix seconds) now = None" "d \<in> set (dd_devices db)" "d_State d = StateActive"
      "ConsumeNonce pgts fs (d_ID d) (sr_Nonce r) (time_of_Unix seconds) db = (None, db')"
    by (rule accept_cases) blast
  then show ?thesis
    using assms op r out by (auto intro: that dest!: ConsumeNonce_cases)
qed

lemma exec_op_nonces:
  assumes "exec_op sha edv pgts now op db = (None, db')" "m \<in> set (dd_nonces db)"
  shows "m \<in> set (dd_nonces db') \<or> rn_SeenAt m < now - 2 * MaxClockSkew"
proof (cases op)
  case (OpRequest fs r)
  obtain out db1 where r: "RequireDeviceSignature sha edv pgts now fs r db = (out, db1)" by fastforce
  then have "db' = db1" "\<forall>d body. out \<noteq> Accept d body"
    using assms(1) OpRequest by (auto split: auth_outcome.splits)
  with RequireDeviceSignature_db [OF r] assms(2) show ?thesis by simp
next
  case (OpPrune fs)
  then show ?thesis
    using assms by (auto simp: prune_tick_def PruneNonces_def time_Add_def Let_def)
qed (use assms in \<open>auto simp: IssueEnrollmentToken_def Enroll_def Heartbeat_def Revoke_def Let_def
    split: if_splits option.splits\<close>)

lemma agent_run_nonces:
  assumes exact: "\<forall>t seen. pgts t = Some seen \<longrightarrow> seen = t"
  shows "agent_run sha edv pgts db0 clock db acc \<Longrightarrow>
    distinct acc \<and> (\<forall>(i, n, t) \<in> set acc.
      \<lparr>rn_Nonce = n, rn_DeviceID = i, rn_SeenAt = t\<rparr> \<in> set (dd_nonces db) \<or> t < clock - 2 * MaxClockSkew)"
proof (induction rule: agent_run.induct)
  case (step clock db acc now op out db')
  show ?case
  proof (cases out)
    case None
    then show ?thesis
      using step.IH step.hyps exec_op_nonces [of sha edv pgts now op db db'] by fastforce
  next
    case (Some a)
    obtain i n t where a: "a = (i, n, t)" by (cases a)
    from step.hyps(3) [unfolded Some a] obtain seen where ac: "CheckClockSkew t now = None" "pgts t = Some seen"
        "\<forall>m \<in> set (dd_nonces db). \<not> (rn_DeviceID m = i \<and> rn_Nonce m = n)"
        "db' = db\<lparr>dd_nonces := dd_nonces db @ [\<lparr>rn_Nonce = n, rn_DeviceID = i, rn_SeenAt = seen\<rparr>]\<rparr>"
      by (rule exec_op_accept) blast
    have "\<not> t < clock - 2 * MaxClockSkew"
      using CheckClockSkew_late [of t now] ac(1) step.hyps(2) by auto
    then have "(i, n, t) \<notin> set acc" using step.IH ac(3) by force
    then show ?thesis
      using step.IH step.hyps(2) ac(2,4) exact Some a by fastforce
  qed
qed simp

text \<open>A revoked device stays revoked, and its identifier is never given to another.\<close>

definition revoked :: "uuid \<Rightarrow> device_db \<Rightarrow> bool" where
  "revoked i db \<longleftrightarrow> i \<in> set (map d_ID (dd_devices db)) \<and>
     (\<forall>d \<in> set (dd_devices db). d_ID d = i \<longrightarrow> d_State d = StateRevoked)"

lemma beat_sel [simp]:
  "d_ID (beat now i v d) = d_ID d" "d_State (beat now i v d) = d_State d"
  "d_DeviceUID (beat now i v d) = d_DeviceUID d"
  by (simp_all add: beat_def)

lemma mark_revoked_sel [simp]:
  "d_ID (mark_revoked now i reason d) = d_ID d" "d_DeviceUID (mark_revoked now i reason d) = d_DeviceUID d"
  "d_State (mark_revoked now i reason d) = (if d_ID d = i then StateRevoked else d_State d)"
  by (simp_all add: mark_revoked_def)

lemma Revoke_revokes: "Revoke now fs i reason db = (None, db') \<Longrightarrow> revoked i db'"
  by (auto simp: Revoke_def revoked_def list_ex_iff image_image split: if_splits)

lemma revoked_devices: "revoked i db \<Longrightarrow> dd_devices db' = dd_devices db \<Longrightarrow> revoked i db'"
  by (simp add: revoked_def)

lemma revoked_step:
  assumes "revoked i db" "exec_op sha edv pgts now op db = (out, db')"
  shows "revoked i db'"
proof (cases op)
  case (OpRequest fs r)
  obtain res db1 where r: "RequireDeviceSignature sha edv pgts now fs r db = (res, db1)" by fastforce
  then have "db' = db1" using assms(2) OpRequest by (auto split: auth_outcome.splits)
  with RequireDeviceSignature_db [OF r] show ?thesis by (intro revoked_devices [OF assms(1)]) simp
next
  case (OpPrune fs)
  then show ?thesis
    using assms(2) by (intro revoked_devices [OF assms(1)]) (auto simp: prune_tick_def PruneNonces_def Let_def)
next
  case (OpIssue raw ident fs by_user label ttl)
  then show ?thesis
    using assms(2) by (intro revoked_devices [OF assms(1)]) (auto simp: IssueEnrollmentToken_def Let_def)
next
  case (OpEnroll ident fs token r)
  then show ?thesis
    using assms by (auto simp: Enroll_def revoked_def enrolled_row_def Let_def split: if_splits option.splits)
next
  case (OpHeartbeat fs j v)
  then show ?thesis
    using assms by (auto simp: revoked_def Heartbeat_def image_image split: if_splits)
next
  case (OpRevoke fs j reason)
  then show ?thesis
    using assms by (auto simp: revoked_def Revoke_def image_image split: if_splits)
qed

lemma revoked_run:
  "agent_run sha edv pgts db0 clock db acc \<Longrightarrow> revoked i db0 \<Longrightarrow> revoked i db \<and> (\<forall>(j, n, t) \<in> set acc. j \<noteq> i)"
proof (induction rule: agent_run.induct)
  case (step clock db acc now op out db')
  have "j \<noteq> i" if "out = Some (j, n, t)" for j n t
    using step.hyps(3) [unfolded that] by (rule exec_op_accept) (use step.IH [OF step.prems] in \<open>auto simp: revoked_def\<close>)
  then show ?case
    using step.IH [OF step.prems] revoked_step [OF _ step.hyps(3)] by (auto split: option.splits)
qed simp

subsection \<open>Enrollment tokens are spent once\<close>

definition tokens_ok :: "device_db \<Rightarrow> bool" where
  "tokens_ok db \<longleftrightarrow> distinct (map et_TokenHash (dd_tokens db)) \<and> distinct (map et_ID (dd_tokens db))"

definition tokens_spent :: "device_db \<Rightarrow> string option set" where
  "tokens_spent db = {Some (et_TokenHash t) | t. t \<in> set (dd_tokens db) \<and> et_UsedAt t \<noteq> None}"

fun token_key :: "(string \<Rightarrow> string) \<Rightarrow> time \<times> device_op \<Rightarrow> string option" where
  "token_key sha (now, OpEnroll ident fs token r) = Some (sha (TrimSpace token))"
| "token_key sha (now, _) = None"

fun spend_token ::
  "(string \<Rightarrow> string) \<Rightarrow> (string \<Rightarrow> string \<Rightarrow> string \<Rightarrow> bool) \<Rightarrow> (time \<Rightarrow> time option) \<Rightarrow> time \<times> device_op \<Rightarrow>
   device_db \<Rightarrow> bool \<times> device_db" where
  "spend_token sha edv pgts (now, OpEnroll ident fs token r) db =
     (case Enroll sha ident now fs token r db of (Inr d, db') \<Rightarrow> (True, db') | (Inl e, db') \<Rightarrow> (False, db'))"
| "spend_token sha edv pgts (now, op) db = (False, snd (exec_op sha edv pgts now op db))"

lemma Enroll_cases:
  assumes "Enroll sha ident now fs token r db = (res, db')"
  shows "(\<exists>e. res = Inl e) \<and> db' = db \<or>
    (\<exists>t. res = Inr (enrolled_row ident now r) \<and> EnrollRequest_Validate r = None \<and>
       find (\<lambda>t. et_TokenHash t = sha (TrimSpace token)) (dd_tokens db) = Some t \<and>
       et_UsedAt t = None \<and> \<not> time_After now (et_ExpiresAt t) \<and>
       er_DeviceUID r \<notin> set (map d_DeviceUID (dd_devices db)) \<and> ident \<notin> set (map d_ID (dd_devices db)) \<and>
       db' = db\<lparr>dd_devices := dd_devices db @ [enrolled_row ident now r],
                dd_tokens := map (spend (et_ID t) now ident) (dd_tokens db)\<rparr>)"
  using assms unfolding Enroll_def Let_def by (simp only: split: option.splits if_splits) auto

lemma spend_sel [simp]: "et_TokenHash (spend i now d t) = et_TokenHash t" "et_ID (spend i now d t) = et_ID t"
    "et_UsedAt (spend i now d t) = (if et_ID t = i then Some now else et_UsedAt t)"
  by (simp_all add: spend_def)

lemma map_spend [simp]:
  "map et_TokenHash (map (spend i now d) ts) = map et_TokenHash ts" "map et_ID (map (spend i now d) ts) = map et_ID ts"
  by (simp_all add: comp_def)

lemma tokens_unchanged:
  "dd_tokens db' = dd_tokens db \<Longrightarrow> tokens_ok db' = tokens_ok db \<and> tokens_spent db' = tokens_spent db"
  by (simp add: tokens_ok_def tokens_spent_def)

lemma other_op_tokens:
  assumes "exec_op sha edv pgts now op db = (out, db')" "\<And>i fs tok r. op \<noteq> OpEnroll i fs tok r" "tokens_ok db"
  shows "tokens_ok db' \<and> tokens_spent db \<subseteq> tokens_spent db'"
proof (cases op)
  case (OpIssue raw ident fs by_user label ttl)
  then show ?thesis
    using assms(1,3) by (auto simp: IssueEnrollmentToken_def tokens_ok_def tokens_spent_def Let_def split: if_splits)
next
  case (OpRequest fs r)
  obtain res db1 where r: "RequireDeviceSignature sha edv pgts now fs r db = (res, db1)" by fastforce
  then have "db' = db1" using assms(1) OpRequest by (auto split: auth_outcome.splits)
  with RequireDeviceSignature_db [OF r] tokens_unchanged [of db1 db] assms(3) show ?thesis by simp
next
  case (OpPrune fs)
  then have "dd_tokens db' = dd_tokens db" using assms(1) by (auto simp: prune_tick_def PruneNonces_def Let_def)
  from tokens_unchanged [OF this] assms(3) show ?thesis by simp
next
  case (OpHeartbeat fs i v)
  then have "dd_tokens db' = dd_tokens db" using assms(1) by (auto simp: Heartbeat_def)
  from tokens_unchanged [OF this] assms(3) show ?thesis by simp
next
  case (OpRevoke fs i reason)
  then have "dd_tokens db' = dd_tokens db" using assms(1) by (auto simp: Revoke_def)
  from tokens_unchanged [OF this] assms(3) show ?thesis by simp
qed (use assms(2) in simp)

lemma Enroll_spends:
  assumes "tokens_ok db" "Enroll sha ident now fs token r db = (Inr d, db')"
  shows "Some (sha (TrimSpace token)) \<notin> tokens_spent db" "Some (sha (TrimSpace token)) \<in> tokens_spent db'"
    and "tokens_ok db'" "tokens_spent db \<subseteq> tokens_spent db'"
proof -
  obtain t where t: "find (\<lambda>t. et_TokenHash t = sha (TrimSpace token)) (dd_tokens db) = Some t" "et_UsedAt t = None"
      "dd_tokens db' = map (spend (et_ID t) now ident) (dd_tokens db)"
    using Enroll_cases [OF assms(2)] by auto
  have m: "t \<in> set (dd_tokens db)" "et_TokenHash t = sha (TrimSpace token)" using find_SomeD [OF t(1)] by auto
  have "inj_on et_TokenHash (set (dd_tokens db))" using assms(1) by (simp add: tokens_ok_def distinct_map)
  then have "u = t" if "u \<in> set (dd_tokens db)" "et_TokenHash u = et_TokenHash t" for u
    using that m(1) by (metis inj_onD)
  then have "\<not> (\<exists>u \<in> set (dd_tokens db). et_TokenHash u = sha (TrimSpace token) \<and> et_UsedAt u \<noteq> None)"
    using m(2) t(2) by metis
  then show "Some (sha (TrimSpace token)) \<notin> tokens_spent db" by (auto simp: tokens_spent_def)
  show "Some (sha (TrimSpace token)) \<in> tokens_spent db'"
    using m t(3) by (auto simp: tokens_spent_def intro!: exI [of _ "spend (et_ID t) now ident t"])
  show "tokens_ok db'" using assms(1) by (simp only: tokens_ok_def t(3) map_spend)
  show "tokens_spent db \<subseteq> tokens_spent db'"
  proof
    fix k assume "k \<in> tokens_spent db"
    then obtain u where "u \<in> set (dd_tokens db)" "et_UsedAt u \<noteq> None" "k = Some (et_TokenHash u)"
      by (auto simp: tokens_spent_def)
    then show "k \<in> tokens_spent db'"
      using t(3) by (auto simp: tokens_spent_def intro!: exI [of _ "spend (et_ID t) now ident u"])
  qed
qed

interpretation tokens: single_use "spend_token sha edv pgts" "token_key sha" tokens_spent tokens_ok
  for sha edv pgts
proof
  fix db db' :: device_db and x :: "time \<times> device_op" and b assume ok: "tokens_ok db"
  obtain now op where x: "x = (now, op)" by fastforce
  have enroll: "\<exists>i fs tok r d. op = OpEnroll i fs tok r \<and> Enroll sha i now fs tok r db = (Inr d, db')"
    if "spend_token sha edv pgts x db = (True, db')"
    using that x by (cases op) (auto split: prod.splits sum.splits)
  show "spend_token sha edv pgts x db = (True, db') \<Longrightarrow> token_key sha x \<notin> tokens_spent db"
    using enroll Enroll_spends(1) [OF ok] x by fastforce
  show "spend_token sha edv pgts x db = (True, db') \<Longrightarrow> token_key sha x \<in> tokens_spent db'"
    using enroll Enroll_spends(2) [OF ok] x by fastforce
  assume s: "spend_token sha edv pgts x db = (b, db')"
  have "tokens_ok db' \<and> tokens_spent db \<subseteq> tokens_spent db'"
  proof (cases "\<exists>i fs tok r. op = OpEnroll i fs tok r")
    case True
    then obtain i fs tok r where op: "op = OpEnroll i fs tok r" by blast
    obtain res db1 where e: "Enroll sha i now fs tok r db = (res, db1)" by fastforce
    then have "db1 = db'" using s x op by (auto split: sum.splits)
    then show ?thesis
      using e ok Enroll_spends(3,4) [OF ok, of sha i now fs tok r] Enroll_cases [OF e] by (cases res) auto
  next
    case False
    then have "exec_op sha edv pgts now op db = (fst (exec_op sha edv pgts now op db), db')"
      using s x by (cases op) (auto simp: prod_eq_iff)
    with False other_op_tokens [OF this _ ok] show ?thesis by blast
  qed
  then show "tokens_spent db \<subseteq> tokens_spent db'" "tokens_ok db'" by blast+
qed

subsection \<open>What a signature covers\<close>

lemma ToUpper_newline: "newline \<in> set (ToUpper s) \<Longrightarrow> newline \<in> set s"
  by (rule ToUpper_char) (simp_all add: newline_def)

lemma nonce_char_not_newline [simp]: "\<not> nonce_char newline"
  by (simp add: nonce_char_def newline_def byte_def)

lemma valid_nonce_newline: "ValidateNonce n = None \<Longrightarrow> newline \<notin> set n"
  by (auto simp: ValidateNonce_def list_all_iff split: if_splits)

lemma CanonicalString_inject:
  assumes "CanonicalString sha i = CanonicalString sha j"
    and "newline \<notin> set (si_Method i)" "newline \<notin> set (si_Method j)"
    and "newline \<notin> set (si_Nonce i)" "newline \<notin> set (si_Nonce j)"
  shows "ToUpper (si_Method i) = ToUpper (si_Method j) \<and> si_Path i = si_Path j \<and>
    time_Unix (si_Timestamp i) = time_Unix (si_Timestamp j) \<and> si_Nonce i = si_Nonce j \<and>
    sha (si_Body i) = sha (si_Body j)"
proof -
  let ?rest = "\<lambda>k. ((si_Path k @ newline # show_int (time_Unix (si_Timestamp k))) @ newline # si_Nonce k) @
    newline # hex_encode (sha (si_Body k))"
  have "ToUpper (si_Method i) @ newline # ?rest i = ToUpper (si_Method j) @ newline # ?rest j"
    using assms(1) by (simp add: CanonicalString_def)
  then have m: "ToUpper (si_Method i) = ToUpper (si_Method j)" "?rest i = ?rest j"
    using split_at_first [of _ newline] assms(2,3) ToUpper_newline by blast+
  from split_at_last [OF m(2)] have h: "hex_encode (sha (si_Body i)) = hex_encode (sha (si_Body j))"
      "(si_Path i @ newline # show_int (time_Unix (si_Timestamp i))) @ newline # si_Nonce i =
       (si_Path j @ newline # show_int (time_Unix (si_Timestamp j))) @ newline # si_Nonce j"
    by simp_all
  from split_at_last [OF h(2) assms(4,5)] have n: "si_Nonce i = si_Nonce j"
      "si_Path i @ newline # show_int (time_Unix (si_Timestamp i)) =
       si_Path j @ newline # show_int (time_Unix (si_Timestamp j))" by simp_all
  from split_at_last [OF n(2)] have "si_Path i = si_Path j"
      "show_int (time_Unix (si_Timestamp i)) = show_int (time_Unix (si_Timestamp j))" by simp_all
  with m(1) n(1) h(1) show ?thesis by (simp add: hex_encode_inject)
qed

subsection \<open>Properties\<close>

text \<open>A device and a request it signed, under a verifier that accepts every signature.\<close>

definition sample_enroll :: EnrollRequest where
  "sample_enroll = \<lparr>er_DeviceUID = ''device-0001'', er_Hostname = ''host'', er_OSName = ''macos'',
     er_OSVersion = ''14'', er_AgentVersion = ''1'', er_PublicKey = replicate 32 (CHR ''k''),
     er_KeyProtection = ''tpm''\<rparr>"

definition sample_db :: device_db where
  "sample_db = \<lparr>dd_devices = [enrolled_row 7 0 sample_enroll],
     dd_tokens = [\<lparr>et_ID = 1, et_TokenHash = ''token'', et_Label = [], et_CreatedBy = None,
       et_ExpiresAt = hour, et_UsedAt = None, et_DeviceID = None\<rparr>], dd_nonces = []\<rparr>"

definition sample_signed :: signed_request where
  "sample_signed = \<lparr>sr_Method = ''POST'', sr_Path = ''/v1/heartbeat'', sr_DeviceUID = ''device-0001'',
     sr_Nonce = replicate 16 (CHR ''a''),
     sr_Signature = concat (replicate 21 ''AAAA'') @ ''AA=='', sr_RawTimestamp = ''1000'', sr_Body = []\<rparr>"

lemma b64_quads_AAAA: "b64_quads (concat (replicate n ''AAAA'') @ ''AA=='') = Some (replicate (3 * n + 1) (CHR 0x00))"
proof -
  have v: "b64_value (CHR ''A'') = Some 0" by (simp add: b64_value_def byte_def Let_def)
  have z: "char_of (0 :: nat) = CHR 0x00" by (simp add: char_of_def)
  show ?thesis
  proof (induction n)
    case (Suc n)
    have "replicate (3 * Suc n + 1) x = x # x # x # replicate (3 * n + 1) x" for x :: char
      by (metis (no_types) add_Suc_right add_Suc mult_Suc_right numeral_3_eq_3 plus_nat.add_0 replicate_Suc)
    with Suc show ?case by (simp only:) (simp add: v z del: One_nat_def)
  qed (simp add: v z)
qed

lemma sample_signature: "StdDecode (sr_Signature sample_signed) = Some (replicate 64 (CHR 0x00))"
proof -
  have "filter (\<lambda>c. c \<noteq> CHR 0x0D \<and> c \<noteq> CHR 0x0A) (concat (replicate n ''AAAA'') @ ''AA=='') =
      concat (replicate n ''AAAA'') @ ''AA==''" for n
    by (induction n) simp_all
  from this [of 21] b64_quads_AAAA [of 21] show ?thesis by (simp only: StdDecode_def sample_signed_def signed_request.simps) simp
qed

lemma sample_timestamp: "ParseInt ''1000'' = Some 1000" "time_of_Unix 1000 = 1000 * second"
  by (simp_all add: ParseInt_def nat_of_digits.simps is_digit_def fits64_def time_of_Unix_def wrap64_def Let_def)

lemma sample_accepted:
  "exec_op id (\<lambda>_ _ _. True) Some (1000 * second) (OpRequest [] sample_signed) sample_db =
     (Some (7, replicate 16 (CHR ''a''), 1000 * second),
      sample_db\<lparr>dd_nonces := [\<lparr>rn_Nonce = replicate 16 (CHR ''a''), rn_DeviceID = 7, rn_SeenAt = 1000 * second\<rparr>]\<rparr>)"
proof -
  have "CheckClockSkew (1000 * second) (1000 * second) = None"
    by (simp add: CheckClockSkew_None_iff MaxClockSkew_def minute_def)
  moreover have "ValidateNonce (replicate 16 (CHR ''a'')) = None"
    by (simp add: ValidateNonce_def NonceMinLength_def nonce_char_def byte_def list_all_iff)
  ultimately show ?thesis
    using sample_signature
    by (simp add: RequireDeviceSignature_def sample_signed_def sample_timestamp ByUID_def sample_db_def
        enrolled_row_def sample_enroll_def VerifySignature_def PublicKeySize_def SignatureSize_def
        ConsumeNonce_def MaxSignedBodyBytes_def Let_def)
qed

text \<open>
  C3: no signed request is accepted twice.  Along every interleaving of requests, pruning,
  enrollment, heartbeats and revocation under a clock that does not go backwards, no device has
  two requests with the same nonce and timestamp accepted: pruning only forgets a nonce once
  its request is out of the clock window.  The database stores a timestamp exactly or rejects it.
\<close>

theorem no_request_accepted_twice:
  assumes "\<forall>t seen. pgts t = Some seen \<longrightarrow> seen = t" "agent_run sha edv pgts db0 clock db acc"
  shows "distinct acc"
  using agent_run_nonces [OF assms] by blast

theorem no_request_accepted_twice_witness:
  "\<exists>clock db acc. agent_run id (\<lambda>_ _ _. True) Some sample_db clock db acc \<and> acc \<noteq> [] \<and> distinct acc"
proof -
  have r: "agent_run id (\<lambda>_ _ _. True) Some sample_db (1000 * second)
      (sample_db\<lparr>dd_nonces := [\<lparr>rn_Nonce = replicate 16 (CHR ''a''), rn_DeviceID = 7, rn_SeenAt = 1000 * second\<rparr>]\<rparr>)
      ([] @ (case Some (7, replicate 16 (CHR ''a''), 1000 * second) of None \<Rightarrow> [] | Some a \<Rightarrow> [a]))"
    by (rule agent_run.step [OF agent_run.start order_refl sample_accepted])
  have "\<forall>t seen. Some t = Some seen \<longrightarrow> seen = (t :: time)" by simp
  from no_request_accepted_twice [OF this r] r show ?thesis by (metis append_Nil list.distinct(1) option.simps(5))
qed

text \<open>
  C13: what acceptance means.  A request the middleware passes on names a device that is enrolled and
  active, carries a signature that verifies under that device's key over its method, path,
  timestamp, nonce and body, and a nonce the device has not used; every other outcome leaves the
  tables unchanged.
\<close>

theorem accepted_request_authentic:
  assumes "RequireDeviceSignature sha edv pgts now fs r db = (out, db')"
  shows "(\<forall>d body. out = Accept d body \<longrightarrow>
      d \<in> set (dd_devices db) \<and> d_DeviceUID d = sr_DeviceUID r \<and> d_State d = StateActive \<and> body = sr_Body r \<and>
      (\<exists>seconds raw. ParseInt (sr_RawTimestamp r) = Some seconds \<and> StdDecode (sr_Signature r) = Some raw \<and>
         edv (d_PublicKey d) (CanonicalString sha \<lparr>si_Method = sr_Method r, si_Path = sr_Path r,
           si_Timestamp = time_of_Unix seconds, si_Nonce = sr_Nonce r, si_Body = sr_Body r\<rparr>) raw) \<and>
      (\<forall>n \<in> set (dd_nonces db). rn_DeviceID n = d_ID d \<longrightarrow> rn_Nonce n \<noteq> sr_Nonce r)) \<and>
    ((\<forall>d body. out \<noteq> Accept d body) \<longrightarrow> db' = db)"
proof (intro conjI allI impI)
  fix d body assume out: "out = Accept d body"
  from assms [unfolded out] obtain seconds where c: "ParseInt (sr_RawTimestamp r) = Some seconds"
    "d \<in> set (dd_devices db)" "d_DeviceUID d = sr_DeviceUID r" "d_State d = StateActive" "body = sr_Body r"
    "VerifySignature sha edv (d_PublicKey d) \<lparr>si_Method = sr_Method r, si_Path = sr_Path r,
       si_Timestamp = time_of_Unix seconds, si_Nonce = sr_Nonce r, si_Body = sr_Body r\<rparr> (sr_Signature r) = None"
    "ConsumeNonce pgts fs (d_ID d) (sr_Nonce r) (time_of_Unix seconds) db = (None, db')"
    by (rule accept_cases)
  then show "d \<in> set (dd_devices db)" "d_DeviceUID d = sr_DeviceUID r" "d_State d = StateActive" "body = sr_Body r"
    "\<exists>seconds raw. ParseInt (sr_RawTimestamp r) = Some seconds \<and> StdDecode (sr_Signature r) = Some raw \<and>
         edv (d_PublicKey d) (CanonicalString sha \<lparr>si_Method = sr_Method r, si_Path = sr_Path r,
           si_Timestamp = time_of_Unix seconds, si_Nonce = sr_Nonce r, si_Body = sr_Body r\<rparr>) raw"
    by (auto simp: VerifySignature_def split: if_splits option.splits)
  show "\<forall>n \<in> set (dd_nonces db). rn_DeviceID n = d_ID d \<longrightarrow> rn_Nonce n \<noteq> sr_Nonce r"
    using ConsumeNonce_cases [OF c(7)] by blast
qed (use RequireDeviceSignature_db [OF assms] in blast)

theorem accepted_request_authentic_witness:
  "\<exists>d body db'. RequireDeviceSignature id (\<lambda>_ _ _. True) Some (1000 * second) [] sample_signed sample_db =
     (Accept d body, db') \<and> d_State d = StateActive"
proof -
  obtain out db' where r: "RequireDeviceSignature id (\<lambda>_ _ _. True) Some (1000 * second) [] sample_signed sample_db = (out, db')"
    by fastforce
  then obtain d body where "out = Accept d body" using sample_accepted by (cases out) auto
  with accepted_request_authentic [OF r] r show ?thesis by blast
qed

text \<open>
  C14: revocation is immediate and final.  Once revoking a device has succeeded, no request of that
  device is accepted along any further sequence of operations, enrollments included.
\<close>

theorem revoked_device_never_accepted:
  assumes "Revoke now fs i reason db = (None, db0)" "agent_run sha edv pgts db0 clock db' acc"
  shows "\<forall>(j, nonce, t) \<in> set acc. j \<noteq> i"
  using revoked_run [OF assms(2) Revoke_revokes [OF assms(1)]] by blast

theorem revoked_device_never_accepted_witness:
  "\<exists>db0. Revoke 0 [] 7 ''lost'' sample_db = (None, db0) \<and>
     (\<forall>out db'. exec_op id (\<lambda>_ _ _. True) Some (1000 * second) (OpRequest [] sample_signed) db0 = (Some out, db') \<longrightarrow> fst out \<noteq> 7)"
proof -
  obtain db0 where r: "Revoke 0 [] 7 ''lost'' sample_db = (None, db0)"
    by (simp add: Revoke_def sample_db_def enrolled_row_def)
  have "fst out \<noteq> 7"
    if e: "exec_op id (\<lambda>_ _ _. True) Some (1000 * second) (OpRequest [] sample_signed) db0 = (Some out, db')" for out db'
    using revoked_device_never_accepted [OF r agent_run.step [OF agent_run.start order_refl e]]
    by (cases out) simp
  with r show ?thesis by blast
qed

text \<open>
  C19: an enrollment token enrols one device.  Along every sequence of operations on a database with
  distinct tokens, no token is spent twice, and a token that was spent is refused from then on;
  a successful enrollment had an unused, unexpired token and a device identifier nobody holds.
\<close>

theorem enrollment_token_single_use:
  assumes "tokens_ok db" "run_spends (spend_token sha edv pgts) (token_key sha) ops db = (ks, db')"
    and "Enroll sha ident now fs token r db' = (res, db'')"
  shows "distinct ks \<and> (Some (sha (TrimSpace token)) \<in> set ks \<longrightarrow> (\<exists>e. res = Inl e) \<and> db'' = db') \<and>
    (\<forall>d. res = Inr d \<longrightarrow> d_State d = StateActive \<and> d_DeviceUID d \<notin> set (map d_DeviceUID (dd_devices db')) \<and>
       (\<exists>t \<in> set (dd_tokens db'). et_TokenHash t = sha (TrimSpace token) \<and> et_UsedAt t = None \<and> now \<le> et_ExpiresAt t))"
proof -
  note run = tokens.run_spends_once [OF assms(1,2)]
  have sound: "d_State d = StateActive \<and> d_DeviceUID d \<notin> set (map d_DeviceUID (dd_devices db')) \<and>
      (\<exists>t \<in> set (dd_tokens db'). et_TokenHash t = sha (TrimSpace token) \<and> et_UsedAt t = None \<and> now \<le> et_ExpiresAt t)"
    if "res = Inr d" for d
    using Enroll_cases [OF assms(3)] that
    by (auto simp: enrolled_row_def time_After_def not_less dest!: find_SomeD)
  have "\<exists>e. res = Inl e" if "Some (sha (TrimSpace token)) \<in> set ks"
  proof (rule ccontr)
    assume "\<not> (\<exists>e. res = Inl e)"
    then obtain d where "res = Inr d" by (cases res) auto
    from Enroll_spends(1) [OF _ assms(3) [unfolded this]] run that show False by blast
  qed
  moreover have "db'' = db'" if "\<exists>e. res = Inl e" using Enroll_cases [OF assms(3)] that by auto
  ultimately show ?thesis using run sound by blast
qed

definition second_enroll :: EnrollRequest where
  "second_enroll = sample_enroll\<lparr>er_DeviceUID := ''device-0002''\<rparr>"

lemma second_enrolls:
  "Enroll id 9 0 [] ''token'' second_enroll sample_db = (Inr (enrolled_row 9 0 second_enroll),
     sample_db\<lparr>dd_devices := dd_devices sample_db @ [enrolled_row 9 0 second_enroll],
       dd_tokens := map (spend 1 0 9) (dd_tokens sample_db)\<rparr>)"
proof -
  have "TrimSpace ''token'' = ''token''" by (simp add: TrimSpace_ascii is_space_def)
  moreover have "EnrollRequest_Validate second_enroll = None" by code_simp
  ultimately show ?thesis
    by (simp add: Enroll_def sample_db_def second_enroll_def sample_enroll_def enrolled_row_def time_After_def hour_def Let_def)
qed

theorem enrollment_token_single_use_witness:
  "\<exists>db'. run_spends (spend_token id (\<lambda>_ _ _. True) Some) (token_key id)
       [(0, OpEnroll 9 [] ''token'' second_enroll), (1, OpPrune [])] sample_db = ([Some ''token''], db') \<and>
     length (dd_devices db') = 2 \<and>
     (\<exists>e. Enroll id 11 2 [] ''token'' (second_enroll\<lparr>er_DeviceUID := ''device-0003''\<rparr>) db' = (Inl e, db'))"
proof -
  obtain db1 where e: "Enroll id 9 0 [] ''token'' second_enroll sample_db = (Inr (enrolled_row 9 0 second_enroll), db1)"
      "length (dd_devices db1) = 2"
    using second_enrolls by (simp add: sample_db_def)
  have t: "TrimSpace ''token'' = ''token''" by (simp add: TrimSpace_ascii is_space_def)
  let ?db = "prune_tick [] 1 db1"
  have r: "run_spends (spend_token id (\<lambda>_ _ _. True) Some) (token_key id)
      [(0, OpEnroll 9 [] ''token'' second_enroll), (1, OpPrune [])] sample_db = ([Some ''token''], ?db)"
    using e t by simp
  obtain res db'' where again: "Enroll id 11 2 [] ''token'' (second_enroll\<lparr>er_DeviceUID := ''device-0003''\<rparr>) ?db = (res, db'')"
    by fastforce
  have "tokens_ok sample_db" by (simp add: tokens_ok_def sample_db_def)
  from enrollment_token_single_use [OF this r again] t have "\<exists>e. res = Inl e" "db'' = ?db" by auto
  moreover have "length (dd_devices ?db) = 2" using e(2) by (simp add: prune_tick_def PruneNonces_def Let_def)
  ultimately show ?thesis using r again by blast
qed

text \<open>
  The clock window.  A timestamp is accepted if it is at most five minutes away from the clock in
  either direction, and also if it lies so far in the future that the difference saturates: the
  negation of the least duration overflows.  A request dated more than 292 years ahead therefore
  passes the check at any time.
\<close>

theorem clock_window:
  "CheckClockSkew timestamp now = None \<longleftrightarrow>
     \<bar>now - timestamp\<bar> \<le> 5 * minute \<or> timestamp - now \<ge> 2 ^ 63"
  unfolding CheckClockSkew_None_iff MaxClockSkew_def min_duration_def by linarith

text \<open>
  A signature covers every part of the request.  Two inputs with the same canonical string have
  the same method up to case, path, timestamp in seconds, nonce and body digest, even when the
  path contains line breaks; nonces are validated and a method is a token.
\<close>

theorem canonical_string_unambiguous:
  assumes "CanonicalString sha i = CanonicalString sha j"
    and "newline \<notin> set (si_Method i)" "newline \<notin> set (si_Method j)"
    and "ValidateNonce (si_Nonce i) = None" "ValidateNonce (si_Nonce j) = None"
  shows "ToUpper (si_Method i) = ToUpper (si_Method j) \<and> si_Path i = si_Path j \<and>
    time_Unix (si_Timestamp i) = time_Unix (si_Timestamp j) \<and> si_Nonce i = si_Nonce j \<and>
    sha (si_Body i) = sha (si_Body j)"
  using CanonicalString_inject [OF assms(1-3)] assms(4,5) valid_nonce_newline by blast

theorem canonical_string_unambiguous_witness:
  "ToUpper ''post'' = ToUpper ''POST''"
proof -
  let ?i = "\<lambda>m. \<lparr>si_Method = m, si_Path = ''/v1'', si_Timestamp = 0, si_Nonce = replicate 16 (CHR ''a''), si_Body = []\<rparr>"
  have "ValidateNonce (replicate 16 (CHR ''a'')) = None"
    by (simp add: ValidateNonce_def NonceMinLength_def nonce_char_def byte_def list_all_iff)
  moreover have "CanonicalString id (?i ''post'') = CanonicalString id (?i ''POST'')"
    by (simp add: CanonicalString_def ToUpper_ascii to_upper_char_def char_of_def bit_0 Let_def)
  ultimately show ?thesis
    using canonical_string_unambiguous [of id "?i ''post''" "?i ''POST''"] by (simp add: newline_def)
qed

end
