(* ===== verification/Session.thy ===== *)
theory Session
  imports Device
begin

section \<open>Session: binding a user to an attested device\<close>

text \<open>
  Package \<^verbatim>\<open>internal/session\<close>: \<^verbatim>\<open>attestation.go\<close> (challenges and the message a device signs) and
  \<^verbatim>\<open>store.go\<close> (issuing challenges, beginning, touching and ending sessions).  The store consults the
  device store through its interface \<^verbatim>\<open>DeviceLookup\<close>, here \<open>ByUID\<close> on the device tables.

  Parameters, beside those of the device package: \<open>addr\<close>, the text a client address has once parsed,
  stored and read back (\<open>None\<close> when it does not parse).  The columns joined for display are looked up
  in \<open>users\<close> (display name and email) and \<open>hosts\<close> (host name and device identifier).
\<close>

subsection \<open>attestation.go\<close>

datatype AttestationMethod = AttestationDeviceSignature | AttestationMTLS | AttestationNone

definition NonceLength :: nat where "NonceLength = 32"

datatype session_error =
  ErrNonce | ErrAttestation | ErrDeviceUnusable | ErrSessionValidation string | ErrNoRows
| ErrSessionDB string

definition AttestationString :: "string \<Rightarrow> string \<Rightarrow> string" where
  "AttestationString nonce subject = Join [''NETRA-attest-v1'', nonce, subject] [newline]"

text \<open>\<open>raw\<close> is what the random source delivers, or \<open>None\<close> when it fails.\<close>

definition GenerateNonce :: "string option \<Rightarrow> string option" where
  "GenerateNonce raw = map_option hex_encode raw"

definition hex_lower :: "char \<Rightarrow> bool" where
  "hex_lower r \<longleftrightarrow> (let n = byte r in 48 \<le> n \<and> n \<le> 57 \<or> 97 \<le> n \<and> n \<le> 102)"

definition ValidateNonceFormat :: "string \<Rightarrow> session_error option" where
  "ValidateNonceFormat nonce =
     (if length nonce \<noteq> NonceLength * 2 then Some ErrNonce
      else if \<not> list_all hex_lower nonce then Some ErrNonce
      else None)"

subsection \<open>store.go: data\<close>

definition NonceTTL :: duration where "NonceTTL = 2 * minute"
definition HeartbeatFreshness :: duration where "HeartbeatFreshness = 15 * minute"

datatype Status = StatusActive | StatusRestricted | StatusIsolated | StatusEnded

record Session =
  s_ID :: uuid
  s_UserID :: uuid
  s_DeviceID :: uuid
  s_Status :: Status
  s_AuthMethod :: string
  s_Attestation :: AttestationMethod
  s_SourceIP :: string
  s_CurrentRisk :: "int option"
  s_CurrentLevel :: string
  s_StartedAt :: time
  s_LastSeenAt :: time
  s_EndedAt :: "time option"
  s_UserDisplayName :: string
  s_UserEmail :: string
  s_DeviceHostname :: string
  s_DeviceUID :: string

record BeginRequest =
  br_UserID :: uuid
  br_Subject :: string
  br_DeviceUID :: string
  br_Nonce :: string
  br_Signature :: string
  br_SourceIP :: string

record session_nonce =
  sn_Nonce :: string
  sn_UserID :: uuid
  sn_ExpiresAt :: time
  sn_UsedAt :: "time option"
  sn_SessionID :: "uuid option"

record session_db =
  sd_sessions :: "Session list"
  sd_nonces :: "session_nonce list"

definition BeginRequest_Validate :: "BeginRequest \<Rightarrow> session_error option" where
  "BeginRequest_Validate r =
     (case ValidateNonceFormat (br_Nonce r) of
        Some e \<Rightarrow> Some e
      | None \<Rightarrow>
          if TrimSpace (br_DeviceUID r) = [] \<or> length (br_DeviceUID r) > 128
          then Some (ErrSessionValidation ''device_uid'')
          else if TrimSpace (br_Signature r) = [] \<or> length (br_Signature r) > 512
          then Some (ErrSessionValidation ''attestation signature'')
          else None)"

definition verifyAttestation ::
  "(string \<Rightarrow> string \<Rightarrow> string \<Rightarrow> bool) \<Rightarrow> string \<Rightarrow> string \<Rightarrow> string \<Rightarrow> string \<Rightarrow> session_error option" where
  "verifyAttestation edv publicKey nonce subject signature =
     (if length publicKey \<noteq> PublicKeySize then Some ErrAttestation
      else case StdDecode signature of
             None \<Rightarrow> Some ErrAttestation
           | Some raw \<Rightarrow>
               if length raw \<noteq> SignatureSize then Some ErrAttestation
               else if \<not> edv publicKey (AttestationString nonce subject) raw then Some ErrAttestation
               else None)"

subsection \<open>store.go: operations\<close>

definition IssueNonce ::
  "string option \<Rightarrow> time \<Rightarrow> faults \<Rightarrow> uuid \<Rightarrow> session_db \<Rightarrow> (session_error + string \<times> time) \<times> session_db" where
  "IssueNonce raw now fs user db =
     (case GenerateNonce raw of
        None \<Rightarrow> (Inl (ErrSessionDB ''generate attestation nonce''), db)
      | Some nonce \<Rightarrow>
          let expiresAt = time_Add now NonceTTL
          in if fault fs ''store attestation nonce'' \<or> nonce \<in> set (map sn_Nonce (sd_nonces db))
             then (Inl (ErrSessionDB ''store attestation nonce''), db)
             else (Inr (nonce, expiresAt),
               db\<lparr>sd_nonces := sd_nonces db @ [\<lparr>sn_Nonce = nonce, sn_UserID = user, sn_ExpiresAt = expiresAt,
                    sn_UsedAt = None, sn_SessionID = None\<rparr>]\<rparr>))"

definition session_row :: "(string \<Rightarrow> string option) \<Rightarrow> uuid \<Rightarrow> time \<Rightarrow> BeginRequest \<Rightarrow> Device \<Rightarrow> Session" where
  "session_row addr ident now r d =
     \<lparr>s_ID = ident, s_UserID = br_UserID r, s_DeviceID = d_ID d, s_Status = StatusActive,
      s_AuthMethod = ''oidc'', s_Attestation = AttestationDeviceSignature,
      s_SourceIP = (case addr (br_SourceIP r) of None \<Rightarrow> [] | Some a \<Rightarrow> a), s_CurrentRisk = None,
      s_CurrentLevel = [], s_StartedAt = now, s_LastSeenAt = now, s_EndedAt = None,
      s_UserDisplayName = [], s_UserEmail = [], s_DeviceHostname = [], s_DeviceUID = []\<rparr>"

definition consume_challenge :: "string \<Rightarrow> time \<Rightarrow> uuid \<Rightarrow> session_nonce \<Rightarrow> session_nonce" where
  "consume_challenge nonce now ident n =
     (if sn_Nonce n = nonce then n\<lparr>sn_UsedAt := Some now, sn_SessionID := Some ident\<rparr> else n)"

definition Begin ::
  "(string \<Rightarrow> string \<Rightarrow> string \<Rightarrow> bool) \<Rightarrow> (string \<Rightarrow> string option) \<Rightarrow> device_db \<Rightarrow> uuid \<Rightarrow> time \<Rightarrow> faults \<Rightarrow>
   BeginRequest \<Rightarrow> session_db \<Rightarrow> (session_error + Session) \<times> session_db" where
  "Begin edv addr devs ident now fs r db =
     (case BeginRequest_Validate r of
        Some e \<Rightarrow> (Inl e, db)
      | None \<Rightarrow>
          (case ByUID fs (br_DeviceUID r) devs of
             Inl _ \<Rightarrow> (Inl ErrDeviceUnusable, db)
           | Inr enrolled \<Rightarrow>
               if d_State enrolled \<noteq> StateActive then (Inl ErrDeviceUnusable, db)
               else if (case d_LastHeartbeatAt enrolled of None \<Rightarrow> True
                        | Some since \<Rightarrow> time_Sub now since > HeartbeatFreshness)
               then (Inl ErrDeviceUnusable, db)
               else (case verifyAttestation edv (d_PublicKey enrolled) (br_Nonce r) (br_Subject r) (br_Signature r) of
                       Some e \<Rightarrow> (Inl e, db)
                     | None \<Rightarrow>
                         if fault fs ''begin session transaction'' then (Inl (ErrSessionDB ''begin session transaction''), db)
                         else if fault fs ''look up attestation nonce'' then (Inl (ErrSessionDB ''look up attestation nonce''), db)
                         else (case find (\<lambda>n. sn_Nonce n = br_Nonce r) (sd_nonces db) of
                                 None \<Rightarrow> (Inl ErrNonce, db)
                               | Some n \<Rightarrow>
                                   if sn_UsedAt n \<noteq> None \<or> time_After now (sn_ExpiresAt n) \<or> sn_UserID n \<noteq> br_UserID r
                                   then (Inl ErrNonce, db)
                                   else if fault fs ''create session'' \<or> ident \<in> set (map s_ID (sd_sessions db))
                                   then (Inl (ErrSessionDB ''create session''), db)
                                   else if fault fs ''consume attestation nonce''
                                   then (Inl (ErrSessionDB ''consume attestation nonce''), db)
                                   else if fault fs ''commit session'' then (Inl (ErrSessionDB ''commit session''), db)
                                   else
                                     (let row = session_row addr ident now r enrolled
                                      in (Inr (row\<lparr>s_DeviceHostname := d_Hostname enrolled, s_DeviceUID := d_DeviceUID enrolled\<rparr>),
                                          db\<lparr>sd_sessions := sd_sessions db @ [row],
                                             sd_nonces := map (consume_challenge (br_Nonce r) now ident) (sd_nonces db)\<rparr>))))))"

definition end_row :: "uuid \<Rightarrow> uuid \<Rightarrow> time \<Rightarrow> Session \<Rightarrow> Session" where
  "end_row sid user now s =
     (if s_ID s = sid \<and> s_UserID s = user \<and> s_Status s \<noteq> StatusEnded
      then s\<lparr>s_Status := StatusEnded, s_EndedAt := Some now, s_LastSeenAt := now\<rparr> else s)"

definition End :: "time \<Rightarrow> faults \<Rightarrow> uuid \<Rightarrow> uuid \<Rightarrow> session_db \<Rightarrow> session_error option \<times> session_db" where
  "End now fs sid user db =
     (if fault fs ''end session'' then (Some (ErrSessionDB ''end session''), db)
      else if \<not> list_ex (\<lambda>s. s_ID s = sid \<and> s_UserID s = user \<and> s_Status s \<noteq> StatusEnded) (sd_sessions db)
      then (Some ErrNoRows, db)
      else (None, db\<lparr>sd_sessions := map (end_row sid user now) (sd_sessions db)\<rparr>))"

definition touch_row :: "uuid \<Rightarrow> time \<Rightarrow> Session \<Rightarrow> Session" where
  "touch_row sid now s = (if s_ID s = sid \<and> s_Status s \<noteq> StatusEnded then s\<lparr>s_LastSeenAt := now\<rparr> else s)"

definition Touch :: "time \<Rightarrow> faults \<Rightarrow> uuid \<Rightarrow> session_db \<Rightarrow> session_error option \<times> session_db" where
  "Touch now fs sid db =
     (if fault fs ''touch session'' then (Some (ErrSessionDB ''touch session''), db)
      else (None, db\<lparr>sd_sessions := map (touch_row sid now) (sd_sessions db)\<rparr>))"

definition joined ::
  "(uuid \<rightharpoonup> string \<times> string) \<Rightarrow> (uuid \<rightharpoonup> string \<times> string) \<Rightarrow> Session \<Rightarrow> Session option" where
  "joined users hosts s =
     (case (users (s_UserID s), hosts (s_DeviceID s)) of
        (Some (name, email), Some (host, uid)) \<Rightarrow>
          Some (s\<lparr>s_UserDisplayName := name, s_UserEmail := email, s_DeviceHostname := host, s_DeviceUID := uid\<rparr>)
      | _ \<Rightarrow> None)"

definition List_sessions ::
  "(uuid \<rightharpoonup> string \<times> string) \<Rightarrow> (uuid \<rightharpoonup> string \<times> string) \<Rightarrow> faults \<Rightarrow> bool \<Rightarrow> int \<Rightarrow> session_db \<Rightarrow>
   session_error + Session list" where
  "List_sessions users hosts fs activeOnly limit db =
     (if fault fs ''list sessions'' then Inl (ErrSessionDB ''list sessions'')
      else if fault fs ''scan session'' then Inl (ErrSessionDB ''scan session'')
      else Inr (take (page_limit 500 100 limit)
        (newest_first s_StartedAt
          (List.map_filter (joined users hosts)
            (filter (\<lambda>s. \<not> activeOnly \<or> s_Status s \<noteq> StatusEnded) (sd_sessions db))))))"

definition session_ByID ::
  "(uuid \<rightharpoonup> string \<times> string) \<Rightarrow> (uuid \<rightharpoonup> string \<times> string) \<Rightarrow> faults \<Rightarrow> uuid \<Rightarrow> session_db \<Rightarrow> session_error + Session" where
  "session_ByID users hosts fs sid db =
     (if fault fs ''load session'' then Inl (ErrSessionDB ''load session'')
      else case List.map_filter (joined users hosts) (filter (\<lambda>s. s_ID s = sid) (sd_sessions db)) of
             [] \<Rightarrow> Inl ErrNoRows | s # _ \<Rightarrow> Inr s)"

definition session_PruneNonces :: "faults \<Rightarrow> time \<Rightarrow> session_db \<Rightarrow> (session_error + nat) \<times> session_db" where
  "session_PruneNonces fs before db =
     (if fault fs ''prune attestation nonces'' then (Inl (ErrSessionDB ''prune attestation nonces''), db)
      else
        (let kept = filter (\<lambda>n. \<not> sn_ExpiresAt n < before) (sd_nonces db)
         in (Inr (length (sd_nonces db) - length kept), db\<lparr>sd_nonces := kept\<rparr>)))"

subsection \<open>What a session that begins has been through\<close>

definition heartbeat_fresh :: "time \<Rightarrow> Device \<Rightarrow> bool" where
  "heartbeat_fresh now d \<longleftrightarrow>
     (case d_LastHeartbeatAt d of None \<Rightarrow> False | Some since \<Rightarrow> \<not> time_Sub now since > HeartbeatFreshness)"

lemma Begin_cases:
  assumes "Begin edv addr devs ident now fs r db = (res, db')"
  shows "(\<exists>e. res = Inl e) \<and> db' = db \<or>
    (\<exists>d n. BeginRequest_Validate r = None \<and> d \<in> set (dd_devices devs) \<and> d_DeviceUID d = br_DeviceUID r \<and>
       d_State d = StateActive \<and> heartbeat_fresh now d \<and>
       verifyAttestation edv (d_PublicKey d) (br_Nonce r) (br_Subject r) (br_Signature r) = None \<and>
       n \<in> set (sd_nonces db) \<and> find (\<lambda>n. sn_Nonce n = br_Nonce r) (sd_nonces db) = Some n \<and>
       sn_Nonce n = br_Nonce r \<and> sn_UsedAt n = None \<and> now \<le> sn_ExpiresAt n \<and>
       sn_UserID n = br_UserID r \<and> ident \<notin> set (map s_ID (sd_sessions db)) \<and>
       res = Inr ((session_row addr ident now r d)\<lparr>s_DeviceHostname := d_Hostname d, s_DeviceUID := d_DeviceUID d\<rparr>) \<and>
       db' = db\<lparr>sd_sessions := sd_sessions db @ [session_row addr ident now r d],
                sd_nonces := map (consume_challenge (br_Nonce r) now ident) (sd_nonces db)\<rparr>)"
proof (cases "\<exists>e. res = Inl e")
  case True
  then show ?thesis
    using assms unfolding Begin_def Let_def by (simp only: split: option.splits sum.splits if_splits) auto
next
  case False
  obtain d where d: "ByUID fs (br_DeviceUID r) devs = Inr d"
    using assms False by (cases "ByUID fs (br_DeviceUID r) devs") (auto simp: Begin_def split: option.splits)
  then have "d \<in> set (dd_devices devs) \<and> d_DeviceUID d = br_DeviceUID r"
    by (auto simp: ByUID_def split: if_splits option.splits dest: find_SomeD)
  moreover obtain n where n: "find (\<lambda>n. sn_Nonce n = br_Nonce r) (sd_nonces db) = Some n"
    using assms False d by (cases "find (\<lambda>n. sn_Nonce n = br_Nonce r) (sd_nonces db)")
      (auto simp: Begin_def split: option.splits if_splits)
  moreover have "n \<in> set (sd_nonces db) \<and> sn_Nonce n = br_Nonce r" using find_SomeD [OF n] .
  ultimately show ?thesis
    using assms False d
    by (intro disjI2 exI [of _ d] exI [of _ n])
      (auto simp: Begin_def heartbeat_fresh_def time_After_def Let_def split: option.splits if_splits)
qed

lemma consume_challenge_sel [simp]:
  "sn_Nonce (consume_challenge m now i n) = sn_Nonce n" "sn_ExpiresAt (consume_challenge m now i n) = sn_ExpiresAt n"
  "sn_UserID (consume_challenge m now i n) = sn_UserID n"
  "sn_UsedAt (consume_challenge m now i n) = (if sn_Nonce n = m then Some now else sn_UsedAt n)"
  "sn_SessionID (consume_challenge m now i n) = (if sn_Nonce n = m then Some i else sn_SessionID n)"
  by (simp_all add: consume_challenge_def)

lemma map_consume [simp]: "map sn_Nonce (map (consume_challenge m now i) ns) = map sn_Nonce ns"
  by (simp add: comp_def)

lemma row_ids [simp]: "s_ID (end_row sid u now s) = s_ID s" "s_ID (touch_row sid now s) = s_ID s"
  by (simp_all add: end_row_def touch_row_def)

lemma map_row_ids [simp]:
  "map s_ID (map (end_row sid u now) ss) = map s_ID ss" "map s_ID (map (touch_row sid now) ss) = map s_ID ss"
  by (simp_all add: comp_def)

subsection \<open>Sequences of operations\<close>

text \<open>
  \<open>session_run issued db backed\<close>: the tables after some operations, the challenges that were ever
  issued, and which challenge backed which session.  A challenge is 32 random bytes: the run is one
  in which the random source does not repeat itself.
\<close>

inductive session_run ::
  "(string \<Rightarrow> string \<Rightarrow> string \<Rightarrow> bool) \<Rightarrow> (string \<Rightarrow> string option) \<Rightarrow> string set \<Rightarrow> session_db \<Rightarrow>
   (string \<times> uuid) list \<Rightarrow> bool"
  for edv addr where
  start: "session_run edv addr {} \<lparr>sd_sessions = [], sd_nonces = []\<rparr> []"
| issue: "session_run edv addr issued db backed \<Longrightarrow> GenerateNonce raw = Some nonce \<Longrightarrow> nonce \<notin> issued \<Longrightarrow>
    IssueNonce raw now fs user db = (res, db') \<Longrightarrow> session_run edv addr (insert nonce issued) db' backed"
| begin_ok: "session_run edv addr issued db backed \<Longrightarrow> Begin edv addr devs ident now fs r db = (Inr s, db') \<Longrightarrow>
    session_run edv addr issued db' (backed @ [(br_Nonce r, s_ID s)])"
| begin_error: "session_run edv addr issued db backed \<Longrightarrow> Begin edv addr devs ident now fs r db = (Inl e, db') \<Longrightarrow>
    session_run edv addr issued db' backed"
| close: "session_run edv addr issued db backed \<Longrightarrow> End now fs sid user db = (err, db') \<Longrightarrow>
    session_run edv addr issued db' backed"
| touch: "session_run edv addr issued db backed \<Longrightarrow> Touch now fs sid db = (err, db') \<Longrightarrow>
    session_run edv addr issued db' backed"
| prune: "session_run edv addr issued db backed \<Longrightarrow> session_PruneNonces fs now db = (removed, db') \<Longrightarrow>
    session_run edv addr issued db' backed"

definition challenges_ok :: "string set \<Rightarrow> session_db \<Rightarrow> (string \<times> uuid) list \<Rightarrow> bool" where
  "challenges_ok issued db backed \<longleftrightarrow>
     (\<forall>n \<in> set (sd_nonces db). sn_Nonce n \<in> issued \<and> (sn_UsedAt n = None \<longrightarrow> sn_Nonce n \<notin> set (map fst backed))) \<and>
     (\<forall>m \<in> set (map fst backed). m \<in> issued) \<and>
     (\<forall>i \<in> set (map snd backed). i \<in> set (map s_ID (sd_sessions db))) \<and>
     distinct (map fst backed) \<and> distinct (map snd backed)"

lemma challenges_ok_issue:
  assumes "challenges_ok issued db backed" "GenerateNonce raw = Some nonce" "nonce \<notin> issued"
    and "IssueNonce raw now fs user db = (res, db')"
  shows "challenges_ok (insert nonce issued) db' backed"
proof -
  have "nonce \<notin> set (map fst backed)" using assms(1,3) by (auto simp: challenges_ok_def)
  moreover have new: "set (sd_nonces db') \<subseteq> insert \<lparr>sn_Nonce = nonce, sn_UserID = user,
      sn_ExpiresAt = time_Add now NonceTTL, sn_UsedAt = None, sn_SessionID = None\<rparr> (set (sd_nonces db))"
    using assms(2,4) by (auto simp: IssueNonce_def Let_def split: if_splits)
  ultimately have "\<forall>n \<in> set (sd_nonces db'). sn_Nonce n \<in> insert nonce issued \<and>
      (sn_UsedAt n = None \<longrightarrow> sn_Nonce n \<notin> set (map fst backed))"
    using assms(1) unfolding challenges_ok_def by (metis insert_iff session_nonce.select_convs(1) subsetD)
  moreover have "sd_sessions db' = sd_sessions db"
    using assms(2,4) by (auto simp: IssueNonce_def Let_def split: if_splits)
  ultimately show ?thesis using assms(1) by (simp add: challenges_ok_def)
qed

lemma challenges_ok_mono:
  assumes "challenges_ok issued db backed" "set (sd_nonces db') \<subseteq> set (sd_nonces db)"
    and "map s_ID (sd_sessions db') = map s_ID (sd_sessions db)"
  shows "challenges_ok issued db' backed"
  unfolding challenges_ok_def assms(3)
  using assms(1) [unfolded challenges_ok_def] assms(2) by (simp only: subset_iff) blast

lemma challenges_ok_begin:
  assumes "challenges_ok issued db backed" "Begin edv addr devs ident now fs r db = (Inr s, db')"
  shows "challenges_ok issued db' (backed @ [(br_Nonce r, s_ID s)])"
proof -
  obtain d n where n: "n \<in> set (sd_nonces db)" "sn_Nonce n = br_Nonce r" "sn_UsedAt n = None"
      "ident \<notin> set (map s_ID (sd_sessions db))" "s_ID s = ident"
      "sd_sessions db' = sd_sessions db @ [session_row addr ident now r d]"
      "sd_nonces db' = map (consume_challenge (br_Nonce r) now ident) (sd_nonces db)"
    using Begin_cases [OF assms(2)] by (auto simp: session_row_def)
  have new: "br_Nonce r \<notin> set (map fst backed)" "br_Nonce r \<in> issued"
    using assms(1) n(1-3) unfolding challenges_ok_def by metis+
  have "ident \<notin> set (map snd backed)" using assms(1) n(4) unfolding challenges_ok_def by blast
  moreover have "\<forall>m \<in> set (sd_nonces db'). sn_Nonce m \<in> issued \<and>
      (sn_UsedAt m = None \<longrightarrow> sn_Nonce m \<notin> set (map fst (backed @ [(br_Nonce r, s_ID s)])))"
    using assms(1) n(7) by (auto simp: challenges_ok_def)
  ultimately show ?thesis
    using assms(1) new n(5,6) by (simp add: challenges_ok_def session_row_def)
qed

lemma session_run_ok: "session_run edv addr issued db backed \<Longrightarrow> challenges_ok issued db backed"
proof (induction rule: session_run.induct)
  case start
  show ?case by (simp add: challenges_ok_def)
next
  case (begin_error issued db backed devs ident now fs r e db')
  then show ?case using Begin_cases [OF begin_error.hyps(2)] by auto
next
  case (close issued db backed now fs sid user err db')
  then show ?case by (intro challenges_ok_mono [OF close.IH]) (auto simp: End_def split: if_splits)
next
  case (touch issued db backed now fs sid err db')
  then show ?case by (intro challenges_ok_mono [OF touch.IH]) (auto simp: Touch_def split: if_splits)
next
  case (prune issued db backed fs now removed db')
  then show ?case
    by (intro challenges_ok_mono [OF prune.IH]) (auto simp: session_PruneNonces_def Let_def split: if_splits)
qed (auto intro: challenges_ok_issue challenges_ok_begin)

subsection \<open>Messages\<close>

lemma hex_lower_not_newline: "ValidateNonceFormat n = None \<Longrightarrow> newline \<notin> set n"
proof -
  have "\<not> hex_lower newline" by (simp add: hex_lower_def newline_def byte_def)
  then show "ValidateNonceFormat n = None \<Longrightarrow> newline \<notin> set n"
    by (auto simp: ValidateNonceFormat_def list_all_iff split: if_splits)
qed

text \<open>The challenge the generator produces is one the format check accepts.\<close>

lemma hex_digit_lower: "d < 16 \<Longrightarrow> hex_lower (hex_digit d)"
  by (auto simp: hex_lower_def hex_digit_def byte_def Let_def)

lemma generated_nonce_valid:
  assumes "GenerateNonce (Some raw) = Some n" "length raw = NonceLength"
  shows "ValidateNonceFormat n = None"
proof -
  have "list_all hex_lower (hex_encode raw)"
    using hex_encode_chars hex_digit_lower by (auto simp: list_all_iff)
  then show ?thesis using assms by (auto simp: GenerateNonce_def ValidateNonceFormat_def)
qed

subsection \<open>Properties\<close>

definition sample_begin :: BeginRequest where
  "sample_begin = \<lparr>br_UserID = 2, br_Subject = ''sub'', br_DeviceUID = ''device-0001'',
     br_Nonce = replicate 64 (CHR ''a''), br_Signature = sr_Signature sample_signed, br_SourceIP = ''10.0.0.1''\<rparr>"

definition sample_devices :: device_db where
  "sample_devices = sample_db\<lparr>dd_devices := [(enrolled_row 7 0 sample_enroll)\<lparr>d_LastHeartbeatAt := Some 0\<rparr>]\<rparr>"

definition sample_challenges :: session_db where
  "sample_challenges = \<lparr>sd_sessions = [], sd_nonces = [\<lparr>sn_Nonce = replicate 64 (CHR ''a''), sn_UserID = 2,
     sn_ExpiresAt = NonceTTL, sn_UsedAt = None, sn_SessionID = None\<rparr>]\<rparr>"

lemma sample_begin_passes:
  assumes "hex_lower x" "now \<in> {0..minute}" "ident \<notin> set (map s_ID (sd_sessions db))"
    "find (\<lambda>n. sn_Nonce n = replicate 64 x) (sd_nonces db) = Some n" "sn_UsedAt n = None" "sn_UserID n = 2" "now \<le> sn_ExpiresAt n"
  shows "\<exists>s db'. Begin (\<lambda>_ _ _. True) Some sample_devices ident now [] (sample_begin\<lparr>br_Nonce := replicate 64 x\<rparr>) db = (Inr s, db') \<and>
    s_ID s = ident \<and> map s_ID (sd_sessions db') = map s_ID (sd_sessions db) @ [ident] \<and>
    sd_nonces db' = map (consume_challenge (replicate 64 x) now ident) (sd_nonces db)"
proof -
  let ?r = "sample_begin\<lparr>br_Nonce := replicate 64 x\<rparr>"
  have "ValidateNonceFormat (replicate 64 x) = None"
    using assms(1) by (simp add: ValidateNonceFormat_def NonceLength_def list_all_iff)
  moreover have "TrimSpace (br_Signature ?r) \<noteq> []" "length (br_Signature ?r) \<le> 512"
    by (simp_all add: sample_begin_def sample_signed_def TrimSpace_ascii is_space_def numeral_eq_Suc)
  moreover have "TrimSpace ''device-0001'' \<noteq> []" by (simp add: TrimSpace_ascii is_space_def)
  ultimately have "BeginRequest_Validate ?r = None"
    by (simp add: BeginRequest_Validate_def sample_begin_def)
  moreover have "ByUID [] (br_DeviceUID ?r) sample_devices =
      Inr ((enrolled_row 7 0 sample_enroll)\<lparr>d_LastHeartbeatAt := Some 0\<rparr>)"
    by (simp add: ByUID_def sample_begin_def sample_devices_def enrolled_row_def sample_enroll_def)
  moreover have "verifyAttestation (\<lambda>_ _ _. True) (replicate 32 (CHR ''k'')) n subj (br_Signature ?r) = None" for n subj
    using sample_signature by (simp add: verifyAttestation_def sample_begin_def PublicKeySize_def SignatureSize_def)
  moreover have "br_UserID ?r = 2" by (simp add: sample_begin_def)
  ultimately show ?thesis
    using assms(2-)
    by (auto simp: Begin_def enrolled_row_def sample_enroll_def time_Sub_def min_duration_def max_duration_def
        HeartbeatFreshness_def minute_def time_After_def session_row_def Let_def)
qed

lemma sample_begins: "\<exists>s db'. Begin (\<lambda>_ _ _. True) Some sample_devices 5 0 [] sample_begin sample_challenges = (Inr s, db')"
proof -
  have "hex_lower (CHR ''a'')" by (simp add: hex_lower_def byte_def)
  from sample_begin_passes [OF this, of 0 5 sample_challenges] show ?thesis
    by (auto simp: sample_challenges_def sample_begin_def minute_def NonceTTL_def)
qed

text \<open>
  C4: a session exists only with proof.  If beginning a session succeeds, the named device is
  enrolled, active and reported within fifteen minutes, its key signed this user's subject and this
  challenge, the challenge was issued to this user, unused and unexpired; exactly one active,
  attested session is added and the challenge is marked as spent on it.  Otherwise nothing changes.
\<close>

theorem begun_session_attested:
  assumes "Begin edv addr devs ident now fs r db = (res, db')"
  shows "case res of
      Inl e \<Rightarrow> db' = db
    | Inr s \<Rightarrow>
        (\<exists>d \<in> set (dd_devices devs). d_DeviceUID d = br_DeviceUID r \<and> d_State d = StateActive \<and> s_DeviceID s = d_ID d \<and>
           (\<exists>since. d_LastHeartbeatAt d = Some since \<and> now - since \<le> HeartbeatFreshness) \<and>
           (\<exists>raw. StdDecode (br_Signature r) = Some raw \<and>
              edv (d_PublicKey d) (AttestationString (br_Nonce r) (br_Subject r)) raw)) \<and>
        (\<exists>n \<in> set (sd_nonces db). sn_Nonce n = br_Nonce r \<and> sn_UserID n = br_UserID r \<and> sn_UsedAt n = None \<and> now \<le> sn_ExpiresAt n) \<and>
        s_UserID s = br_UserID r \<and> s_Status s = StatusActive \<and> s_Attestation s = AttestationDeviceSignature \<and>
        (\<exists>row. sd_sessions db' = sd_sessions db @ [row] \<and> s_ID row = s_ID s) \<and>
        (\<forall>n \<in> set (sd_nonces db'). sn_Nonce n = br_Nonce r \<longrightarrow> sn_UsedAt n = Some now \<and> sn_SessionID n = Some (s_ID s))"
proof -
  have fresh: "\<exists>since. d_LastHeartbeatAt d = Some since \<and> now - since \<le> HeartbeatFreshness" if "heartbeat_fresh now d" for d
    using that by (auto simp: heartbeat_fresh_def time_Sub_def HeartbeatFreshness_def minute_def min_duration_def
        max_duration_def split: option.splits if_splits)
  have sig: "\<exists>raw. StdDecode sg = Some raw \<and> edv k (AttestationString n subj) raw"
    if "verifyAttestation edv k n subj sg = None" for k n subj sg
    using that by (auto simp: verifyAttestation_def split: option.splits if_splits)
  from Begin_cases [OF assms] show ?thesis
  proof (elim disjE exE conjE)
    fix d n
    assume *: "d \<in> set (dd_devices devs)" "d_DeviceUID d = br_DeviceUID r" "d_State d = StateActive"
      "heartbeat_fresh now d" "verifyAttestation edv (d_PublicKey d) (br_Nonce r) (br_Subject r) (br_Signature r) = None"
      "n \<in> set (sd_nonces db)" "sn_Nonce n = br_Nonce r" "sn_UsedAt n = None" "now \<le> sn_ExpiresAt n" "sn_UserID n = br_UserID r"
      "res = Inr ((session_row addr ident now r d)\<lparr>s_DeviceHostname := d_Hostname d, s_DeviceUID := d_DeviceUID d\<rparr>)"
      "db' = db\<lparr>sd_sessions := sd_sessions db @ [session_row addr ident now r d],
                sd_nonces := map (consume_challenge (br_Nonce r) now ident) (sd_nonces db)\<rparr>"
    define s where "s = (session_row addr ident now r d)\<lparr>s_DeviceHostname := d_Hostname d, s_DeviceUID := d_DeviceUID d\<rparr>"
    have sel: "s_DeviceID s = d_ID d" "s_UserID s = br_UserID r" "s_Status s = StatusActive"
        "s_Attestation s = AttestationDeviceSignature" "s_ID s = ident"
      by (simp_all add: s_def session_row_def)
    have d: "\<exists>d \<in> set (dd_devices devs). d_DeviceUID d = br_DeviceUID r \<and> d_State d = StateActive \<and>
        s_DeviceID s = d_ID d \<and>
        (\<exists>since. d_LastHeartbeatAt d = Some since \<and> now - since \<le> HeartbeatFreshness) \<and>
        (\<exists>raw. StdDecode (br_Signature r) = Some raw \<and> edv (d_PublicKey d) (AttestationString (br_Nonce r) (br_Subject r)) raw)"
      using *(1-3) fresh [OF *(4)] sig [OF *(5)] by (intro bexI [of _ d]) (simp_all add: sel)
    have n: "\<exists>n \<in> set (sd_nonces db). sn_Nonce n = br_Nonce r \<and> sn_UserID n = br_UserID r \<and> sn_UsedAt n = None \<and> now \<le> sn_ExpiresAt n"
      using *(6-10) by blast
    have "res = Inr s" using *(11) by (simp add: s_def)
    then show ?thesis using d n sel by (simp add: *(12)) (simp add: session_row_def)
  qed auto
qed

theorem begun_session_attested_witness:
  "\<exists>s db'. Begin (\<lambda>_ _ _. True) Some sample_devices 5 0 [] sample_begin sample_challenges = (Inr s, db') \<and>
     s_Attestation s = AttestationDeviceSignature \<and> s_Status s = StatusActive"
proof -
  obtain s db' where b: "Begin (\<lambda>_ _ _. True) Some sample_devices 5 0 [] sample_begin sample_challenges = (Inr s, db')"
    using sample_begins by blast
  from begun_session_attested [OF b] b show ?thesis by auto
qed

text \<open>
  C20: one challenge, one session.  Along every sequence of issuing, beginning, ending, touching and
  pruning in which the random source does not repeat a challenge, no challenge backs two sessions
  and no session is backed by two challenges, although pruning deletes spent challenges.
\<close>

theorem challenge_backs_one_session:
  assumes "session_run edv addr issued db backed"
  shows "distinct (map fst backed) \<and> distinct (map snd backed) \<and>
    set (map snd backed) \<subseteq> set (map s_ID (sd_sessions db))"
  using session_run_ok [OF assms] by (auto simp: challenges_ok_def)

text \<open>Two challenges are issued, each backs a session, and pruning later deletes both.\<close>

theorem challenge_backs_one_session_witness:
  "\<exists>issued db. session_run (\<lambda>_ _ _. True) Some issued db [(replicate 64 (CHR ''a''), 5), (replicate 64 (CHR ''b''), 6)] \<and>
     map s_ID (sd_sessions db) = [5, 6] \<and> sd_nonces db = [] \<and>
     distinct (map fst [(replicate 64 (CHR ''a''), 5 :: uuid), (replicate 64 (CHR ''b''), 6)])"
proof -
  let ?run = "session_run (\<lambda>_ _ _. True) Some" and ?a = "replicate 64 (CHR ''a'')" and ?b = "replicate 64 (CHR ''b'')"
  let ?row = "\<lambda>n. \<lparr>sn_Nonce = n, sn_UserID = 2, sn_ExpiresAt = NonceTTL, sn_UsedAt = None, sn_SessionID = None\<rparr>"
  have gen: "GenerateNonce (Some (replicate 32 (CHR 0xAA))) = Some ?a" "GenerateNonce (Some (replicate 32 (CHR 0xBB))) = Some ?b"
    by code_simp+
  have ab: "?a \<noteq> ?b" by simp
  have i1: "IssueNonce (Some (replicate 32 (CHR 0xAA))) 0 [] 2 \<lparr>sd_sessions = [], sd_nonces = []\<rparr> =
      (Inr (?a, NonceTTL), \<lparr>sd_sessions = [], sd_nonces = [?row ?a]\<rparr>)"
    unfolding IssueNonce_def gen by (simp add: time_Add_def)
  have i2: "IssueNonce (Some (replicate 32 (CHR 0xBB))) 0 [] 2 \<lparr>sd_sessions = [], sd_nonces = [?row ?a]\<rparr> =
      (Inr (?b, NonceTTL), \<lparr>sd_sessions = [], sd_nonces = [?row ?a, ?row ?b]\<rparr>)"
    unfolding IssueNonce_def gen using ab by (simp add: time_Add_def)
  have "?run {?a} \<lparr>sd_sessions = [], sd_nonces = [?row ?a]\<rparr> []"
    by (rule session_run.issue [OF session_run.start gen(1) _ i1]) simp
  then have r0: "?run {?b, ?a} \<lparr>sd_sessions = [], sd_nonces = [?row ?a, ?row ?b]\<rparr> []"
    by (rule session_run.issue [OF _ gen(2) _ i2]) (use ab in auto)
  have hex: "hex_lower (CHR ''a'')" "hex_lower (CHR ''b'')" by (simp_all add: hex_lower_def byte_def)
  obtain s1 db1 where b1: "Begin (\<lambda>_ _ _. True) Some sample_devices 5 0 [] (sample_begin\<lparr>br_Nonce := ?a\<rparr>)
        \<lparr>sd_sessions = [], sd_nonces = [?row ?a, ?row ?b]\<rparr> = (Inr s1, db1)" "s_ID s1 = 5" "map s_ID (sd_sessions db1) = [5]"
      "sd_nonces db1 = map (consume_challenge ?a 0 5) [?row ?a, ?row ?b]"
    using sample_begin_passes [OF hex(1), of 0 5 "\<lparr>sd_sessions = [], sd_nonces = [?row ?a, ?row ?b]\<rparr>"]
    by (auto simp: minute_def NonceTTL_def)
  have r1: "?run {?b, ?a} db1 [(?a, 5)]" using session_run.begin_ok [OF r0 b1(1)] b1(2) by simp
  obtain s2 db2 where b2: "Begin (\<lambda>_ _ _. True) Some sample_devices 6 1 [] (sample_begin\<lparr>br_Nonce := ?b\<rparr>) db1 = (Inr s2, db2)"
      "s_ID s2 = 6" "map s_ID (sd_sessions db2) = [5, 6]" "sd_nonces db2 = map (consume_challenge ?b 1 6) (sd_nonces db1)"
    using sample_begin_passes [OF hex(2), of 1 6 db1] b1(3,4) ab
    by (auto simp: minute_def NonceTTL_def consume_challenge_def)
  have r2: "?run {?b, ?a} db2 [(?a, 5), (?b, 6)]" using session_run.begin_ok [OF r1 b2(1)] b2(2) by simp
  obtain res db3 where p: "session_PruneNonces [] (NonceTTL + 1) db2 = (res, db3)" by fastforce
  have r3: "?run {?b, ?a} db3 [(?a, 5), (?b, 6)]" by (rule session_run.prune [OF r2 p])
  have "map s_ID (sd_sessions db3) = [5, 6]" "sd_nonces db3 = []"
    using p b2(3,4) b1(4) by (auto simp: session_PruneNonces_def consume_challenge_def Let_def)
  moreover have "distinct (map fst [(?a, 5 :: uuid), (?b, 6)])" using challenge_backs_one_session [OF r3] by (rule conjunct1)
  ultimately show ?thesis using r3 by (intro exI [of _ "{?b, ?a}"] exI [of _ db3] conjI)
qed

text \<open>
  Only the owner ends a session, once.  Ending succeeds exactly when the session exists, belongs
  to the caller and has not ended; it then ends that session and no other, and a second attempt by
  anybody finds nothing to end.
\<close>

theorem only_owner_ends:
  assumes "distinct (map s_ID (sd_sessions db))" "End now [] sid user db = (err, db')"
  shows "(err = None \<longleftrightarrow> (\<exists>s \<in> set (sd_sessions db). s_ID s = sid \<and> s_UserID s = user \<and> s_Status s \<noteq> StatusEnded)) \<and>
    (err \<noteq> None \<longrightarrow> db' = db) \<and> sd_nonces db' = sd_nonces db \<and>
    (\<forall>s \<in> set (sd_sessions db). s_ID s \<noteq> sid \<longrightarrow> s \<in> set (sd_sessions db')) \<and>
    (err = None \<longrightarrow> (\<forall>s \<in> set (sd_sessions db'). s_ID s = sid \<longrightarrow> s_Status s = StatusEnded \<and> s_EndedAt s = Some now) \<and>
       (\<forall>now' user'. End now' [] sid user' db' = (Some ErrNoRows, db')))"
proof (cases "\<exists>s \<in> set (sd_sessions db). s_ID s = sid \<and> s_UserID s = user \<and> s_Status s \<noteq> StatusEnded")
  case True
  then obtain s where s: "s \<in> set (sd_sessions db)" "s_ID s = sid" "s_UserID s = user" "s_Status s \<noteq> StatusEnded" by blast
  have only: "t = s" if "t \<in> set (sd_sessions db)" "s_ID t = sid" for t
    using assms(1) s that by (metis distinct_map inj_onD)
  have r: "err = None" "db' = db\<lparr>sd_sessions := map (end_row sid user now) (sd_sessions db)\<rparr>"
    using assms(2) True by (auto simp: End_def list_ex_iff split: if_splits)
  have kept: "\<forall>t \<in> set (sd_sessions db). s_ID t \<noteq> sid \<longrightarrow> t \<in> set (sd_sessions db')"
    using r(2) by (auto simp: end_row_def image_iff)
  have ended: "\<forall>t \<in> set (sd_sessions db'). s_ID t = sid \<longrightarrow> s_Status t = StatusEnded \<and> s_EndedAt t = Some now"
  proof (intro ballI impI)
    fix t assume "t \<in> set (sd_sessions db')" "s_ID t = sid"
    then obtain u where u: "u \<in> set (sd_sessions db)" "t = end_row sid user now u" using r(2) by auto
    then have "s_ID u = sid" using \<open>s_ID t = sid\<close> row_ids(1) [of sid user now u] by simp
    with u only [of u] s show "s_Status t = StatusEnded \<and> s_EndedAt t = Some now" by (simp add: end_row_def)
  qed
  then have "End now' [] sid user' db' = (Some ErrNoRows, db')" for now' user'
    by (auto simp: End_def list_ex_iff)
  with True r kept ended show ?thesis by auto
next
  case False
  then show ?thesis using assms(2) by (auto simp: End_def list_ex_iff split: if_splits)
qed

theorem only_owner_ends_witness:
  "fst (End 9 [] 5 3 \<lparr>sd_sessions = [session_row Some 5 0 sample_begin (enrolled_row 7 0 sample_enroll)], sd_nonces = []\<rparr>) \<noteq> None"
proof -
  let ?db = "\<lparr>sd_sessions = [session_row Some 5 0 sample_begin (enrolled_row 7 0 sample_enroll)], sd_nonces = []\<rparr>"
  obtain err db' where e: "End 9 [] 5 3 ?db = (err, db')" by fastforce
  have "distinct (map s_ID (sd_sessions ?db))" by simp
  from only_owner_ends [OF this e] have "err \<noteq> None" by (simp add: session_row_def sample_begin_def)
  with e show ?thesis by simp
qed

text \<open>
  Signatures do not cross over.  The message of a signed request never equals the message of a
  session attestation, whatever their contents, and an attestation determines its challenge and
  its subject, so neither can be presented in place of the other or for another user.
\<close>

theorem attestation_domain_separated:
  "CanonicalString sha i \<noteq> AttestationString nonce subject \<and>
   (ValidateNonceFormat nonce = None \<and> ValidateNonceFormat nonce' = None \<longrightarrow>
    AttestationString nonce subject = AttestationString nonce' subject' \<longrightarrow> nonce = nonce' \<and> subject = subject')"
proof -
  have "CanonicalString sha i ! 6 \<noteq> AttestationString nonce subject ! 6"
    by (simp add: CanonicalString_def AttestationString_def)
  then have "CanonicalString sha i \<noteq> AttestationString nonce subject" by metis
  moreover have "nonce = nonce' \<and> subject = subject'"
    if "ValidateNonceFormat nonce = None" "ValidateNonceFormat nonce' = None"
      "AttestationString nonce subject = AttestationString nonce' subject'"
    using split_at_first [of nonce newline subject nonce' subject'] that hex_lower_not_newline
    by (simp add: AttestationString_def)
  ultimately show ?thesis by blast
qed

theorem attestation_domain_separated_witness:
  "CanonicalString id \<lparr>si_Method = ''POST'', si_Path = ''/'', si_Timestamp = 0, si_Nonce = [], si_Body = []\<rparr> \<noteq>
     AttestationString (replicate 64 (CHR ''a'')) ''alice'' \<and>
   AttestationString (replicate 64 (CHR ''a'')) ''alice'' \<noteq> AttestationString (replicate 64 (CHR ''a'')) ''bob''"
proof -
  have "ValidateNonceFormat (replicate 64 (CHR ''a'')) = None"
    by (simp add: ValidateNonceFormat_def NonceLength_def hex_lower_def byte_def list_all_iff)
  then show ?thesis
    using attestation_domain_separated [of id "\<lparr>si_Method = ''POST'', si_Path = ''/'', si_Timestamp = 0, si_Nonce = [], si_Body = []\<rparr>"
        "replicate 64 (CHR ''a'')" "''alice''" "replicate 64 (CHR ''a'')" "''bob''"] by blast
qed

end
