(* ===== verification/Telemetry.thy ===== *)
theory Telemetry
  imports Session Float64
begin

section \<open>Telemetry: ingesting, storing and querying events\<close>

text \<open>
  \<^verbatim>\<open>internal/telemetry/event.go\<close> and \<^verbatim>\<open>store.go\<close>.  An agent submits a batch of events; each is checked and
  normalised against the server's clock, attributed to the signing device and to that device's
  current session, and inserted in one transaction that skips events already stored.
  Metadata, a Go map, is an association list with distinct keys in the order the runtime visits it.
  Strings are UTF-8, as the JSON decoder leaves them; PostgreSQL refuses a zero byte in \<^verbatim>\<open>TEXT\<close> and in
  \<^verbatim>\<open>JSONB\<close> and keeps microseconds.  Row identifiers and the batch identifier are supplied by the
  caller; whether \<^verbatim>\<open>json.Marshal\<close> succeeds is an argument.
\<close>

subsection \<open>event.go: data\<close>

datatype event_Type =
  TypeAuthLogin | TypeAuthLogout | TypeDeviceEnrollment | TypeDevicePosture | TypeApplicationStart
| TypeApplicationAccess | TypeResourceAccess | TypePrivilegeChange | TypeNetworkEvent
| TypeSecurityEvent | TypePolicyDecision | TypeRiskUpdate | TypeSecurityAlert | TypeOther string

fun knownTypes :: "event_Type \<Rightarrow> bool" where
  "knownTypes (TypeOther _) = False"
| "knownTypes _ = True"

datatype Severity = SeverityInfo | SeverityLow | SeverityMedium | SeverityHigh | SeverityCritical | SeverityOther string

fun knownSeverities :: "Severity \<Rightarrow> bool" where
  "knownSeverities (SeverityOther _) = False"
| "knownSeverities _ = True"

datatype event_Source = SourceAgent | SourceClient | SourceBackend | SourceSimulator

definition MaxBatchSize :: nat where "MaxBatchSize = 500"
definition MaxMetadataEntries :: nat where "MaxMetadataEntries = 32"
definition MaxMetadataKeyLen :: nat where "MaxMetadataKeyLen = 64"
definition MaxMetadataValueLen :: nat where "MaxMetadataValueLen = 512"
definition MaxEventIDLen :: nat where "MaxEventIDLen = 128"
definition MaxClockDrift :: duration where "MaxClockDrift = 24 * hour"

type_synonym metadata = "(string \<times> string) list"

datatype event_error =
  ErrUnknownType | ErrUnknownSeverity | ErrEventIDLong | ErrTooManyMetadata
| ErrMetadataKey | ErrMetadataValue string | ErrMetadataEncode | ErrBatchTooLarge | ErrTelemetryDB string

record Inbound =
  ib_EventID :: string
  ib_OccurredAtMs :: int
  ib_Type :: event_Type
  ib_Severity :: Severity
  ib_Metadata :: metadata

record Event =
  ev_ID :: uuid
  ev_AgentEventID :: string
  ev_OccurredAt :: time
  ev_ReceivedAt :: time
  ev_DeviceID :: "uuid option"
  ev_UserID :: "uuid option"
  ev_SessionID :: "uuid option"
  ev_Type :: event_Type
  ev_Severity :: Severity
  ev_Source :: event_Source
  ev_Metadata :: metadata
  ev_DeviceHostname :: string
  ev_UserName :: string

record Rejection =
  rj_EventID :: string
  rj_Index :: nat
  rj_Reason :: event_error

subsection \<open>event.go: RFC 3339 timestamps\<close>

text \<open>
  The proleptic Gregorian date of a day counted from the Unix epoch: eras of 400 years of 146097
  days that start on the first of March.
\<close>

definition civil_of_days :: "int \<Rightarrow> int \<times> int \<times> int" where
  "civil_of_days n =
     (let z = n + 719468;
          era = z div 146097;
          doe = z mod 146097;
          yoe = (doe - doe div 1460 + doe div 36524 - doe div 146096) div 365;
          doy = doe - (365 * yoe + yoe div 4 - yoe div 100);
          mp = (5 * doy + 2) div 153;
          d = doy - (153 * mp + 2) div 5 + 1;
          m = (if mp < 10 then mp + 3 else mp - 9);
          y = yoe + era * 400 + (if m \<le> 2 then 1 else 0)
      in (y, m, d))"

definition pad :: "nat \<Rightarrow> int \<Rightarrow> string" where
  "pad width n = (let s = show_int n in replicate (width - length s) (CHR ''0'') @ s)"

definition RFC3339 :: "time \<Rightarrow> string" where
  "RFC3339 t =
     (let (y, m, d) = civil_of_days (t div day);
          sec = (t mod day) div second
      in pad 4 y @ ''-'' @ pad 2 m @ ''-'' @ pad 2 d @ ''T'' @
         pad 2 (sec div 3600) @ '':'' @ pad 2 (sec div 60 mod 60) @ '':'' @ pad 2 (sec mod 60) @ ''Z'')"

subsection \<open>event.go: normalisation\<close>

text \<open>\<^verbatim>\<open>metadata[key] = value\<close>.\<close>

fun meta_put :: "string \<Rightarrow> string \<Rightarrow> metadata \<Rightarrow> metadata" where
  "meta_put k v [] = [(k, v)]"
| "meta_put k v ((k', v') # m) = (if k' = k then (k, v) # m else (k', v') # meta_put k v m)"

fun copy_metadata :: "metadata \<Rightarrow> metadata \<Rightarrow> event_error + metadata" where
  "copy_metadata acc [] = Inr acc"
| "copy_metadata acc ((key, value) # rest) =
     (if length key = 0 \<or> length key > MaxMetadataKeyLen then Inl ErrMetadataKey
      else if length value > MaxMetadataValueLen then Inl (ErrMetadataValue key)
      else copy_metadata (meta_put key value acc) rest)"

definition time_of_UnixMilli :: "int \<Rightarrow> time" where
  "time_of_UnixMilli ms = ms * 1000000"

definition claimed_time :: "Inbound \<Rightarrow> time \<Rightarrow> time" where
  "claimed_time i now = (if ib_OccurredAtMs i > 0 then time_of_UnixMilli (ib_OccurredAtMs i) else now)"

definition drifted :: "time \<Rightarrow> time \<Rightarrow> bool" where
  "drifted now occurred \<longleftrightarrow>
     (let drift = time_Sub now occurred in drift > MaxClockDrift \<or> drift < - MaxClockDrift)"

definition Inbound_Normalize :: "Inbound \<Rightarrow> uuid \<Rightarrow> time \<Rightarrow> event_error + Event" where
  "Inbound_Normalize i deviceID now =
     (if \<not> knownTypes (ib_Type i) then Inl ErrUnknownType
      else
        (let severity = (if ib_Severity i = SeverityOther [] then SeverityInfo else ib_Severity i)
         in if \<not> knownSeverities severity then Inl ErrUnknownSeverity
            else if length (ib_EventID i) > MaxEventIDLen then Inl ErrEventIDLong
            else if length (ib_Metadata i) > MaxMetadataEntries then Inl ErrTooManyMetadata
            else case copy_metadata [] (ib_Metadata i) of
                   Inl e \<Rightarrow> Inl e
                 | Inr metadata \<Rightarrow>
                     let occurred = claimed_time i now;
                         (metadata, occurred) =
                           (if drifted now occurred
                            then (meta_put ''netra.clock_drift_seconds'' (Sprintf_0f (Seconds (time_Sub now occurred)))
                                    (meta_put ''netra.reported_occurred_at'' (RFC3339 occurred) metadata), now)
                            else (metadata, occurred))
                     in Inr \<lparr>ev_ID = uuid_Nil, ev_AgentEventID = TrimSpace (ib_EventID i),
                             ev_OccurredAt = occurred, ev_ReceivedAt = now, ev_DeviceID = Some deviceID,
                             ev_UserID = None, ev_SessionID = None, ev_Type = ib_Type i,
                             ev_Severity = severity, ev_Source = SourceAgent, ev_Metadata = metadata,
                             ev_DeviceHostname = [], ev_UserName = []\<rparr>))"

record Filter =
  fl_DeviceID :: "uuid option"
  fl_UserID :: "uuid option"
  fl_SessionID :: "uuid option"
  fl_Types :: "event_Type list"
  fl_Severity :: "Severity option"
  fl_Since :: "time option"
  fl_Limit :: int

definition Filter_Normalize :: "Filter \<Rightarrow> Filter" where
  "Filter_Normalize f = (if fl_Limit f \<le> 0 \<or> fl_Limit f > 1000 then f\<lparr>fl_Limit := 100\<rparr> else f)"

subsection \<open>store.go\<close>

record IngestResult =
  ir_BatchID :: uuid
  ir_Accepted :: nat
  ir_Duplicates :: nat
  ir_Rejected :: "Rejection list"
  ir_SessionID :: "uuid option"

text \<open>A row of \<^verbatim>\<open>events\<close>; \<open>er_ResourceID\<close> is written by the simulator only.\<close>

record event_row =
  er_ID :: uuid
  er_OccurredAt :: time
  er_ReceivedAt :: time
  er_DeviceID :: "uuid option"
  er_UserID :: "uuid option"
  er_SessionID :: "uuid option"
  er_Type :: event_Type
  er_ResourceID :: "uuid option"
  er_Severity :: Severity
  er_Source :: event_Source
  er_Metadata :: metadata
  er_AgentEventID :: "string option"
  er_BatchID :: "uuid option"

type_synonym event_db = "event_row list"

definition nullable :: "string \<Rightarrow> string option" where
  "nullable s = (if s = [] then None else Some s)"

definition pg_text :: "string \<Rightarrow> bool" where
  "pg_text s \<longleftrightarrow> CHR 0x00 \<notin> set s"

definition pg_json :: "metadata \<Rightarrow> bool" where
  "pg_json m \<longleftrightarrow> list_all (\<lambda>(k, v). pg_text k \<and> pg_text v) m"

definition activeSession :: "faults \<Rightarrow> uuid \<Rightarrow> session_db \<Rightarrow> (uuid \<times> uuid) option" where
  "activeSession fs device sdb =
     (if fault fs ''active session'' then None
      else case newest_first s_StartedAt (filter (\<lambda>s. s_DeviceID s = device \<and> s_Status s \<noteq> StatusEnded) (sd_sessions sdb)) of
             [] \<Rightarrow> None
           | s # _ \<Rightarrow> Some (s_ID s, s_UserID s))"

definition ingest_row :: "uuid \<Rightarrow> (uuid \<times> uuid) option \<Rightarrow> Event \<Rightarrow> event_row" where
  "ingest_row batch session e =
     \<lparr>er_ID = uuid_Nil, er_OccurredAt = time_Truncate_us (ev_OccurredAt e),
      er_ReceivedAt = time_Truncate_us (ev_ReceivedAt e), er_DeviceID = ev_DeviceID e,
      er_UserID = map_option snd session, er_SessionID = map_option fst session, er_Type = ev_Type e,
      er_ResourceID = None, er_Severity = ev_Severity e, er_Source = ev_Source e,
      er_Metadata = ev_Metadata e, er_AgentEventID = nullable (ev_AgentEventID e), er_BatchID = Some batch\<rparr>"

fun ingest_loop ::
  "(metadata \<Rightarrow> bool) \<Rightarrow> uuid \<Rightarrow> time \<Rightarrow> uuid \<Rightarrow> (uuid \<times> uuid) option \<Rightarrow> nat \<Rightarrow> Inbound list \<Rightarrow> Rejection list \<times> event_row list" where
  "ingest_loop encodes device now batch session index [] = ([], [])"
| "ingest_loop encodes device now batch session index (candidate # rest) =
     (let (rejected, rows) = ingest_loop encodes device now batch session (Suc index) rest
      in case Inbound_Normalize candidate device now of
           Inl e \<Rightarrow> (\<lparr>rj_EventID = ib_EventID candidate, rj_Index = index, rj_Reason = e\<rparr> # rejected, rows)
         | Inr event \<Rightarrow>
             if \<not> encodes (ev_Metadata event)
             then (\<lparr>rj_EventID = ib_EventID candidate, rj_Index = index, rj_Reason = ErrMetadataEncode\<rparr> # rejected, rows)
             else (rejected, ingest_row batch session event # rows))"

definition already_stored :: "event_row \<Rightarrow> event_db \<Rightarrow> bool" where
  "already_stored r db \<longleftrightarrow>
     er_AgentEventID r \<noteq> None \<and> er_DeviceID r \<noteq> None \<and>
     list_ex (\<lambda>q. er_DeviceID q = er_DeviceID r \<and> er_AgentEventID q = er_AgentEventID r) db"

definition storable :: "event_row \<Rightarrow> bool" where
  "storable r \<longleftrightarrow> pg_json (er_Metadata r) \<and> (case er_AgentEventID r of None \<Rightarrow> True | Some a \<Rightarrow> pg_text a)"

text \<open>The statements of one batch; \<open>ids\<close> supplies the default of the primary key.\<close>

fun insert_rows :: "uuid list \<Rightarrow> event_row list \<Rightarrow> event_db \<Rightarrow> (nat \<times> event_db) option" where
  "insert_rows ids [] db = Some (0, db)"
| "insert_rows [] (r # rs) db = None"
| "insert_rows (i # ids) (r # rs) db =
     (if \<not> storable r then None
      else if already_stored r db then insert_rows ids rs db
      else if i \<in> set (map er_ID db) then None
      else map_option (\<lambda>(n, db'). (Suc n, db')) (insert_rows ids rs (db @ [r\<lparr>er_ID := i\<rparr>])))"

definition insert_events :: "uuid list \<Rightarrow> faults \<Rightarrow> event_row list \<Rightarrow> event_db \<Rightarrow> (event_error + nat) \<times> event_db" where
  "insert_events ids fs rows db =
     (if fault fs ''begin ingest'' then (Inl (ErrTelemetryDB ''begin ingest''), db)
      else if fault fs ''insert event'' then (Inl (ErrTelemetryDB ''insert event''), db)
      else case insert_rows ids rows db of
             None \<Rightarrow> (Inl (ErrTelemetryDB ''insert event''), db)
           | Some (inserted, db') \<Rightarrow>
               if fault fs ''close ingest batch'' then (Inl (ErrTelemetryDB ''close ingest batch''), db)
               else if fault fs ''commit ingest'' then (Inl (ErrTelemetryDB ''commit ingest''), db)
               else (Inr inserted, db'))"

definition Ingest ::
  "(metadata \<Rightarrow> bool) \<Rightarrow> uuid list \<Rightarrow> uuid \<Rightarrow> time \<Rightarrow> faults \<Rightarrow> session_db \<Rightarrow> uuid \<Rightarrow> Inbound list \<Rightarrow> event_db \<Rightarrow>
   (event_error + IngestResult) \<times> event_db" where
  "Ingest encodes ids batch now fs sdb device inbound db =
     (if length inbound > MaxBatchSize then (Inl ErrBatchTooLarge, db)
      else
        (let session = activeSession fs device sdb;
             (rejected, rows) = ingest_loop encodes device now batch session 0 inbound;
             result = \<lparr>ir_BatchID = batch, ir_Accepted = 0, ir_Duplicates = 0, ir_Rejected = rejected,
                       ir_SessionID = map_option fst session\<rparr>
         in if rows = [] then (Inr result, db)
            else case insert_events ids fs rows db of
                   (Inl e, db') \<Rightarrow> (Inl e, db')
                 | (Inr inserted, db') \<Rightarrow>
                     (Inr (result\<lparr>ir_Accepted := inserted, ir_Duplicates := length rows - inserted\<rparr>), db')))"

definition RecordBackendEvent ::
  "(metadata \<Rightarrow> bool) \<Rightarrow> uuid \<Rightarrow> time \<Rightarrow> faults \<Rightarrow> Event \<Rightarrow> event_db \<Rightarrow> event_error option \<times> event_db" where
  "RecordBackendEvent encodes ident now fs e db =
     (if \<not> encodes (ev_Metadata e) then (Some ErrMetadataEncode, db)
      else
        (let occurred = (if time_IsZero (ev_OccurredAt e) then now else ev_OccurredAt e)
         in if fault fs ''record event'' \<or> \<not> knownTypes (ev_Type e) \<or> \<not> knownSeverities (ev_Severity e) \<or>
               \<not> pg_json (ev_Metadata e) \<or> ident \<in> set (map er_ID db)
            then (Some (ErrTelemetryDB ''record event''), db)
            else (None, db @
              [\<lparr>er_ID = ident, er_OccurredAt = time_Truncate_us occurred, er_ReceivedAt = time_Truncate_us now,
                er_DeviceID = ev_DeviceID e, er_UserID = ev_UserID e, er_SessionID = ev_SessionID e,
                er_Type = ev_Type e, er_ResourceID = None, er_Severity = ev_Severity e, er_Source = ev_Source e,
                er_Metadata = ev_Metadata e, er_AgentEventID = None, er_BatchID = None\<rparr>])))"

definition scanEvent :: "(uuid \<Rightarrow> string option) \<Rightarrow> (uuid \<Rightarrow> string option) \<Rightarrow> event_row \<Rightarrow> Event" where
  "scanEvent host_name user_name r =
     \<lparr>ev_ID = er_ID r, ev_AgentEventID = case_option [] (\<lambda>a. a) (er_AgentEventID r),
      ev_OccurredAt = er_OccurredAt r, ev_ReceivedAt = er_ReceivedAt r, ev_DeviceID = er_DeviceID r,
      ev_UserID = er_UserID r, ev_SessionID = er_SessionID r, ev_Type = er_Type r,
      ev_Severity = er_Severity r, ev_Source = er_Source r, ev_Metadata = er_Metadata r,
      ev_DeviceHostname = case_option [] (\<lambda>a. a) (Option.bind (er_DeviceID r) host_name),
      ev_UserName = case_option [] (\<lambda>a. a) (Option.bind (er_UserID r) user_name)\<rparr>"

definition selects :: "Filter \<Rightarrow> event_row \<Rightarrow> bool" where
  "selects f r \<longleftrightarrow>
     (case fl_DeviceID f of None \<Rightarrow> True | Some d \<Rightarrow> er_DeviceID r = Some d) \<and>
     (case fl_UserID f of None \<Rightarrow> True | Some u \<Rightarrow> er_UserID r = Some u) \<and>
     (case fl_SessionID f of None \<Rightarrow> True | Some s \<Rightarrow> er_SessionID r = Some s) \<and>
     (case fl_Severity f of None \<Rightarrow> True | Some v \<Rightarrow> er_Severity r = v) \<and>
     (case fl_Since f of None \<Rightarrow> True | Some t \<Rightarrow> er_OccurredAt r \<ge> t) \<and>
     (fl_Types f = [] \<or> er_Type r \<in> set (fl_Types f))"

definition Query ::
  "(uuid \<Rightarrow> string option) \<Rightarrow> (uuid \<Rightarrow> string option) \<Rightarrow> faults \<Rightarrow> Filter \<Rightarrow> event_db \<Rightarrow> event_error + Event list" where
  "Query host_name user_name fs filt db =
     (let filt = Filter_Normalize filt
      in if fault fs ''query events'' \<or> (case fl_Severity filt of Some (SeverityOther _) \<Rightarrow> True | _ \<Rightarrow> False)
         then Inl (ErrTelemetryDB ''query events'')
         else Inr (map (scanEvent host_name user_name)
                (take (nat (fl_Limit filt)) (newest_first er_OccurredAt (filter (selects filt) db)))))"

definition CountByType :: "faults \<Rightarrow> uuid \<Rightarrow> event_db \<Rightarrow> event_error + (event_Type \<rightharpoonup> nat)" where
  "CountByType fs session db =
     (if fault fs ''count events'' then Inl (ErrTelemetryDB ''count events'')
      else Inr (\<lambda>t. let n = length (filter (\<lambda>r. er_SessionID r = Some session \<and> er_Type r = t) db)
                    in if n = 0 then None else Some n))"

subsection \<open>Normalisation\<close>

lemma meta_put_fresh: "k \<notin> fst ` set m \<Longrightarrow> meta_put k v m = m @ [(k, v)]"
  by (induction k v m rule: meta_put.induct) auto

lemma map_of_meta_put [simp]: "map_of (meta_put k v m) = (map_of m)(k \<mapsto> v)"
  by (induction k v m rule: meta_put.induct) (auto simp: fun_eq_iff)

lemma length_meta_put: "length (meta_put k v m) \<le> Suc (length m)"
  by (induction k v m rule: meta_put.induct) auto

lemma set_meta_put: "set (meta_put k v m) \<subseteq> insert (k, v) (set m)"
  by (induction k v m rule: meta_put.induct) auto

lemma copy_metadata_Inr:
  assumes "distinct (map fst (acc @ m))" "copy_metadata acc m = Inr r"
  shows "r = acc @ m \<and> (\<forall>(k, v) \<in> set m. 0 < length k \<and> length k \<le> MaxMetadataKeyLen \<and> length v \<le> MaxMetadataValueLen)"
  using assms
proof (induction acc m rule: copy_metadata.induct)
  case (2 acc k v rest)
  from 2(2) have "meta_put k v acc = acc @ [(k, v)]" by (intro meta_put_fresh) auto
  with 2 show ?case by (auto split: if_splits)
qed simp

lemma drifted_iff: "drifted now occurred \<longleftrightarrow> \<bar>now - occurred\<bar> > MaxClockDrift"
  using time_Sub_gt_iff [of MaxClockDrift now occurred] time_Sub_less_iff [of "- MaxClockDrift" now occurred]
  by (auto simp: drifted_def Let_def MaxClockDrift_def hour_def max_duration_def)

text \<open>An accepted event, with the two cases of the clock.\<close>

lemma Normalize_Inr:
  assumes "distinct (map fst (ib_Metadata i))" "Inbound_Normalize i device now = Inr e"
  shows "knownTypes (ev_Type e)" "knownSeverities (ev_Severity e)" "ev_Type e = ib_Type i"
    "length (ib_EventID i) \<le> MaxEventIDLen" "length (ib_Metadata i) \<le> MaxMetadataEntries"
    "\<forall>(k, v) \<in> set (ib_Metadata i). 0 < length k \<and> length k \<le> MaxMetadataKeyLen \<and> length v \<le> MaxMetadataValueLen"
    "ev_AgentEventID e = TrimSpace (ib_EventID i)" "ev_ReceivedAt e = now" "ev_DeviceID e = Some device"
    "ev_UserID e = None" "ev_SessionID e = None" "ev_Source e = SourceAgent"
    "ev_OccurredAt e = (if drifted now (claimed_time i now) then now else claimed_time i now)"
    "ev_Metadata e = (if drifted now (claimed_time i now)
       then meta_put ''netra.clock_drift_seconds'' (Sprintf_0f (Seconds (time_Sub now (claimed_time i now))))
              (meta_put ''netra.reported_occurred_at'' (RFC3339 (claimed_time i now)) (ib_Metadata i))
       else ib_Metadata i)"
proof -
  obtain m where m: "copy_metadata [] (ib_Metadata i) = Inr m"
    using assms(2) by (auto simp: Inbound_Normalize_def Let_def split: if_splits sum.splits)
  from copy_metadata_Inr [of "[]" "ib_Metadata i" m] assms(1) m
  have c: "m = ib_Metadata i" "\<forall>(k, v) \<in> set (ib_Metadata i). 0 < length k \<and> length k \<le> MaxMetadataKeyLen \<and> length v \<le> MaxMetadataValueLen"
    by simp_all
  show "\<forall>(k, v) \<in> set (ib_Metadata i). 0 < length k \<and> length k \<le> MaxMetadataKeyLen \<and> length v \<le> MaxMetadataValueLen" by (rule c)
  show "knownTypes (ev_Type e)" "knownSeverities (ev_Severity e)" "ev_Type e = ib_Type i"
      "length (ib_EventID i) \<le> MaxEventIDLen" "length (ib_Metadata i) \<le> MaxMetadataEntries"
      "ev_AgentEventID e = TrimSpace (ib_EventID i)" "ev_ReceivedAt e = now" "ev_DeviceID e = Some device"
      "ev_UserID e = None" "ev_SessionID e = None" "ev_Source e = SourceAgent"
      "ev_OccurredAt e = (if drifted now (claimed_time i now) then now else claimed_time i now)"
    using assms(2) m by (auto simp: Inbound_Normalize_def Let_def split: if_splits)
  show "ev_Metadata e = (if drifted now (claimed_time i now)
       then meta_put ''netra.clock_drift_seconds'' (Sprintf_0f (Seconds (time_Sub now (claimed_time i now))))
              (meta_put ''netra.reported_occurred_at'' (RFC3339 (claimed_time i now)) (ib_Metadata i))
       else ib_Metadata i)"
    using assms(2) m c(1) by (auto simp: Inbound_Normalize_def Let_def split: if_splits)
qed

lemma Normalize_sel:
  assumes "Inbound_Normalize i device now = Inr e"
  shows "ev_AgentEventID e = TrimSpace (ib_EventID i)" "ev_ReceivedAt e = now" "ev_DeviceID e = Some device" "ev_Source e = SourceAgent"
  using assms by (auto simp: Inbound_Normalize_def Let_def split: if_splits sum.splits)

text \<open>Whether an event is accepted does not depend on the clock.\<close>

lemma Normalize_any_time: "Inbound_Normalize i device now = Inr e \<Longrightarrow> \<exists>e'. Inbound_Normalize i device now' = Inr e'"
  by (auto simp: Inbound_Normalize_def Let_def split: if_splits sum.splits)

subsection \<open>Insertion\<close>

definition event_key :: "event_row \<Rightarrow> uuid option \<times> string option" where
  "event_key r = (er_DeviceID r, er_AgentEventID r)"

definition keyed :: "event_row \<Rightarrow> bool" where
  "keyed r \<longleftrightarrow> er_AgentEventID r \<noteq> None \<and> er_DeviceID r \<noteq> None"

text \<open>The unique index of the table: a device has at most one event of each agent identifier.\<close>

definition events_unique :: "event_db \<Rightarrow> bool" where
  "events_unique db \<longleftrightarrow> distinct (map event_key (filter keyed db)) \<and> distinct (map er_ID db)"

lemma already_stored_iff: "already_stored r db \<longleftrightarrow> keyed r \<and> event_key r \<in> event_key ` set (filter keyed db)"
  by (force simp: already_stored_def keyed_def event_key_def list_ex_iff image_iff)

lemma key_with_id [simp]: "event_key (r\<lparr>er_ID := i\<rparr>) = event_key r" "keyed (r\<lparr>er_ID := i\<rparr>) = keyed r"
  by (simp_all add: event_key_def keyed_def)

lemma insert_rows_Some:
  assumes "insert_rows ids rs db = Some (n, db')"
  shows "n \<le> length rs \<and> (\<forall>r \<in> set rs. storable r) \<and>
    (\<exists>new. db' = db @ new \<and> length new = n \<and> (\<forall>q \<in> set new. \<exists>r \<in> set rs. q = r\<lparr>er_ID := er_ID q\<rparr>)) \<and>
    (events_unique db \<longrightarrow> events_unique db') \<and> (\<forall>r \<in> set rs. keyed r \<longrightarrow> already_stored r db')"
  using assms
proof (induction ids rs db arbitrary: n db' rule: insert_rows.induct)
  case (3 i ids r rs db)
  show ?case
  proof (cases "already_stored r db")
    case True
    with 3 have "insert_rows ids rs db = Some (n, db')" "storable r" by (auto split: if_splits)
    from 3(1) [OF _ True this(1)] this(2) obtain new where ih: "n \<le> length rs" "\<forall>r \<in> set rs. storable r"
        "db' = db @ new" "length new = n" "\<forall>q \<in> set new. \<exists>r \<in> set rs. q = r\<lparr>er_ID := er_ID q\<rparr>"
        "events_unique db \<longrightarrow> events_unique db'" "\<forall>r \<in> set rs. keyed r \<longrightarrow> already_stored r db'" by auto
    moreover have "already_stored r db'" using True ih(3) by (auto simp: already_stored_def)
    ultimately show ?thesis using \<open>storable r\<close> by auto
  next
    case False
    with 3(3) obtain n' where n: "insert_rows ids rs (db @ [r\<lparr>er_ID := i\<rparr>]) = Some (n', db')" "n = Suc n'"
        and ok: "storable r" "i \<notin> er_ID ` set db" by (auto split: if_splits)
    from 3(2) [OF _ False _ n(1)] ok obtain new where ih: "n' \<le> length rs" "\<forall>r \<in> set rs. storable r"
        "db' = (db @ [r\<lparr>er_ID := i\<rparr>]) @ new" "length new = n'" "\<forall>q \<in> set new. \<exists>r \<in> set rs. q = r\<lparr>er_ID := er_ID q\<rparr>"
        "events_unique (db @ [r\<lparr>er_ID := i\<rparr>]) \<longrightarrow> events_unique db'" "\<forall>r \<in> set rs. keyed r \<longrightarrow> already_stored r db'"
      by auto
    have "events_unique db \<Longrightarrow> events_unique (db @ [r\<lparr>er_ID := i\<rparr>])"
      using False ok by (auto simp: events_unique_def already_stored_iff)
    moreover have "keyed r \<Longrightarrow> already_stored r db'"
      unfolding ih(3) already_stored_iff by (auto simp: image_iff)
    moreover have "\<exists>new. db' = db @ new \<and> length new = n \<and> (\<forall>q \<in> set new. \<exists>r' \<in> set (r # rs). q = r'\<lparr>er_ID := er_ID q\<rparr>)"
      using ih(3-5) n(2) by (intro exI [of _ "r\<lparr>er_ID := i\<rparr> # new"]) auto
    ultimately show ?thesis using ih(1,2,6,7) n(2) ok(1) by auto
  qed
qed auto

text \<open>When every row with an identifier is stored already, exactly the rows without one are added.\<close>

lemma insert_rows_again:
  assumes "\<forall>r \<in> set rs. keyed r \<longrightarrow> already_stored r db" "insert_rows ids rs db = Some (n, db')"
  shows "n = length (filter (\<lambda>r. \<not> keyed r) rs)"
  using assms
proof (induction ids rs db arbitrary: n db' rule: insert_rows.induct)
  case (3 i ids r rs db)
  have stays: "already_stored q (db @ [x])" if "already_stored q db" for q x using that by (auto simp: already_stored_def)
  show ?case
  proof (cases "keyed r")
    case True
    with 3 show ?thesis by (auto split: if_splits)
  next
    case False
    then have "\<not> already_stored r db" by (simp add: already_stored_iff)
    with 3 False stays show ?thesis by (auto split: if_splits)
  qed
qed auto

lemma insert_rows_noop:
  "\<forall>r \<in> set rs. keyed r \<and> storable r \<and> already_stored r db \<Longrightarrow> length rs \<le> length ids \<Longrightarrow>
   insert_rows ids rs db = Some (0, db)"
  by (induction ids rs db rule: insert_rows.induct) auto

subsection \<open>The loop over a batch\<close>

lemma ingest_loop_rows:
  "snd (ingest_loop encodes device now batch session index inbound) =
     concat (map (\<lambda>i. case Inbound_Normalize i device now of
                        Inl _ \<Rightarrow> [] | Inr e \<Rightarrow> if encodes (ev_Metadata e) then [ingest_row batch session e] else []) inbound)"
  by (induction inbound arbitrary: index) (auto simp: case_prod_beta Let_def split: sum.splits)

lemma ingest_loop_length:
  "length (fst (ingest_loop encodes device now batch session index inbound)) +
   length (snd (ingest_loop encodes device now batch session index inbound)) = length inbound"
  by (induction inbound arbitrary: index) (auto simp: case_prod_beta Let_def split: sum.splits)

lemma ingest_loop_rejections:
  "map rj_Index (fst (ingest_loop encodes device now batch session index inbound)) =
     map fst (filter (\<lambda>(k, i). case Inbound_Normalize i device now of Inl _ \<Rightarrow> True | Inr e \<Rightarrow> \<not> encodes (ev_Metadata e))
       (zip [index..<index + length inbound] inbound))"
  by (induction inbound arbitrary: index)
    (auto simp: upt_conv_Cons case_prod_beta Let_def simp del: upt_Suc split: sum.splits)

lemma Ingest_cases:
  assumes "Ingest encodes ids batch now fs sdb device inbound db = (Inr res, db')"
    and "ingest_loop encodes device now batch (activeSession fs device sdb) 0 inbound = (rejected, rows)"
  shows "length inbound \<le> MaxBatchSize" "ir_Rejected res = rejected" "ir_SessionID res = map_option fst (activeSession fs device sdb)"
    "insert_rows ids rows db = Some (ir_Accepted res, db') \<and> ir_Duplicates res = length rows - ir_Accepted res"
  using assms by (auto simp: Ingest_def insert_events_def Let_def split: if_splits prod.splits option.splits sum.splits)

lemma ingest_row_sel [simp]:
  "er_DeviceID (ingest_row batch session e) = ev_DeviceID e"
  "er_UserID (ingest_row batch session e) = map_option snd session"
  "er_SessionID (ingest_row batch session e) = map_option fst session"
  "er_Source (ingest_row batch session e) = ev_Source e"
  "er_ReceivedAt (ingest_row batch session e) = time_Truncate_us (ev_ReceivedAt e)"
  "er_AgentEventID (ingest_row batch session e) = nullable (ev_AgentEventID e)"
  "er_Metadata (ingest_row batch session e) = ev_Metadata e"
  "er_BatchID (ingest_row batch session e) = Some batch"
  by (simp_all add: ingest_row_def)

lemma ingest_rows_from:
  "r \<in> set (snd (ingest_loop encodes device now batch session index inbound)) \<Longrightarrow>
   \<exists>i e. i \<in> set inbound \<and> Inbound_Normalize i device now = Inr e \<and> r = ingest_row batch session e"
  unfolding ingest_loop_rows by (auto split: sum.splits if_splits) metis

lemma keyed_ingest_row:
  "Inbound_Normalize i device now = Inr e \<Longrightarrow> keyed (ingest_row batch session e) \<longleftrightarrow> TrimSpace (ib_EventID i) \<noteq> []"
  by (simp add: keyed_def Normalize_sel nullable_def)

text \<open>What the server writes into the metadata contains no zero byte.\<close>

lemma pg_text_simps [simp]:
  "pg_text []" "pg_text (c # s) \<longleftrightarrow> c \<noteq> CHR 0x00 \<and> pg_text s" "pg_text (s @ t) \<longleftrightarrow> pg_text s \<and> pg_text t"
  by (auto simp: pg_text_def)

lemma pg_text_show_int [simp]: "pg_text (show_int n)"
  using show_int_chars [of "CHR 0x00" n] by (auto simp: pg_text_def is_digit_def)

lemma pg_text_pad [simp]: "pg_text (pad w n)"
  by (simp add: pad_def Let_def) (simp add: pg_text_def)

lemma pg_text_RFC3339 [simp]: "pg_text (RFC3339 t)"
  by (simp add: RFC3339_def Let_def split: prod.splits)

lemma pg_text_Sprintf_0f [simp]: "pg_text (Sprintf_0f x)"
  by (cases x) (simp_all add: Sprintf_0f_def)

lemma pg_json_meta_put: "pg_json m \<Longrightarrow> pg_text k \<Longrightarrow> pg_text v \<Longrightarrow> pg_json (meta_put k v m)"
  by (induction k v m rule: meta_put.induct) (auto simp: pg_json_def)

lemma Normalize_pg_json:
  assumes "distinct (map fst (ib_Metadata i))" "Inbound_Normalize i device now = Inr e" "pg_json (ib_Metadata i)"
  shows "pg_json (ev_Metadata e)"
  unfolding Normalize_Inr(14) [OF assms(1,2)] using assms(3) by (simp add: pg_json_meta_put)

lemma storable_ingest_row:
  "storable (ingest_row batch session e) \<longleftrightarrow> pg_json (ev_Metadata e) \<and> pg_text (ev_AgentEventID e)"
  by (simp add: storable_def nullable_def)

lemma ascending_filter_zip: "sorted_wrt (<) (map fst (filter P (zip [a..<b] xs)))"
proof (induction xs arbitrary: a)
  case (Cons x xs)
  then show ?case
    by (cases "a < b") (auto simp: upt_conv_Cons simp del: upt_Suc dest: set_zip_leftD)
qed simp

lemma ingest_rows_mem:
  "\<forall>m. encodes m \<Longrightarrow> i \<in> set inbound \<Longrightarrow> Inbound_Normalize i device now = Inr e \<Longrightarrow>
   ingest_row batch session e \<in> set (snd (ingest_loop encodes device now batch session index inbound))"
  unfolding ingest_loop_rows by (force split: sum.splits)

lemma unkeyed_rows:
  assumes "\<forall>m. encodes m"
  shows "length (filter (\<lambda>r. \<not> keyed r) (snd (ingest_loop encodes device now batch session index inbound))) =
    length (filter (\<lambda>i. TrimSpace (ib_EventID i) = [] \<and> (\<exists>e. Inbound_Normalize i device now = Inr e)) inbound)"
  unfolding ingest_loop_rows using assms
  by (induction inbound) (auto simp: keyed_ingest_row split: sum.splits)

text \<open>A row of the retried batch that carries an identifier is in the table already.\<close>

lemma retried_row:
  assumes "\<forall>m. encodes m" "\<forall>i \<in> set inbound. distinct (map fst (ib_Metadata i)) \<and> pg_json (ib_Metadata i)"
    and "insert_rows ids (snd (ingest_loop encodes device now batch session index inbound)) db = Some (n, db')"
    and "r \<in> set (snd (ingest_loop encodes device now' batch' session' index' inbound))" "keyed r"
  shows "already_stored r db' \<and> storable r"
proof -
  let ?rows = "snd (ingest_loop encodes device now batch session index inbound)"
  have first: "\<forall>q \<in> set ?rows. storable q \<and> (keyed q \<longrightarrow> already_stored q db')"
    using insert_rows_Some [OF assms(3)] by blast
  from ingest_rows_from [OF assms(4)] obtain i e'
    where i: "i \<in> set inbound" "Inbound_Normalize i device now' = Inr e'" "r = ingest_row batch' session' e'" by blast
  obtain e where e: "Inbound_Normalize i device now = Inr e" using Normalize_any_time [OF i(2)] by blast
  have q: "ingest_row batch session e \<in> set ?rows" by (rule ingest_rows_mem [OF assms(1) i(1) e])
  have same: "event_key r = event_key (ingest_row batch session e)" "keyed r \<longleftrightarrow> keyed (ingest_row batch session e)"
    unfolding i(3) using i(2) e by (simp_all add: event_key_def keyed_def Normalize_sel)
  have "pg_json (ev_Metadata e')" using Normalize_pg_json i(1,2) assms(2) by blast
  moreover have "pg_text (ev_AgentEventID e')"
    using bspec [OF first q] unfolding storable_ingest_row Normalize_sel(1) [OF i(2)] Normalize_sel(1) [OF e] by blast
  ultimately have "storable r" unfolding i(3) by (simp add: storable_ingest_row)
  moreover have "already_stored r db'" using first q same assms(5) by (simp add: already_stored_iff)
  ultimately show ?thesis by simp
qed

subsection \<open>Properties\<close>

definition sample_event :: "string \<Rightarrow> int \<Rightarrow> Inbound" where
  "sample_event ident ms = \<lparr>ib_EventID = ident, ib_OccurredAtMs = ms, ib_Type = TypeAuthLogin,
     ib_Severity = SeverityOther [], ib_Metadata = [(''k'', ''v'')]\<rparr>"

lemma sample_normalized: "\<exists>e. Inbound_Normalize (sample_event [c] ms) device now = Inr e \<and> ev_AgentEventID e = TrimSpace [c]"
proof -
  have "\<exists>e. Inbound_Normalize (sample_event [c] ms) device now = Inr e"
    by (auto simp: Inbound_Normalize_def sample_event_def Let_def MaxEventIDLen_def MaxMetadataEntries_def
        MaxMetadataKeyLen_def MaxMetadataValueLen_def split: prod.splits)
  then show ?thesis using Normalize_sel(1) by (fastforce simp: sample_event_def)
qed

definition no_sessions :: session_db where
  "no_sessions = \<lparr>sd_sessions = [], sd_nonces = []\<rparr>"

lemma sample_session [simp]: "activeSession fs device no_sessions = None"
  by (simp add: activeSession_def newest_first_def no_sessions_def)

lemma sample_ingest:
  "\<exists>res db. Ingest (\<lambda>_. True) [7] 1 0 [] no_sessions 5 [sample_event ''a'' 1] [] = (Inr res, db)"
proof -
  obtain e where e: "Inbound_Normalize (sample_event ''a'' 1) 5 0 = Inr e" "ev_AgentEventID e = TrimSpace ''a''"
    using sample_normalized by blast
  have "pg_json (ev_Metadata e)" by (rule Normalize_pg_json [OF _ e(1)]) (simp_all add: sample_event_def pg_json_def)
  moreover have "pg_text (TrimSpace ''a'')" by (simp add: TrimSpace_ascii is_space_def)
  ultimately have "storable (ingest_row 1 None e)" by (simp add: storable_ingest_row e(2))
  then show ?thesis
    using e(1) by (simp add: Ingest_def insert_events_def MaxBatchSize_def already_stored_def)
qed

text \<open>
  What a stored event may claim.  An accepted event is attributed to the signing device whatever
  its payload says, its time is within a day of the server's clock, its type and severity are known,
  its identifier and its metadata are bounded.  A claimed time within a day is kept; one further off is
  replaced by the server's and preserved in the metadata, whose other entries are unchanged.
\<close>

theorem event_normalized:
  assumes "distinct (map fst (ib_Metadata i))" "Inbound_Normalize i device now = Inr e"
  shows "ev_DeviceID e = Some device \<and> ev_ReceivedAt e = now \<and> \<bar>now - ev_OccurredAt e\<bar> \<le> MaxClockDrift \<and>
    knownTypes (ev_Type e) \<and> knownSeverities (ev_Severity e) \<and>
    length (ev_AgentEventID e) \<le> MaxEventIDLen \<and> length (ev_Metadata e) \<le> MaxMetadataEntries + 2 \<and>
    (if \<bar>now - claimed_time i now\<bar> \<le> MaxClockDrift
     then ev_OccurredAt e = claimed_time i now \<and> ev_Metadata e = ib_Metadata i
     else ev_OccurredAt e = now \<and>
       map_of (ev_Metadata e) ''netra.reported_occurred_at'' = Some (RFC3339 (claimed_time i now)) \<and>
       (\<forall>k. k \<notin> {''netra.reported_occurred_at'', ''netra.clock_drift_seconds''} \<longrightarrow>
          map_of (ev_Metadata e) k = map_of (ib_Metadata i) k))"
proof -
  note n = Normalize_Inr [OF assms]
  have "length (ev_AgentEventID e) \<le> MaxEventIDLen"
    using length_TrimSpace [of "ib_EventID i"] n(4,7) by simp
  moreover have "length (ev_Metadata e) \<le> MaxMetadataEntries + 2"
    using n(5) unfolding n(14) by (simp add: le_trans [OF length_meta_put] length_meta_put)
  moreover have "\<bar>now - ev_OccurredAt e\<bar> \<le> MaxClockDrift"
    unfolding n(13) drifted_iff by (simp add: MaxClockDrift_def hour_def)
  ultimately show ?thesis
    using n(1,2,8,9) by (simp add: n(13,14) drifted_iff not_le [symmetric])
qed

theorem event_normalized_witness:
  "\<exists>e. Inbound_Normalize (sample_event ''a'' 1) 5 (2 * day) = Inr e \<and> ev_OccurredAt e = 2 * day \<and>
     map_of (ev_Metadata e) ''netra.reported_occurred_at'' = Some ''1970-01-01T00:00:00Z''"
proof -
  have d: "distinct (map fst (ib_Metadata (sample_event ''a'' 1)))" by (simp add: sample_event_def)
  have c: "claimed_time (sample_event ''a'' 1) (2 * day) = 1000000"
    by (simp add: claimed_time_def sample_event_def time_of_UnixMilli_def)
  have r: "RFC3339 1000000 = ''1970-01-01T00:00:00Z''" by code_simp
  obtain e where e: "Inbound_Normalize (sample_event ''a'' 1) 5 (2 * day) = Inr e" using sample_normalized by blast
  have far: "\<not> \<bar>2 * day - 1000000\<bar> \<le> MaxClockDrift" by (simp add: day_def MaxClockDrift_def hour_def)
  from event_normalized [OF d e, unfolded c r if_not_P [OF far]] e show ?thesis by blast
qed

text \<open>
  C26: every event of a batch is accounted for.  When a batch is accepted, the numbers of accepted,
  duplicate and rejected events add up to its size, the rejections name positions in ascending order,
  the table grows by exactly the accepted events, all attributed to the signing device and to its
  current session and that session's user; the table keeps one event per device and agent
  identifier.  When it fails, the table is unchanged.
\<close>

theorem ingest_accounts:
  assumes "Ingest encodes ids batch now fs sdb device inbound db = (out, db')" "events_unique db"
  shows "events_unique db' \<and>
    (case out of
       Inl _ \<Rightarrow> db' = db
     | Inr res \<Rightarrow>
         ir_Accepted res + ir_Duplicates res + length (ir_Rejected res) = length inbound \<and>
         sorted_wrt (<) (map rj_Index (ir_Rejected res)) \<and>
         (\<exists>new. db' = db @ new \<and> length new = ir_Accepted res \<and>
            (\<forall>r \<in> set new. er_DeviceID r = Some device \<and> er_Source r = SourceAgent \<and>
               er_SessionID r = map_option fst (activeSession fs device sdb) \<and>
               er_UserID r = map_option snd (activeSession fs device sdb) \<and>
               er_ReceivedAt r = time_Truncate_us now)))"
proof (cases out)
  case (Inl e)
  then have "db' = db"
    using assms(1) by (auto simp: Ingest_def insert_events_def Let_def split: if_splits prod.splits option.splits sum.splits)
  with Inl assms(2) show ?thesis by simp
next
  case (Inr res)
  let ?loop = "ingest_loop encodes device now batch (activeSession fs device sdb) 0 inbound"
  obtain rejected rows where loop: "?loop = (rejected, rows)" by fastforce
  note c = Ingest_cases [OF assms(1) [unfolded Inr] loop]
  from insert_rows_Some [OF conjunct1 [OF c(4)]] obtain new where new: "ir_Accepted res \<le> length rows" "db' = db @ new"
      "length new = ir_Accepted res" "\<forall>q \<in> set new. \<exists>r \<in> set rows. q = r\<lparr>er_ID := er_ID q\<rparr>" "events_unique db'"
    using assms(2) by blast
  have "er_DeviceID q = Some device \<and> er_Source q = SourceAgent \<and>
      er_SessionID q = map_option fst (activeSession fs device sdb) \<and>
      er_UserID q = map_option snd (activeSession fs device sdb) \<and> er_ReceivedAt q = time_Truncate_us now"
    if q: "q \<in> set new" for q
  proof -
    obtain r where r: "r \<in> set rows" "q = r\<lparr>er_ID := er_ID q\<rparr>" using new(4) q by blast
    obtain i e where "Inbound_Normalize i device now = Inr e" "r = ingest_row batch (activeSession fs device sdb) e"
      using ingest_rows_from [of r encodes device now batch "activeSession fs device sdb" 0 inbound] r(1) loop by auto
    moreover obtain x where "q = r\<lparr>er_ID := x\<rparr>" using r(2) by blast
    ultimately show ?thesis by (simp add: Normalize_sel)
  qed
  moreover have "sorted_wrt (<) (map rj_Index rejected)"
    using ingest_loop_rejections [of encodes device now batch _ 0 inbound] loop ascending_filter_zip by (metis fst_conv)
  ultimately show ?thesis
    using Inr c new ingest_loop_length [of encodes device now batch "activeSession fs device sdb" 0 inbound] loop by auto
qed

theorem ingest_accounts_witness:
  "\<exists>res db'. Ingest (\<lambda>_. True) [7] 1 0 [] no_sessions 5 [sample_event ''a'' 1] [] = (Inr res, db') \<and>
     ir_Accepted res + ir_Duplicates res + length (ir_Rejected res) = 1 \<and> events_unique db'"
proof -
  obtain res db' where r: "Ingest (\<lambda>_. True) [7] 1 0 [] no_sessions 5 [sample_event ''a'' 1] [] = (Inr res, db')"
    using sample_ingest by blast
  from ingest_accounts [OF r] r show ?thesis by (auto simp: events_unique_def)
qed

text \<open>
  C29: resending a batch.  After a batch was stored, sending it again, at any time and with any batch
  identifier, stores exactly its valid events that carry no identifier a second time.  If every event
  has one, the retry succeeds and changes nothing.
\<close>

theorem retry_idempotent:
  assumes "\<forall>m. encodes m" "Ingest encodes ids batch now [] sdb device inbound db = (Inr res, db')"
    and "\<forall>i \<in> set inbound. distinct (map fst (ib_Metadata i)) \<and> pg_json (ib_Metadata i)"
  shows "(Ingest encodes ids' batch' now' [] sdb' device inbound db' = (Inr res', db'') \<longrightarrow>
       ir_Accepted res' = length (filter (\<lambda>i. TrimSpace (ib_EventID i) = [] \<and>
         (\<exists>e. Inbound_Normalize i device now = Inr e)) inbound)) \<and>
    ((\<forall>i \<in> set inbound. TrimSpace (ib_EventID i) \<noteq> []) \<and> length inbound \<le> length ids' \<longrightarrow>
       (\<exists>res'. Ingest encodes ids' batch' now' [] sdb' device inbound db' = (Inr res', db') \<and> ir_Accepted res' = 0))"
proof -
  let ?s = "activeSession [] device sdb" and ?s' = "activeSession [] device sdb'"
  obtain rejected rows where l: "ingest_loop encodes device now batch ?s 0 inbound = (rejected, rows)" by fastforce
  obtain rejected' rows' where l': "ingest_loop encodes device now' batch' ?s' 0 inbound = (rejected', rows')" by fastforce
  have "insert_rows ids (snd (ingest_loop encodes device now batch ?s 0 inbound)) db = Some (ir_Accepted res, db')"
    using Ingest_cases(4) [OF assms(2) l] l by simp
  note retried = retried_row [OF assms(1,3) this, of _ now' batch' ?s' 0, unfolded l' snd_conv]
  have "ir_Accepted res' = length (filter (\<lambda>i. TrimSpace (ib_EventID i) = [] \<and> (\<exists>e. Inbound_Normalize i device now = Inr e)) inbound)"
    if "Ingest encodes ids' batch' now' [] sdb' device inbound db' = (Inr res', db'')"
  proof -
    have "(\<exists>e. Inbound_Normalize i device now = Inr e) \<longleftrightarrow> (\<exists>e. Inbound_Normalize i device now' = Inr e)" for i
      using Normalize_any_time by blast
    with unkeyed_rows [OF assms(1), of device now' batch' ?s' 0 inbound] l'
    show ?thesis using insert_rows_again [of rows' db' ids'] Ingest_cases(4) [OF that l'] retried by simp
  qed
  moreover have "\<exists>res'. Ingest encodes ids' batch' now' [] sdb' device inbound db' = (Inr res', db') \<and> ir_Accepted res' = 0"
    if all: "\<forall>i \<in> set inbound. TrimSpace (ib_EventID i) \<noteq> []" and long: "length inbound \<le> length ids'"
  proof -
    have "filter (\<lambda>i. TrimSpace (ib_EventID i) = [] \<and> (\<exists>e. Inbound_Normalize i device now' = Inr e)) inbound = []"
      using all by (auto simp: filter_empty_conv)
    with unkeyed_rows [OF assms(1), of device now' batch' ?s' 0 inbound] l'
    have "\<forall>r \<in> set rows'. keyed r" by (auto simp: filter_empty_conv)
    moreover have "length rows' \<le> length ids'"
      using ingest_loop_length [of encodes device now' batch' ?s' 0 inbound] l' long by simp
    ultimately have "insert_rows ids' rows' db' = Some (0, db')" using retried by (intro insert_rows_noop) auto
    then show ?thesis
      using Ingest_cases(1) [OF assms(2) l] l' by (auto simp: Ingest_def insert_events_def Let_def)
  qed
  ultimately show ?thesis by blast
qed

theorem retry_idempotent_witness:
  "\<exists>res db res'. Ingest (\<lambda>_. True) [7] 1 0 [] no_sessions 5 [sample_event ''a'' 1] [] = (Inr res, db) \<and>
     Ingest (\<lambda>_. True) [8] 2 9 [] no_sessions 5 [sample_event ''a'' 1] db = (Inr res', db) \<and> ir_Accepted res' = 0"
proof -
  obtain res db where r: "Ingest (\<lambda>_. True) [7] 1 0 [] no_sessions 5 [sample_event ''a'' 1] [] = (Inr res, db)"
    using sample_ingest by blast
  have "TrimSpace ''a'' \<noteq> []" by (simp add: TrimSpace_ascii is_space_def)
  then have "\<exists>res'. Ingest (\<lambda>_. True) [8] 2 9 [] no_sessions 5 [sample_event ''a'' 1] db = (Inr res', db) \<and> ir_Accepted res' = 0"
    using retry_idempotent [OF _ r, of "[8]" 2 9 "no_sessions"]
    by (simp add: sample_event_def pg_json_def)
  with r show ?thesis by blast
qed

text \<open>
  One event can sink a batch.  An event that passes every check but contains a zero byte in its
  identifier or its metadata makes the insertion fail, so nothing of the batch is stored, however many
  valid events it has, and resending it fails again.
\<close>

theorem zero_byte_sinks_batch:
  assumes "\<forall>m. encodes m" "length inbound \<le> MaxBatchSize" "i \<in> set inbound" "Inbound_Normalize i device now = Inr e"
    and "\<not> pg_text (ev_AgentEventID e) \<or> \<not> pg_json (ev_Metadata e)"
  shows "Ingest encodes ids batch now [] sdb device inbound db = (Inl (ErrTelemetryDB ''insert event''), db)"
proof -
  let ?s = "activeSession [] device sdb"
  obtain rejected rows where l: "ingest_loop encodes device now batch ?s 0 inbound = (rejected, rows)" by fastforce
  have bad: "ingest_row batch ?s e \<in> set rows" "\<not> storable (ingest_row batch ?s e)"
    using ingest_rows_mem [OF assms(1,3,4), of batch ?s 0] l assms(5) by (auto simp: storable_ingest_row)
  then have "insert_rows ids rows db = None" using insert_rows_Some [of ids rows db] by (cases "insert_rows ids rows db") auto
  moreover have "rows \<noteq> []" using bad(1) by auto
  ultimately show ?thesis using assms(2) l by (simp add: Ingest_def insert_events_def Let_def)
qed

theorem zero_byte_sinks_batch_witness:
  "Ingest (\<lambda>_. True) [7, 8] 1 0 [] no_sessions 5
     [sample_event ''a'' 1, sample_event [CHR 0x00] 1] [] = (Inl (ErrTelemetryDB ''insert event''), [])"
proof -
  obtain e where e: "Inbound_Normalize (sample_event [CHR 0x00] 1) 5 0 = Inr e" "ev_AgentEventID e = TrimSpace [CHR 0x00]"
    using sample_normalized by blast
  then have "\<not> pg_text (ev_AgentEventID e)" by (simp add: TrimSpace_ascii is_space_def)
  then show ?thesis by (intro zero_byte_sinks_batch [OF _ _ _ e(1)]) (simp_all add: MaxBatchSize_def)
qed

end
