(* ===== verification/Behaviour.thy ===== *)
theory Behaviour
  imports Telemetry
begin

section \<open>Behaviour: what is normal for one user\<close>

text \<open>
  \<^verbatim>\<open>internal/behaviour/baseline.go\<close> and \<^verbatim>\<open>store.go\<close>.  A profile is a histogram of login hours, the sets of
  devices, applications and networks seen, and the mean and deviation of the number of events per
  session, computed in float64 without fused operations.  The array of 24 counters is a list of that
  length; a Go map used as a set is the sorted list of its keys, which is all the code reads of it.
  The table holds one profile per user; encoding to JSON and back is the identity on its columns.
\<close>

subsection \<open>baseline.go\<close>

definition MinimumObservations :: int where "MinimumObservations = 5"
definition DefaultWindowDays :: int where "DefaultWindowDays = 30"

record Profile =
  bp_UserID :: uuid
  bp_UpdatedAt :: time
  bp_WindowDays :: int
  bp_ObservationCount :: int
  bp_LoginHours :: "int list"
  bp_KnownDevices :: "string list"
  bp_KnownApplications :: "string list"
  bp_KnownNetworks :: "string list"
  bp_AccessRateMean :: f64
  bp_AccessRateStdDev :: f64
  bp_Established :: bool

record Observation =
  ob_StartedAt :: time
  ob_DeviceID :: uuid
  ob_Applications :: "string list"
  ob_Network :: string
  ob_EventCount :: int

definition sortedKeys :: "string list \<Rightarrow> string list" where
  "sortedKeys keys = sort (remdups keys)"

fun contains :: "string list \<Rightarrow> string \<Rightarrow> bool" where
  "contains [] needle = False"
| "contains (candidate # rest) needle = (candidate = needle \<or> contains rest needle)"

definition meanAndStdDev :: "f64 list \<Rightarrow> f64 \<times> f64" where
  "meanAndStdDev values =
     (if values = [] then (Fin 0, Fin 0)
      else
        (let n = f64_of_int (int (length values));
             mean = foldl (\<lambda>sum v. sum + v) (Fin 0) values div n
         in if length values < 2 then (mean, Fin 0)
            else (mean, f64_sqrt (foldl (\<lambda>variance v. variance + (v - mean) * (v - mean)) (Fin 0) values div n))))"

definition count_hour :: "int list \<Rightarrow> Observation \<Rightarrow> int list" where
  "count_hour hours ob = (let h = time_Hour (ob_StartedAt ob) in hours[h := wrap64 (hours ! h + 1)])"

definition Build :: "uuid \<Rightarrow> int \<Rightarrow> Observation list \<Rightarrow> time \<Rightarrow> Profile" where
  "Build userID windowDays observations now =
     (let windowDays = (if windowDays \<le> 0 then DefaultWindowDays else windowDays);
          seen = int (length observations);
          (mean, deviation) = meanAndStdDev (map (\<lambda>ob. f64_of_int (ob_EventCount ob)) observations)
      in \<lparr>bp_UserID = userID, bp_UpdatedAt = now, bp_WindowDays = windowDays, bp_ObservationCount = seen,
          bp_LoginHours = foldl count_hour (replicate 24 0) observations,
          bp_KnownDevices = sortedKeys (map (\<lambda>ob. uuid_String (ob_DeviceID ob)) observations),
          bp_KnownApplications = sortedKeys (concat (map (\<lambda>ob. filter (\<lambda>a. a \<noteq> []) (ob_Applications ob)) observations)),
          bp_KnownNetworks = sortedKeys (filter (\<lambda>n. n \<noteq> []) (map ob_Network observations)),
          bp_AccessRateMean = mean, bp_AccessRateStdDev = deviation,
          bp_Established = (seen \<ge> MinimumObservations)\<rparr>)"

definition IsTypicalHour :: "Profile \<Rightarrow> time \<Rightarrow> bool" where
  "IsTypicalHour p t =
     (if \<not> bp_Established p then True
      else
        (let hour = int (time_Hour t)
         in list_ex (\<lambda>offset. bp_LoginHours p ! nat ((hour + offset) mod 24) > 0) [-1, 0, 1]))"

definition IsKnownDevice :: "Profile \<Rightarrow> uuid \<Rightarrow> bool" where
  "IsKnownDevice p device = contains (bp_KnownDevices p) (uuid_String device)"

definition IsKnownApplication :: "Profile \<Rightarrow> string \<Rightarrow> bool" where
  "IsKnownApplication p application = contains (bp_KnownApplications p) application"

definition IsKnownNetwork :: "Profile \<Rightarrow> string \<Rightarrow> bool" where
  "IsKnownNetwork p network = contains (bp_KnownNetworks p) network"

definition AccessVolumeZScore :: "Profile \<Rightarrow> int \<Rightarrow> f64" where
  "AccessVolumeZScore p eventCount =
     (if \<not> bp_Established p \<or> bp_AccessRateStdDev p \<le> Fin 0 then Fin 0
      else
        (let z = (f64_of_int eventCount - bp_AccessRateMean p) div bp_AccessRateStdDev p
         in if z < Fin 0 then Fin 0 else z))"

subsection \<open>store.go\<close>

datatype behaviour_error = ErrNoProfile | ErrBehaviourDB string

type_synonym behaviour_db = "uuid \<rightharpoonup> Profile"

text \<open>What the columns keep: microseconds, a 16-bit window and a 32-bit count.\<close>

definition stored_profile :: "Profile \<Rightarrow> Profile option" where
  "stored_profile p =
     (if fits16 (bp_WindowDays p) \<and> - (2 ^ 31) \<le> bp_ObservationCount p \<and> bp_ObservationCount p < 2 ^ 31
      then Some (p\<lparr>bp_UpdatedAt := time_Truncate_us (bp_UpdatedAt p)\<rparr>) else None)"

definition Load :: "faults \<Rightarrow> uuid \<Rightarrow> behaviour_db \<Rightarrow> behaviour_error + Profile" where
  "Load fs userID db =
     (if fault fs ''load behaviour profile'' then Inl (ErrBehaviourDB ''load behaviour profile'')
      else case db userID of
             None \<Rightarrow> Inl ErrNoProfile
           | Some p \<Rightarrow>
               if fault fs ''decode behaviour profile field'' then Inl (ErrBehaviourDB ''decode behaviour profile field'')
               else Inr (p\<lparr>bp_LoginHours := take 24 (bp_LoginHours p) @ replicate (24 - length (bp_LoginHours p)) 0\<rparr>))"

definition Save :: "faults \<Rightarrow> Profile \<Rightarrow> behaviour_db \<Rightarrow> behaviour_error option \<times> behaviour_db" where
  "Save fs p db =
     (if fault fs ''save behaviour profile'' then (Some (ErrBehaviourDB ''save behaviour profile''), db)
      else case stored_profile p of
             None \<Rightarrow> (Some (ErrBehaviourDB ''save behaviour profile''), db)
           | Some row \<Rightarrow> (None, db(bp_UserID p \<mapsto> row)))"

definition observation :: "event_db \<Rightarrow> Session \<Rightarrow> Observation" where
  "observation events s =
     \<lparr>ob_StartedAt = s_StartedAt s, ob_DeviceID = s_DeviceID s, ob_Applications = [], ob_Network = s_SourceIP s,
      ob_EventCount = int (length (filter (\<lambda>e. er_SessionID e = Some (s_ID s)) events))\<rparr>"

definition Rebuild ::
  "time \<Rightarrow> time \<Rightarrow> faults \<Rightarrow> session_db \<Rightarrow> event_db \<Rightarrow> uuid \<Rightarrow> int \<Rightarrow> behaviour_db \<Rightarrow>
   (behaviour_error + Profile) \<times> behaviour_db" where
  "Rebuild now later fs sdb events userID windowDays db =
     (let windowDays = (if windowDays \<le> 0 then DefaultWindowDays else windowDays);
          since = time_AddDays now (- windowDays)
      in if fault fs ''query sessions for baseline'' then (Inl (ErrBehaviourDB ''query sessions for baseline''), db)
         else if fault fs ''scan session for baseline'' then (Inl (ErrBehaviourDB ''scan session for baseline''), db)
         else
           (let rows = SliceStable (\<lambda>a b. s_StartedAt a < s_StartedAt b)
                  (filter (\<lambda>s. s_UserID s = userID \<and> s_StartedAt s \<ge> since) (sd_sessions sdb));
                profile = Build userID windowDays (map (observation events) rows) later
            in case Save fs profile db of
                 (Some e, db') \<Rightarrow> (Inl e, db')
               | (None, db') \<Rightarrow> (Inr profile, db')))"

subsection \<open>Building a profile\<close>

lemma set_sortedKeys [simp]: "set (sortedKeys keys) = set keys"
  by (simp add: sortedKeys_def)

lemma sortedKeys_canonical: "sorted (sortedKeys keys) \<and> distinct (sortedKeys keys)"
  by (simp add: sortedKeys_def)

lemma contains_iff: "contains xs x \<longleftrightarrow> x \<in> set xs"
  by (induction xs) auto

definition hour_count :: "Observation list \<Rightarrow> nat \<Rightarrow> nat" where
  "hour_count obs h = length (filter (\<lambda>ob. time_Hour (ob_StartedAt ob) = h) obs)"

lemma length_count_hours [simp]: "length (foldl count_hour hs obs) = length hs"
  by (induction obs arbitrary: hs) (auto simp: count_hour_def Let_def)

lemma count_hours:
  assumes "int (length obs) < 2 ^ 63" "h < 24"
  shows "foldl count_hour (replicate 24 0) obs ! h = int (hour_count obs h)"
  using assms
proof (induction obs rule: rev_induct)
  case Nil
  then show ?case by (simp add: hour_count_def)
next
  case (snoc ob obs)
  let ?h = "time_Hour (ob_StartedAt ob)"
  have "int (hour_count obs h) \<le> int (length obs)" by (simp add: hour_count_def)
  with snoc.prems(1) have "wrap64 (int (hour_count obs h) + 1) = int (hour_count obs h) + 1"
    by (intro wrap64_id) (auto simp: fits64_def)
  moreover have ih: "foldl count_hour (replicate 24 0) obs ! h = int (hour_count obs h)"
    using snoc by simp
  moreover have "foldl count_hour (replicate 24 0) (obs @ [ob]) =
      (foldl count_hour (replicate 24 0) obs) [?h := wrap64 (foldl count_hour (replicate 24 0) obs ! ?h + 1)]"
    by (simp add: count_hour_def [of _ ob] Let_def)
  ultimately show ?case
    using snoc.prems(2) by (cases "h = ?h") (simp_all add: hour_count_def)
qed

lemma Build_sel [simp]:
  "bp_ObservationCount (Build u w obs now) = int (length obs)"
  "bp_LoginHours (Build u w obs now) = foldl count_hour (replicate 24 0) obs"
  "bp_KnownDevices (Build u w obs now) = sortedKeys (map (\<lambda>ob. uuid_String (ob_DeviceID ob)) obs)"
  "bp_KnownApplications (Build u w obs now) = sortedKeys (concat (map (\<lambda>ob. filter (\<lambda>a. a \<noteq> []) (ob_Applications ob)) obs))"
  "bp_KnownNetworks (Build u w obs now) = sortedKeys (filter (\<lambda>n. n \<noteq> []) (map ob_Network obs))"
  "bp_Established (Build u w obs now) \<longleftrightarrow> 5 \<le> length obs"
  "bp_UserID (Build u w obs now) = u"
  "bp_WindowDays (Build u w obs now) = (if w \<le> 0 then 30 else w)"
  by (auto simp: Build_def Let_def MinimumObservations_def DefaultWindowDays_def split: prod.splits)

text \<open>Two hours are close when they are at most one apart on the clock face.\<close>

definition hours_close :: "nat \<Rightarrow> nat \<Rightarrow> bool" where
  "hours_close a b \<longleftrightarrow> a = b \<or> (a + 1) mod 24 = b \<or> (b + 1) mod 24 = a"

lemma previous_hour: "x < 24 \<Longrightarrow> h < 24 \<Longrightarrow> x = nat ((int h - 1) mod 24) \<longleftrightarrow> (x + 1) mod 24 = h"
proof -
  assume x: "x < 24" and h: "h < 24"
  have "nat ((int h - 1) mod 24) = (if h = 0 then 23 else h - 1)" using h by (auto simp: nat_diff_distrib)
  moreover have "(x + 1) mod 24 = (if x = 23 then 0 else x + 1)" using x by auto
  ultimately show ?thesis using x h by auto
qed

lemma typical_hour_iff:
  assumes "int (length obs) < 2 ^ 63" "5 \<le> length obs"
  shows "IsTypicalHour (Build u w obs now) t \<longleftrightarrow>
    (\<exists>ob \<in> set obs. hours_close (time_Hour (ob_StartedAt ob)) (time_Hour t))"
proof -
  let ?h = "time_Hour t" and ?hs = "foldl count_hour (replicate 24 0) obs"
  have pos: "?hs ! h > 0 \<longleftrightarrow> (\<exists>ob \<in> set obs. time_Hour (ob_StartedAt ob) = h)" if "h < 24" for h
    using count_hours [OF assms(1) that] by (auto simp: hour_count_def filter_empty_conv)
  have idx: "nat ((int ?h - 1) mod 24) < 24" "nat ((int ?h + 1) mod 24) < 24" by (simp_all add: nat_less_iff)
  have down: "x = nat ((int ?h - 1) mod 24) \<longleftrightarrow> (x + 1) mod 24 = ?h" if "x < 24" for x
    using previous_hour [OF that time_Hour_less] .
  have up: "nat ((int ?h + 1) mod 24) = (?h + 1) mod 24" by (simp add: nat_mod_distrib nat_add_distrib)
  have "IsTypicalHour (Build u w obs now) t \<longleftrightarrow>
      ?hs ! nat ((int ?h - 1) mod 24) > 0 \<or> ?hs ! ?h > 0 \<or> ?hs ! ((?h + 1) mod 24) > 0"
    using assms(2) by (simp add: IsTypicalHour_def Let_def up)
  also have "\<dots> \<longleftrightarrow> (\<exists>ob \<in> set obs. time_Hour (ob_StartedAt ob) = nat ((int ?h - 1) mod 24) \<or>
      time_Hour (ob_StartedAt ob) = ?h \<or> time_Hour (ob_StartedAt ob) = (?h + 1) mod 24)"
    using pos idx time_Hour_less [of t] by auto
  finally show ?thesis using down [OF time_Hour_less] unfolding hours_close_def by metis
qed

subsection \<open>Steady volume\<close>

lemma foldl_sum_const:
  assumes "0 \<le> c" "(int n + 1) * c < 2 ^ 53" shows "foldl (\<lambda>sum v. sum + v) (Fin 0) (replicate n (Fin (of_int c))) = Fin (of_int (int n * c))"
  using assms(2)
proof (induction n)
  case (Suc n)
  have le: "0 \<le> int n * c" "int n * c \<le> (int n + 1) * c" "(int n + 1) * c \<le> (int (Suc n) + 1) * c"
    using assms(1) by (simp_all add: algebra_simps)
  then have sum: "f64_round (of_int (int n * c + c)) = Fin (of_int (int n * c + c))"
    using Suc.prems assms(1) by (intro f64_round_of_int) (simp add: algebra_simps)
  have "foldl (\<lambda>sum v. sum + v) (Fin 0) (replicate n (Fin (of_int c)) @ [Fin (of_int c)]) = f64_round (of_int (int n * c + c))"
    using Suc.IH Suc.prems le by simp
  then show ?case unfolding sum by (simp add: replicate_append_same algebra_simps)
qed simp

lemma foldl_zero_deviation: "foldl (\<lambda>variance v. variance + (v - m) * (v - m)) (Fin 0) (replicate n m) = Fin 0"
  if "m = Fin r" for m r
  using that by (induction n) simp_all

lemma meanAndStdDev_const:
  assumes "0 < n" "0 \<le> c" "(int n + 1) * c < 2 ^ 53" "int n < 2 ^ 53"
  shows "meanAndStdDev (replicate n (Fin (of_int c))) = (Fin (of_int c), Fin 0)"
proof -
  have "int n * c \<le> (int n + 1) * c" "c \<le> (int n + 1) * c" using assms(1,2) by (simp_all add: algebra_simps)
  then have c: "f64_round (of_int c) = Fin (of_int c)" using assms(2,3) by (intro f64_round_of_int) simp
  have n: "f64_of_int (int n) = Fin (of_nat n)" using assms(4) by (simp add: f64_of_int_small)
  have "foldl (\<lambda>sum v. sum + v) (Fin 0) (replicate n (Fin (of_int c))) div f64_of_int (int n) = Fin (of_int c)"
    using assms(1) c by (simp add: foldl_sum_const [OF assms(2,3)] n)
  moreover have "foldl (\<lambda>variance v. variance + (v - Fin (of_int c)) * (v - Fin (of_int c))) (Fin 0)
      (replicate n (Fin (of_int c))) div f64_of_int (int n) = Fin 0"
    using assms(1) by (simp add: foldl_zero_deviation n)
  ultimately show ?thesis using assms(1) by (simp add: meanAndStdDev_def Let_def)
qed

lemma no_applications:
  "sortedKeys (concat (map (\<lambda>ob. filter (\<lambda>a. a \<noteq> []) (ob_Applications ob)) (map (observation events) rows))) = []"
proof -
  have "concat (map (\<lambda>ob. filter (\<lambda>a. a \<noteq> []) (ob_Applications ob)) (map (observation events) rows)) = []"
    by (auto simp: observation_def)
  then show ?thesis by (simp only: sortedKeys_def) simp
qed

subsection \<open>Properties\<close>

text \<open>
  A profile knows exactly its history.  A profile is established from five sessions on; once it is,
  an hour is typical exactly if some session started within one hour of it on the clock face,
  midnight included; a device or a network is known exactly if a session used it.
\<close>

theorem profile_recognises_history:
  assumes "int (length obs) < 2 ^ 63"
  shows "let p = Build u w obs now in
    (bp_Established p \<longleftrightarrow> 5 \<le> length obs) \<and>
    (IsTypicalHour p t \<longleftrightarrow> length obs < 5 \<or> (\<exists>ob \<in> set obs. hours_close (time_Hour (ob_StartedAt ob)) (time_Hour t))) \<and>
    (IsKnownDevice p d \<longleftrightarrow> (\<exists>ob \<in> set obs. ob_DeviceID ob = d)) \<and>
    (IsKnownNetwork p n \<longleftrightarrow> n \<noteq> [] \<and> (\<exists>ob \<in> set obs. ob_Network ob = n))"
proof -
  have "IsTypicalHour (Build u w obs now) t" if "length obs < 5" using that by (simp add: IsTypicalHour_def)
  then show ?thesis
    using typical_hour_iff [OF assms, of u w now t]
    by (cases "5 \<le> length obs")
      (auto simp: Let_def IsKnownDevice_def IsKnownNetwork_def contains_iff uuid_String_inject)
qed

definition sample_observation :: Observation where
  "sample_observation = \<lparr>ob_StartedAt = 0, ob_DeviceID = 7, ob_Applications = [], ob_Network = ''10.0.0.1'', ob_EventCount = 3\<rparr>"

theorem profile_recognises_history_witness:
  "IsTypicalHour (Build 1 0 (replicate 5 sample_observation) 0) (23 * hour) \<and>
   \<not> IsTypicalHour (Build 1 0 (replicate 5 sample_observation) 0) (12 * hour)"
proof -
  have h: "time_Hour 0 = 0" "time_Hour (23 * hour) = 23" "time_Hour (12 * hour) = 12" by (simp_all add: time_Hour_def hour_def)
  show ?thesis
    using profile_recognises_history [of "replicate 5 sample_observation" 1 0 0 "23 * hour"]
      profile_recognises_history [of "replicate 5 sample_observation" 1 0 0 "12 * hour"]
    by (simp add: Let_def h hours_close_def sample_observation_def)
qed

text \<open>
  Rebuilding and loading.  A successful rebuild stores what it returns, so that loading gives the
  same profile up to the microseconds of its timestamp; no other user's profile changes, a failed
  rebuild changes nothing, and no rebuild ever records an application, so that no application
  is known to any rebuilt profile.
\<close>

theorem rebuild_then_load:
  assumes "Rebuild now later fs sdb events u w db = (out, db')"
  shows "(\<forall>v. v \<noteq> u \<longrightarrow> db' v = db v) \<and>
    (case out of
       Inl _ \<Rightarrow> db' = db
     | Inr p \<Rightarrow> Load [] u db' = Inr (p\<lparr>bp_UpdatedAt := time_Truncate_us (bp_UpdatedAt p)\<rparr>) \<and>
         bp_UserID p = u \<and> bp_KnownApplications p = [] \<and> \<not> IsKnownApplication p a)"
proof -
  let ?w = "if w \<le> 0 then DefaultWindowDays else w"
  let ?rows = "SliceStable (\<lambda>a b. s_StartedAt a < s_StartedAt b)
    (filter (\<lambda>s. s_UserID s = u \<and> s_StartedAt s \<ge> time_AddDays now (- ?w)) (sd_sessions sdb))"
  define p where "p = Build u ?w (map (observation events) ?rows) later"
  have p: "bp_UserID p = u" "length (bp_LoginHours p) = 24" "bp_KnownApplications p = []"
    unfolding p_def Build_sel(4) no_applications by simp_all
  have "(\<exists>e. out = Inl e) \<and> db' = db \<or>
      out = Inr p \<and> db' = db(u \<mapsto> p\<lparr>bp_UpdatedAt := time_Truncate_us (bp_UpdatedAt p)\<rparr>)"
    using assms p(1) unfolding Rebuild_def Let_def p_def [symmetric]
    by (auto simp: Save_def stored_profile_def split: if_splits option.splits)
  then show ?thesis
  proof
    assume "out = Inr p \<and> db' = db(u \<mapsto> p\<lparr>bp_UpdatedAt := time_Truncate_us (bp_UpdatedAt p)\<rparr>)"
    then show ?thesis using p by (simp add: Load_def IsKnownApplication_def)
  qed auto
qed

theorem rebuild_then_load_witness:
  "\<exists>p db'. Rebuild 0 0 [] no_sessions [] 1 0 Map.empty = (Inr p, db') \<and>
     Load [] 1 db' = Inr (p\<lparr>bp_UpdatedAt := time_Truncate_us (bp_UpdatedAt p)\<rparr>)"
proof -
  have "fits16 30" by (simp add: fits16_def)
  then obtain p db' where r: "Rebuild 0 0 [] no_sessions [] 1 0 Map.empty = (Inr p, db')"
    by (simp add: Rebuild_def Let_def Save_def stored_profile_def no_sessions_def DefaultWindowDays_def)
  from rebuild_then_load [OF this] r show ?thesis by auto
qed

text \<open>
  A steady user is never flagged for volume.  When every session of the history has the same
  number of events, the deviation is exactly zero in floating point, so no number of events, however
  large, is unusual for that user.
\<close>

theorem steady_volume_never_unusual:
  assumes "\<forall>ob \<in> set obs. ob_EventCount ob = c" "0 \<le> c" "(int (length obs) + 1) * (c + 1) < 2 ^ 53"
  shows "AccessVolumeZScore (Build u w obs now) k = Fin 0"
proof (cases "obs = []")
  case True
  then show ?thesis by (simp add: AccessVolumeZScore_def)
next
  case False
  have b: "(int (length obs) + 1) * c < 2 ^ 53" "int (length obs) < 2 ^ 53" "c < 2 ^ 53"
  proof -
    let ?n = "int (length obs)"
    have "0 \<le> ?n * c" using assms(2) by simp
    moreover have "(?n + 1) * (c + 1) = ?n * c + c + ?n + 1" "(?n + 1) * c = ?n * c + c" by (simp_all add: algebra_simps)
    ultimately show "(?n + 1) * c < 2 ^ 53" "?n < 2 ^ 53" "c < 2 ^ 53" using assms(2,3) by linarith+
  qed
  have "map (\<lambda>ob. f64_of_int (ob_EventCount ob)) obs = replicate (length obs) (Fin (of_int c))"
    using assms(1,2) b(3) by (intro replicate_eqI) (auto simp: f64_of_int_small)
  then have "bp_AccessRateStdDev (Build u w obs now) = Fin 0"
    using meanAndStdDev_const [of "length obs" c] False assms(2) b by (simp add: Build_def Let_def)
  then show ?thesis by (simp add: AccessVolumeZScore_def)
qed

theorem steady_volume_never_unusual_witness:
  "AccessVolumeZScore (Build 1 0 (replicate 5 sample_observation) 0) 1000000 = Fin 0"
  using steady_volume_never_unusual [of "replicate 5 sample_observation" 3 1 0 0 1000000]
  by (simp add: sample_observation_def)

end
