(* ===== verification/Incident.thy ===== *)
theory Incident
  imports Slices
begin

section \<open>Incident: correlated escalations\<close>

text \<open>
  \<^verbatim>\<open>internal/incident/incident.go\<close>.  Escalations of a session are collected in one incident, whose key
  is made of the first eighteen characters of the session identifier.  The tables are lists of rows;
  what a query joins from other tables (display names, whether an event exists) is an argument.
  A batch is one transaction, as \<^verbatim>\<open>SendBatch\<close> runs it: it takes effect as a whole or not at all.  The
  tables of users, devices and sessions that an incident refers to are not part of this state: a
  reference that is violated is one of the failing statements the faults name.
  Shown: one incident per key with the highest risk ever reported and the severity that came with it,
  a closing time exactly on closed incidents, and that an escalation does not reopen a closed one.
\<close>

subsection \<open>Definitions\<close>

datatype incident_Status =
  StatusOpen | StatusInvestigating | StatusContained | StatusResolved | StatusFalsePositive
| StatusUnknown string

definition knownStatuses :: "(string \<times> incident_Status) list" where
  "knownStatuses =
     [(''OPEN'', StatusOpen), (''INVESTIGATING'', StatusInvestigating), (''CONTAINED'', StatusContained),
      (''RESOLVED'', StatusResolved), (''FALSE_POSITIVE'', StatusFalsePositive)]"

definition ParseStatus :: "string \<Rightarrow> incident_Status \<times> bool" where
  "ParseStatus raw =
     (case map_of knownStatuses raw of
        Some status \<Rightarrow> (status, True)
      | None \<Rightarrow> (StatusUnknown raw, False))"

record Incident =
  ic_ID :: uuid
  ic_Key :: string
  ic_Title :: string
  ic_Summary :: string
  ic_Severity :: string
  ic_Status :: incident_Status
  ic_UserID :: "uuid option"
  ic_DeviceID :: "uuid option"
  ic_SessionID :: "uuid option"
  ic_PeakRisk :: int
  ic_OpenedAt :: time
  ic_UpdatedAt :: time
  ic_ClosedAt :: "time option"
  ic_UserName :: string
  ic_DeviceName :: string

record Note =
  nt_ID :: uuid
  nt_AuthorName :: string
  nt_Body :: string
  nt_CreatedAt :: time

record note_row =
  nr_ID :: uuid
  nr_IncidentID :: uuid
  nr_AuthorID :: "uuid option"
  nr_Body :: string
  nr_CreatedAt :: time

record incident_db =
  id_incidents :: "Incident list"
  id_events :: "(uuid \<times> uuid \<times> int) list"
  id_notes :: "note_row list"

datatype incident_error = ErrIncidentNotFound | ErrIncidentDB string

definition severity_known :: "string \<Rightarrow> bool" where
  "severity_known s \<longleftrightarrow> s \<in> {''LOW'', ''MEDIUM'', ''ELEVATED'', ''HIGH'', ''CRITICAL''}"

definition incident_key :: "uuid \<Rightarrow> string" where
  "incident_key session = ''session-'' @ take 18 (uuid_String session)"

definition opened_row ::
  "uuid \<Rightarrow> time \<Rightarrow> uuid \<Rightarrow> uuid \<Rightarrow> uuid \<Rightarrow> string \<Rightarrow> int \<Rightarrow> string \<Rightarrow> string \<Rightarrow> Incident" where
  "opened_row ident now session user device severity risk title summary =
     \<lparr>ic_ID = ident, ic_Key = incident_key session, ic_Title = title, ic_Summary = summary,
      ic_Severity = severity, ic_Status = StatusOpen, ic_UserID = Some user, ic_DeviceID = Some device,
      ic_SessionID = Some session, ic_PeakRisk = risk, ic_OpenedAt = now, ic_UpdatedAt = now,
      ic_ClosedAt = None, ic_UserName = [], ic_DeviceName = []\<rparr>"

text \<open>The \<^verbatim>\<open>DO UPDATE\<close> arm; every right-hand side sees the old row.\<close>

definition escalated_row :: "string \<Rightarrow> time \<Rightarrow> string \<Rightarrow> int \<Rightarrow> string \<Rightarrow> Incident \<Rightarrow> Incident" where
  "escalated_row key now severity risk summary i =
     (if ic_Key i = key
      then i\<lparr>ic_PeakRisk := max (ic_PeakRisk i) risk,
             ic_Severity := (if risk > ic_PeakRisk i then severity else ic_Severity i),
             ic_Summary := (if summary \<noteq> [] then summary else ic_Summary i),
             ic_UpdatedAt := now\<rparr>
      else i)"

definition OpenOrEscalate ::
  "uuid \<Rightarrow> time \<Rightarrow> faults \<Rightarrow> uuid \<Rightarrow> uuid \<Rightarrow> uuid \<Rightarrow> string \<Rightarrow> int \<Rightarrow> string \<Rightarrow> string \<Rightarrow> incident_db \<Rightarrow>
   (incident_error + Incident) \<times> incident_db" where
  "OpenOrEscalate ident now fs session user device severity risk title summary db =
     (let key = incident_key session
      in if fault fs ''open incident'' \<or> \<not> severity_known severity \<or> \<not> fits16 risk
         then (Inl (ErrIncidentDB ''open incident''), db)
         else case find (\<lambda>i. ic_Key i = key) (id_incidents db) of
                Some i \<Rightarrow>
                  (Inr (escalated_row key now severity risk summary i),
                   db\<lparr>id_incidents := map (escalated_row key now severity risk summary) (id_incidents db)\<rparr>)
              | None \<Rightarrow>
                  if ident \<in> set (map ic_ID (id_incidents db)) then (Inl (ErrIncidentDB ''open incident''), db)
                  else (let row = opened_row ident now session user device severity risk title summary
                        in (Inr row, db\<lparr>id_incidents := id_incidents db @ [row]\<rparr>)))"

text \<open>
  One statement of the batch: it fails when a foreign key does not exist and does nothing when the
  pair is linked already.
\<close>

fun attach_rows ::
  "(uuid \<Rightarrow> bool) \<Rightarrow> uuid \<Rightarrow> int \<Rightarrow> uuid list \<Rightarrow> (uuid \<times> uuid \<times> int) list \<Rightarrow> (uuid \<times> uuid \<times> int) list option" where
  "attach_rows known incident ordinal [] rows = Some rows"
| "attach_rows known incident ordinal (e # es) rows =
     (if \<not> known e then None
      else attach_rows known incident (ordinal + 1) es
             (if list_ex (\<lambda>(i, e', _). i = incident \<and> e' = e) rows then rows
              else rows @ [(incident, e, ordinal)]))"

definition AttachEvents ::
  "(uuid \<Rightarrow> bool) \<Rightarrow> faults \<Rightarrow> uuid \<Rightarrow> uuid list \<Rightarrow> incident_db \<Rightarrow> incident_error option \<times> incident_db" where
  "AttachEvents known fs incident events db =
     (if events = [] then (None, db)
      else if fault fs ''attach incident event'' \<or> incident \<notin> set (map ic_ID (id_incidents db))
      then (Some (ErrIncidentDB ''attach incident event''), db)
      else case attach_rows known incident 0 events (id_events db) of
             None \<Rightarrow> (Some (ErrIncidentDB ''attach incident event''), db)
           | Some rows \<Rightarrow>
               if fault fs ''close batch'' then (Some (ErrIncidentDB ''close batch''), db)
               else (None, db\<lparr>id_events := rows\<rparr>))"

definition closed_status :: "incident_Status \<Rightarrow> bool" where
  "closed_status st \<longleftrightarrow> st = StatusResolved \<or> st = StatusFalsePositive"

definition with_names :: "(uuid \<Rightarrow> string option) \<Rightarrow> (uuid \<Rightarrow> string option) \<Rightarrow> Incident \<Rightarrow> Incident" where
  "with_names user_name host_name i =
     i\<lparr>ic_UserName := case_option [] (\<lambda>x. x) (Option.bind (ic_UserID i) user_name),
       ic_DeviceName := case_option [] (\<lambda>x. x) (Option.bind (ic_DeviceID i) host_name)\<rparr>"

definition List_incidents ::
  "(uuid \<Rightarrow> string option) \<Rightarrow> (uuid \<Rightarrow> string option) \<Rightarrow> faults \<Rightarrow> bool \<Rightarrow> int \<Rightarrow> incident_db \<Rightarrow>
   incident_error + Incident list" where
  "List_incidents user_name host_name fs openOnly limit db =
     (if fault fs ''list incidents'' then Inl (ErrIncidentDB ''list incidents'')
      else
        (let rows = filter (\<lambda>i. openOnly \<longrightarrow> \<not> closed_status (ic_Status i)) (id_incidents db)
         in Inr (map (with_names user_name host_name)
                   (take (page_limit 500 100 limit) (newest_first ic_OpenedAt rows)))))"

definition incident_ByID ::
  "(uuid \<Rightarrow> string option) \<Rightarrow> (uuid \<Rightarrow> string option) \<Rightarrow> faults \<Rightarrow> uuid \<Rightarrow> incident_db \<Rightarrow> incident_error + Incident" where
  "incident_ByID user_name host_name fs ident db =
     (if fault fs ''load incident'' then Inl (ErrIncidentDB ''load incident'')
      else case find (\<lambda>i. ic_ID i = ident) (id_incidents db) of
             None \<Rightarrow> Inl ErrIncidentNotFound
           | Some i \<Rightarrow> Inr (with_names user_name host_name i))"

definition status_row :: "uuid \<Rightarrow> time \<Rightarrow> incident_Status \<Rightarrow> Incident \<Rightarrow> Incident" where
  "status_row ident now status i =
     (if ic_ID i = ident
      then i\<lparr>ic_Status := status, ic_UpdatedAt := now,
             ic_ClosedAt := (if closed_status status then Some now else None)\<rparr>
      else i)"

definition status_known :: "incident_Status \<Rightarrow> bool" where
  "status_known st \<longleftrightarrow> st \<in> snd ` set knownStatuses"

definition SetStatus ::
  "time \<Rightarrow> faults \<Rightarrow> uuid \<Rightarrow> incident_Status \<Rightarrow> incident_db \<Rightarrow> incident_error option \<times> incident_db" where
  "SetStatus now fs ident status db =
     (if fault fs ''update incident status'' then (Some (ErrIncidentDB ''update incident status''), db)
      else if \<not> list_ex (\<lambda>i. ic_ID i = ident) (id_incidents db) then (Some ErrIncidentNotFound, db)
      else if \<not> status_known status then (Some (ErrIncidentDB ''update incident status''), db)
      else (None, db\<lparr>id_incidents := map (status_row ident now status) (id_incidents db)\<rparr>))"

definition AddNote ::
  "uuid \<Rightarrow> time \<Rightarrow> faults \<Rightarrow> uuid \<Rightarrow> uuid \<Rightarrow> string \<Rightarrow> incident_db \<Rightarrow> incident_error option \<times> incident_db" where
  "AddNote ident now fs incident author body db =
     (if fault fs ''add incident note'' \<or> incident \<notin> set (map ic_ID (id_incidents db)) \<or>
         ident \<in> set (map nr_ID (id_notes db))
      then (Some (ErrIncidentDB ''add incident note''), db)
      else (None, db\<lparr>id_notes := id_notes db @
              [\<lparr>nr_ID = ident, nr_IncidentID = incident, nr_AuthorID = Some author, nr_Body = body,
                nr_CreatedAt = now\<rparr>]\<rparr>))"

definition Notes ::
  "(uuid \<Rightarrow> string option) \<Rightarrow> faults \<Rightarrow> uuid \<Rightarrow> incident_db \<Rightarrow> incident_error + Note list" where
  "Notes user_name fs incident db =
     (if fault fs ''query incident notes'' then Inl (ErrIncidentDB ''query incident notes'')
      else
        Inr (map (\<lambda>n. \<lparr>nt_ID = nr_ID n, nt_AuthorName = case_option [] (\<lambda>x. x) (Option.bind (nr_AuthorID n) user_name),
                       nt_Body = nr_Body n, nt_CreatedAt = nr_CreatedAt n\<rparr>)
               (SliceStable (\<lambda>a b. nr_CreatedAt a < nr_CreatedAt b)
                 (filter (\<lambda>n. nr_IncidentID n = incident) (id_notes db)))))"

definition Counts :: "faults \<Rightarrow> incident_db \<Rightarrow> incident_error + (nat \<times> nat)" where
  "Counts fs db =
     (if fault fs ''count incidents'' then Inl (ErrIncidentDB ''count incidents'')
      else Inr (length (filter (\<lambda>i. \<not> closed_status (ic_Status i)) (id_incidents db)),
                length (filter (\<lambda>i. \<not> closed_status (ic_Status i) \<and> ic_Severity i = ''CRITICAL'') (id_incidents db))))"

subsection \<open>Sequences of operations\<close>

type_synonym escalation = "string \<times> string \<times> int"

inductive incident_run :: "escalation list \<Rightarrow> incident_db \<Rightarrow> bool" where
  start: "incident_run [] \<lparr>id_incidents = [], id_events = [], id_notes = []\<rparr>"
| escalate: "incident_run log db \<Longrightarrow>
    OpenOrEscalate ident now fs session user device severity risk title summary db = (Inr i, db') \<Longrightarrow>
    incident_run (log @ [(incident_key session, severity, risk)]) db'"
| refuse: "incident_run log db \<Longrightarrow>
    OpenOrEscalate ident now fs session user device severity risk title summary db = (Inl e, db') \<Longrightarrow>
    incident_run log db'"
| attach: "incident_run log db \<Longrightarrow> AttachEvents known fs incident events db = (r, db') \<Longrightarrow> incident_run log db'"
| status: "incident_run log db \<Longrightarrow> SetStatus now fs ident st db = (r, db') \<Longrightarrow> incident_run log db'"
| annotate: "incident_run log db \<Longrightarrow> AddNote ident now fs incident author body db = (r, db') \<Longrightarrow> incident_run log db'"

text \<open>
  \<open>peak_at log key severity risk\<close>: among the escalations of a key, \<open>severity\<close> and \<open>risk\<close> come from the
  first one with the highest risk.
\<close>

definition peak_at :: "escalation list \<Rightarrow> string \<Rightarrow> string \<Rightarrow> int \<Rightarrow> bool" where
  "peak_at log key severity risk \<longleftrightarrow>
     (\<exists>xs ys. log = xs @ (key, severity, risk) # ys \<and>
        (\<forall>s r. (key, s, r) \<in> set xs \<longrightarrow> r < risk) \<and> (\<forall>s r. (key, s, r) \<in> set ys \<longrightarrow> r \<le> risk))"

definition incidents_ok :: "escalation list \<Rightarrow> incident_db \<Rightarrow> bool" where
  "incidents_ok log db \<longleftrightarrow>
     distinct (map ic_Key (id_incidents db)) \<and> distinct (map ic_ID (id_incidents db)) \<and>
     ic_Key ` set (id_incidents db) = fst ` set log \<and>
     (\<forall>i \<in> set (id_incidents db). peak_at log (ic_Key i) (ic_Severity i) (ic_PeakRisk i)) \<and>
     (\<forall>i \<in> set (id_incidents db). ic_ClosedAt i \<noteq> None \<longleftrightarrow> closed_status (ic_Status i))"

lemma escalated_row_sel [simp]:
  "ic_ID (escalated_row key now severity risk summary i) = ic_ID i"
  "ic_Key (escalated_row key now severity risk summary i) = ic_Key i"
  "ic_Status (escalated_row key now severity risk summary i) = ic_Status i"
  "ic_ClosedAt (escalated_row key now severity risk summary i) = ic_ClosedAt i"
  "ic_OpenedAt (escalated_row key now severity risk summary i) = ic_OpenedAt i"
  by (simp_all add: escalated_row_def)

lemma status_row_sel [simp]:
  "ic_ID (status_row ident now st i) = ic_ID i" "ic_Key (status_row ident now st i) = ic_Key i"
  "ic_Severity (status_row ident now st i) = ic_Severity i" "ic_PeakRisk (status_row ident now st i) = ic_PeakRisk i"
  by (simp_all add: status_row_def)

lemma opened_row_sel [simp]:
  "ic_ID (opened_row ident now session user device severity risk title summary) = ident"
  "ic_Key (opened_row ident now session user device severity risk title summary) = incident_key session"
  "ic_Severity (opened_row ident now session user device severity risk title summary) = severity"
  "ic_PeakRisk (opened_row ident now session user device severity risk title summary) = risk"
  "ic_Status (opened_row ident now session user device severity risk title summary) = StatusOpen"
  "ic_ClosedAt (opened_row ident now session user device severity risk title summary) = None"
  by (simp_all add: opened_row_def)

lemma rows_sel [simp]:
  "ic_Key \<circ> escalated_row key now severity risk summary = ic_Key"
  "ic_ID \<circ> escalated_row key now severity risk summary = ic_ID"
  "ic_Key \<circ> status_row ident now st = ic_Key" "ic_ID \<circ> status_row ident now st = ic_ID"
  by (simp_all add: fun_eq_iff)

lemma peak_at_other: "peak_at log key s r \<Longrightarrow> k \<noteq> key \<Longrightarrow> peak_at (log @ [(k, s', r')]) key s r"
  unfolding peak_at_def by (elim exE conjE) (rename_tac xs ys, rule_tac x = xs in exI, rule_tac x = "ys @ [(k, s', r')]" in exI, auto)

lemma peak_at_lower: "peak_at log key s r \<Longrightarrow> r' \<le> r \<Longrightarrow> peak_at (log @ [(key, s', r')]) key s r"
  unfolding peak_at_def by (elim exE conjE) (rename_tac xs ys, rule_tac x = xs in exI, rule_tac x = "ys @ [(key, s', r')]" in exI, auto)

lemma peak_at_new: "\<forall>s r. (key, s, r) \<in> set log \<longrightarrow> r < r' \<Longrightarrow> peak_at (log @ [(key, s', r')]) key s' r'"
  unfolding peak_at_def by (rule exI [of _ log], rule exI [of _ "[]"]) auto

lemma peak_at_higher: "peak_at log key s r \<Longrightarrow> r < r' \<Longrightarrow> peak_at (log @ [(key, s', r')]) key s' r'"
  by (rule peak_at_new) (fastforce simp: peak_at_def)

lemma OpenOrEscalate_cases:
  assumes "OpenOrEscalate ident now fs session user device severity risk title summary db = (Inr i, db')"
  obtains (escalated) j where "j \<in> set (id_incidents db)" "ic_Key j = incident_key session"
      "i = escalated_row (incident_key session) now severity risk summary j"
      "db' = db\<lparr>id_incidents := map (escalated_row (incident_key session) now severity risk summary) (id_incidents db)\<rparr>"
  | (opened) "incident_key session \<notin> ic_Key ` set (id_incidents db)" "ident \<notin> ic_ID ` set (id_incidents db)"
      "i = opened_row ident now session user device severity risk title summary"
      "db' = db\<lparr>id_incidents := id_incidents db @ [i]\<rparr>"
proof (cases "find (\<lambda>i. ic_Key i = incident_key session) (id_incidents db)")
  case None
  then have "incident_key session \<notin> ic_Key ` set (id_incidents db)" by (force simp: find_None_iff)
  with None assms show ?thesis
    by (intro opened) (simp_all add: OpenOrEscalate_def Let_def split: if_splits, blast+)
next
  case (Some j)
  with assms show ?thesis
    using find_SomeD [OF Some] by (intro escalated [of j]) (simp_all add: OpenOrEscalate_def Let_def split: if_splits)
qed

lemma incidents_ok_escalate:
  assumes ok: "incidents_ok log db"
    and "OpenOrEscalate ident now fs session user device severity risk title summary db = (Inr i, db')"
  shows "incidents_ok (log @ [(incident_key session, severity, risk)]) db'"
  using assms(2)
proof (cases rule: OpenOrEscalate_cases)
  case (escalated j)
  let ?k = "incident_key session" and ?f = "escalated_row (incident_key session) now severity risk summary"
  have "peak_at (log @ [(?k, severity, risk)]) (ic_Key x) (ic_Severity (?f x)) (ic_PeakRisk (?f x))"
    if "x \<in> set (id_incidents db)" for x
  proof -
    have p: "peak_at log (ic_Key x) (ic_Severity x) (ic_PeakRisk x)" using ok that by (simp add: incidents_ok_def)
    show ?thesis
    proof (cases "ic_Key x = ?k")
      case True
      then show ?thesis using p peak_at_lower [of log ?k] peak_at_higher [of log ?k]
        by (cases "ic_PeakRisk x < risk") (auto simp: escalated_row_def max_def)
    qed (use p peak_at_other in \<open>auto simp: escalated_row_def\<close>)
  qed
  then show ?thesis using ok escalated unfolding incidents_ok_def by (simp add: image_image) (metis image_insert insert_absorb imageI)
next
  case opened
  then have fresh: "incident_key session \<notin> fst ` set log" using ok by (simp add: incidents_ok_def)
  then have "peak_at (log @ [(incident_key session, severity, risk)]) (incident_key session) severity risk"
    by (intro peak_at_new) (force simp: image_iff)
  moreover have "peak_at (log @ [(incident_key session, severity, risk)]) (ic_Key x) (ic_Severity x) (ic_PeakRisk x)"
    if "x \<in> set (id_incidents db)" for x
    using ok opened(1) that by (intro peak_at_other) (force simp: incidents_ok_def)+
  ultimately show ?thesis using ok opened unfolding incidents_ok_def by (auto simp: closed_status_def)
qed

lemma incidents_ok_same: "incidents_ok log db \<Longrightarrow> id_incidents db' = id_incidents db \<Longrightarrow> incidents_ok log db'"
  by (simp add: incidents_ok_def)

lemma incidents_ok_status:
  assumes "incidents_ok log db" "SetStatus now fs ident st db = (r, db')" shows "incidents_ok log db'"
proof (cases "r = None")
  case True
  with assms(2) have "db' = db\<lparr>id_incidents := map (status_row ident now st) (id_incidents db)\<rparr>"
    by (auto simp: SetStatus_def split: if_splits)
  with assms(1) show ?thesis by (simp add: incidents_ok_def image_image) (simp add: status_row_def)
qed (use assms in \<open>auto simp: SetStatus_def split: if_splits\<close>)

lemma incident_run_ok: "incident_run log db \<Longrightarrow> incidents_ok log db"
proof (induction rule: incident_run.induct)
  case start
  then show ?case by (simp add: incidents_ok_def)
next
  case escalate
  then show ?case by (blast intro: incidents_ok_escalate)
next
  case refuse
  then show ?case by (auto simp: OpenOrEscalate_def Let_def split: if_splits option.splits)
next
  case attach
  then show ?case
    by (elim incidents_ok_same) (auto simp: AttachEvents_def split: if_splits option.splits)
next
  case status
  then show ?case by (blast intro: incidents_ok_status)
next
  case annotate
  then show ?case by (elim incidents_ok_same) (auto simp: AddNote_def split: if_splits)
qed

subsection \<open>Keys\<close>

text \<open>The key keeps the first sixteen of the 32 hexadecimal digits.\<close>

lemma take_key: "take 18 (uuid_String u) = take 8 (uuid_hex u) @ ''-'' @ take 4 (drop 8 (uuid_hex u)) @ ''-'' @ take 4 (drop 12 (uuid_hex u))"
  by (simp add: uuid_String_def Let_def)

lemma take_16_parts: "take 16 h = take 8 h @ take 4 (drop 8 h) @ take 4 (drop 12 h)"
  using take_add [of 8 4 h] take_add [of 12 4 h] by simp

lemma incident_key_eq_iff: "incident_key u = incident_key v \<longleftrightarrow> unat u div 2 ^ 64 = unat v div 2 ^ 64"
proof -
  let ?n = "\<lambda>w :: uuid. unat w div 2 ^ 64"
  have "incident_key u = incident_key v \<longleftrightarrow> take 16 (uuid_hex u) = take 16 (uuid_hex v)"
    unfolding incident_key_def take_key take_16_parts by (simp add: append_eq_append_conv)
  also have "\<dots> \<longleftrightarrow> (\<forall>i < 16. hex_digit (uuid_nibble u i) = hex_digit (uuid_nibble v i))"
    by (simp add: uuid_hex_def take_map list_eq_iff_nth_eq)
  also have "\<dots> \<longleftrightarrow> (\<forall>i < 16. uuid_nibble u i = uuid_nibble v i)"
    using hex_digit_inj by (metis (no_types, lifting) uuid_nibble_def mod_less_divisor zero_less_numeral)
  also have "\<dots> \<longleftrightarrow> (\<forall>i < 16. ?n u div 16 ^ i mod 16 = ?n v div 16 ^ i mod 16)"
  proof -
    have nib: "uuid_nibble w i = ?n w div 16 ^ (15 - i) mod 16" if "i < 16" for w and i :: nat
    proof -
      have "(2 :: nat) ^ 64 * 16 ^ (15 - i) = 16 ^ (31 - i)"
        using that power_add [of "16 :: nat" 16 "15 - i"] by (simp add: add_diff_assoc)
      then show ?thesis unfolding uuid_nibble_def by (metis div_mult2_eq)
    qed
    have "(\<forall>i < (16 :: nat). P (15 - i)) \<longleftrightarrow> (\<forall>i < 16. P i)" for P
    proof (intro iffI allI impI)
      fix i :: nat assume all: "\<forall>i < (16 :: nat). P (15 - i)" and i: "i < 16"
      from all have "P (15 - (15 - i))" by (rule allE [of _ "15 - i"]) (erule mp, simp)
      with i show "P i" by simp
    qed simp
    then show ?thesis using nib by simp
  qed
  also have "\<dots> \<longleftrightarrow> ?n u = ?n v"
  proof
    assume "\<forall>i < 16. ?n u div 16 ^ i mod 16 = ?n v div 16 ^ i mod 16"
    then have "?n u mod 16 ^ 16 = ?n v mod 16 ^ 16" by (rule hex_digits_determine)
    moreover have "?n w < 16 ^ 16" for w :: uuid
      using unsigned_less [of w, where ?'a = nat] by (intro less_mult_imp_div_less) simp
    ultimately show "?n u = ?n v" by simp
  qed simp
  finally show ?thesis .
qed

lemma filter_map_fixed:
  "\<forall>y \<in> set xs. P y \<longrightarrow> f y = y \<Longrightarrow> \<forall>y \<in> set xs. P (f y) \<longleftrightarrow> P y \<Longrightarrow>
   filter (\<lambda>y. P y \<and> Q y) (map f xs) = filter (\<lambda>y. P y \<and> Q y) xs"
  by (induction xs) auto

subsection \<open>Properties\<close>

definition sample_incidents :: incident_db where
  "sample_incidents = snd (OpenOrEscalate 9 0 [] 1 2 3 ''HIGH'' 70 ''t'' [] \<lparr>id_incidents = [], id_events = [], id_notes = []\<rparr>)"

lemma sample_incidents_run: "incident_run ([] @ [(incident_key 1, ''HIGH'', 70)]) sample_incidents"
  by (rule escalate [OF start, of 9 0 "[]" 1 2 3 "''HIGH''" 70 "''t''" "[]" "opened_row 9 0 1 2 3 ''HIGH'' 70 ''t'' []"])
    (simp add: sample_incidents_def OpenOrEscalate_def Let_def severity_known_def fits16_def)

text \<open>
  C32: one incident per session key, at its worst.  Whatever sequence of operations led to the tables,
  there is exactly one incident for every key that was ever escalated, it carries the highest risk
  reported under that key with the severity of the first report that reached it, and it has a closing
  time exactly while its status is resolved or false positive.  Two sessions share a key exactly if
  their identifiers agree in the upper 64 bits.
\<close>

theorem incident_per_key:
  assumes "incident_run log db"
  shows "distinct (map ic_Key (id_incidents db)) \<and> ic_Key ` set (id_incidents db) = fst ` set log \<and>
    (\<forall>i \<in> set (id_incidents db). peak_at log (ic_Key i) (ic_Severity i) (ic_PeakRisk i) \<and>
       (ic_ClosedAt i \<noteq> None \<longleftrightarrow> closed_status (ic_Status i))) \<and>
    (incident_key u = incident_key v \<longleftrightarrow> unat u div 2 ^ 64 = unat v div 2 ^ 64)"
  using incident_run_ok [OF assms] incident_key_eq_iff unfolding incidents_ok_def by blast

theorem incident_per_key_witness:
  "distinct (map ic_Key (id_incidents sample_incidents)) \<and>
   ic_Key ` set (id_incidents sample_incidents) = {incident_key 1}"
  using incident_per_key [OF sample_incidents_run] by simp

text \<open>
  An escalation does not reopen a closed incident.  When the incident of a session was resolved or
  marked a false positive, a further escalation of that session, however severe, opens no new
  incident and leaves the status as it is, so the list of open incidents and both counts of the
  overview stay as they were.
\<close>

theorem escalation_does_not_reopen:
  assumes "incident_run log db" "i \<in> set (id_incidents db)" "ic_Key i = incident_key session" "closed_status (ic_Status i)"
    and "OpenOrEscalate ident now [] session user device severity risk title summary db = (Inr j, db')"
  shows "closed_status (ic_Status j) \<and> length (id_incidents db') = length (id_incidents db) \<and>
    List_incidents un hn [] True limit db' = List_incidents un hn [] True limit db \<and> Counts [] db' = Counts [] db"
  using assms(5)
proof (cases rule: OpenOrEscalate_cases)
  case opened
  then show ?thesis using assms(2,3) by (metis imageI)
next
  case (escalated x)
  let ?f = "escalated_row (incident_key session) now severity risk summary"
  have inj: "distinct (map ic_Key (id_incidents db))" using incident_run_ok [OF assms(1)] by (simp add: incidents_ok_def)
  then have x: "x = i" using escalated(1,2) assms(2,3) by (metis distinct_map inj_onD)
  have closed: "?f y = y" if "y \<in> set (id_incidents db)" "\<not> closed_status (ic_Status y)" for y
  proof -
    have "ic_Key y \<noteq> incident_key session"
      using that inj assms(2-4) by (metis distinct_map inj_onD)
    then show ?thesis by (simp add: escalated_row_def)
  qed
  have open_rows: "filter (\<lambda>y. \<not> closed_status (ic_Status y) \<and> Q y) (map ?f (id_incidents db)) =
      filter (\<lambda>y. \<not> closed_status (ic_Status y) \<and> Q y) (id_incidents db)" for Q
    using closed by (intro filter_map_fixed) auto
  show ?thesis
    using x escalated assms(4) open_rows [of "\<lambda>y. True"] open_rows [of "\<lambda>y. ic_Severity y = ''CRITICAL''"]
    by (simp add: List_incidents_def Counts_def)
qed

theorem escalation_does_not_reopen_witness:
  "\<exists>i j db db'. i \<in> set (id_incidents db) \<and> closed_status (ic_Status i) \<and>
     OpenOrEscalate 8 5 [] 1 2 3 ''CRITICAL'' 99 ''t'' ''again'' db = (Inr j, db') \<and> ic_PeakRisk j = 99 \<and>
     closed_status (ic_Status j) \<and> Counts [] db' = Counts [] db"
proof -
  define db where "db = snd (SetStatus 3 [] 9 StatusResolved sample_incidents)"
  define i where "i = status_row 9 3 StatusResolved (opened_row 9 0 1 2 3 ''HIGH'' 70 ''t'' [])"
  have rows: "id_incidents sample_incidents = [opened_row 9 0 1 2 3 ''HIGH'' 70 ''t'' []]"
    by (simp add: sample_incidents_def OpenOrEscalate_def Let_def severity_known_def fits16_def)
  have set: "SetStatus 3 [] 9 StatusResolved sample_incidents = (None, db)" and db: "id_incidents db = [i]"
    unfolding db_def i_def by (simp_all add: SetStatus_def rows status_known_def knownStatuses_def)
  have i: "ic_Key i = incident_key 1" "closed_status (ic_Status i)" "ic_PeakRisk i = 70"
    unfolding i_def by (simp_all add: status_row_def closed_status_def)
  obtain j db' where o: "OpenOrEscalate 8 5 [] 1 2 3 ''CRITICAL'' 99 ''t'' ''again'' db = (Inr j, db')" "ic_PeakRisk j = 99"
    using db i by (simp add: OpenOrEscalate_def Let_def severity_known_def fits16_def escalated_row_def)
  have "incident_run ([] @ [(incident_key 1, ''HIGH'', 70)]) db"
    using sample_incidents_run set by (rule incident_run.status)
  from escalation_does_not_reopen [OF this _ i(1,2) o(1)] db
  have "closed_status (ic_Status j)" "Counts [] db' = Counts [] db" by simp_all
  moreover have "i \<in> set (id_incidents db)" using db by simp
  ultimately show ?thesis using i(2) o by blast
qed

end
