(* ===== verification/RiskStore.thy ===== *)
theory RiskStore
  imports Policy Session Incident
begin

section \<open>RiskStore: assessments with their explanation\<close>

text \<open>
  \<^verbatim>\<open>internal/risk/store.go\<close>.  Recording an assessment writes the score, its factors and the session's
  current risk in one transaction.  The tables of scores and of factors are lists; the dimension totals
  are stored as they are (a JSON object with integer values).  PostgreSQL orders codes by the
  collation of the database, which is the argument \<open>collate\<close>.
\<close>

record risk_score_row =
  rr_ID :: uuid
  rr_SessionID :: uuid
  rr_UserID :: uuid
  rr_DeviceID :: uuid
  rr_ComputedAt :: time
  rr_Score :: int
  rr_Level :: Level
  rr_Action :: Action
  rr_Dimensions :: "Dimension \<rightharpoonup> int"
  rr_ModelVersion :: string
  rr_TriggerEvent :: string

record risk_db =
  rd_scores :: "risk_score_row list"
  rd_factors :: "(uuid \<times> Factor) list"

datatype risk_store_error = ErrNoAssessment | ErrRiskDB string

definition level_known :: "Level \<Rightarrow> bool" where
  "level_known l \<longleftrightarrow> l \<in> {LevelLow, LevelMedium, LevelElevated, LevelHigh, LevelCritical}"

definition score_row :: "uuid \<Rightarrow> uuid \<Rightarrow> uuid \<Rightarrow> Assessment \<Rightarrow> risk_score_row" where
  "score_row ident user device a =
     \<lparr>rr_ID = ident, rr_SessionID = ra_SessionID a, rr_UserID = user, rr_DeviceID = device,
      rr_ComputedAt = time_Truncate_us (ra_ComputedAt a), rr_Score = ra_Score a, rr_Level = ra_Level a,
      rr_Action = ra_Action a, rr_Dimensions = ra_Dimensions a, rr_ModelVersion = ra_ModelVersion a,
      rr_TriggerEvent = ra_TriggerEvent a\<rparr>"

definition risk_update :: "time \<Rightarrow> Assessment \<Rightarrow> Session \<Rightarrow> Session" where
  "risk_update now a s =
     (if s_ID s = ra_SessionID a
      then s\<lparr>s_CurrentRisk := Some (ra_Score a), s_CurrentLevel := Level_string (ra_Level a), s_LastSeenAt := now\<rparr>
      else s)"

text \<open>\<open>now\<close> is the database clock; the foreign key of a score is the session it belongs to.\<close>

definition risk_Record ::
  "uuid \<Rightarrow> time \<Rightarrow> faults \<Rightarrow> uuid \<Rightarrow> uuid \<Rightarrow> Assessment \<Rightarrow> risk_db \<Rightarrow> session_db \<Rightarrow>
   (risk_store_error + uuid) \<times> risk_db \<times> session_db" where
  "risk_Record ident now fs user device a db sdb =
     (if fault fs ''begin risk transaction'' then (Inl (ErrRiskDB ''begin risk transaction''), db, sdb)
      else if fault fs ''encode risk dimensions'' then (Inl (ErrRiskDB ''encode risk dimensions''), db, sdb)
      else if fault fs ''insert risk score'' \<or> ident \<in> set (map rr_ID (rd_scores db)) \<or>
              ra_SessionID a \<notin> set (map s_ID (sd_sessions sdb)) \<or>
              \<not> (0 \<le> ra_Score a \<and> ra_Score a \<le> 100) \<or> \<not> level_known (ra_Level a)
      then (Inl (ErrRiskDB ''insert risk score''), db, sdb)
      else if fault fs ''insert risk factor'' \<or> \<not> list_all (\<lambda>f. fits16 (rf_Contribution f)) (ra_Factors a)
      then (Inl (ErrRiskDB ''insert risk factor''), db, sdb)
      else if fault fs ''close risk factor batch'' then (Inl (ErrRiskDB ''close risk factor batch''), db, sdb)
      else if fault fs ''update session risk'' then (Inl (ErrRiskDB ''update session risk''), db, sdb)
      else if fault fs ''commit risk'' then (Inl (ErrRiskDB ''commit risk''), db, sdb)
      else (Inr ident,
            \<lparr>rd_scores = rd_scores db @ [score_row ident user device a],
             rd_factors = rd_factors db @ map (Pair ident) (ra_Factors a)\<rparr>,
            sdb\<lparr>sd_sessions := map (risk_update now a) (sd_sessions sdb)\<rparr>))"

definition scanAssessment :: "risk_score_row \<Rightarrow> Assessment" where
  "scanAssessment r =
     \<lparr>ra_SessionID = rr_SessionID r, ra_Score = rr_Score r, ra_Level = rr_Level r, ra_Action = rr_Action r,
      ra_Factors = [], ra_Dimensions = rr_Dimensions r, ra_ComputedAt = rr_ComputedAt r,
      ra_ModelVersion = rr_ModelVersion r, ra_TriggerEvent = rr_TriggerEvent r\<rparr>"

definition stored_factor_less :: "(string \<Rightarrow> string \<Rightarrow> bool) \<Rightarrow> Factor \<Rightarrow> Factor \<Rightarrow> bool" where
  "stored_factor_less collate f g \<longleftrightarrow>
     rf_Contribution g < rf_Contribution f \<or>
     rf_Contribution f = rf_Contribution g \<and> collate (rf_Code f) (rf_Code g)"

definition stored_factors :: "(string \<Rightarrow> string \<Rightarrow> bool) \<Rightarrow> faults \<Rightarrow> uuid \<Rightarrow> risk_db \<Rightarrow> risk_store_error + Factor list" where
  "stored_factors collate fs ident db =
     (if fault fs ''query risk factors'' then Inl (ErrRiskDB ''query risk factors'')
      else if fault fs ''scan risk factor'' then Inl (ErrRiskDB ''scan risk factor'')
      else Inr (SliceStable (stored_factor_less collate)
                  (map snd (filter (\<lambda>(i, f). i = ident) (rd_factors db)))))"

definition risk_Latest ::
  "(string \<Rightarrow> string \<Rightarrow> bool) \<Rightarrow> faults \<Rightarrow> uuid \<Rightarrow> risk_db \<Rightarrow> risk_store_error + Assessment" where
  "risk_Latest collate fs session db =
     (if fault fs ''load risk score'' then Inl (ErrRiskDB ''load risk score'')
      else case newest_first rr_ComputedAt (filter (\<lambda>r. rr_SessionID r = session) (rd_scores db)) of
             [] \<Rightarrow> Inl ErrNoAssessment
           | r # _ \<Rightarrow>
               (case stored_factors collate fs (rr_ID r) db of
                  Inl e \<Rightarrow> Inl e
                | Inr factors \<Rightarrow> Inr ((scanAssessment r)\<lparr>ra_Factors := factors\<rparr>)))"

definition risk_History :: "faults \<Rightarrow> uuid \<Rightarrow> int \<Rightarrow> risk_db \<Rightarrow> risk_store_error + Assessment list" where
  "risk_History fs session limit db =
     (if fault fs ''query risk history'' then Inl (ErrRiskDB ''query risk history'')
      else if fault fs ''scan risk history'' then Inl (ErrRiskDB ''scan risk history'')
      else Inr (map scanAssessment
        (take (page_limit 500 100 limit)
          (SliceStable (\<lambda>a b. rr_ComputedAt a < rr_ComputedAt b)
            (filter (\<lambda>r. rr_SessionID r = session) (rd_scores db))))))"

definition CountRecentIncidents :: "faults \<Rightarrow> uuid \<Rightarrow> time \<Rightarrow> incident_db \<Rightarrow> risk_store_error + nat" where
  "CountRecentIncidents fs user since db =
     (if fault fs ''count recent incidents'' then Inl (ErrRiskDB ''count recent incidents'')
      else Inr (length (filter (\<lambda>i. ic_UserID i = Some user \<and> ic_OpenedAt i \<ge> since) (id_incidents db))))"

definition CountRecentDenials :: "faults \<Rightarrow> uuid \<Rightarrow> time \<Rightarrow> policy_decision_row list \<Rightarrow> risk_store_error + nat" where
  "CountRecentDenials fs user since rows =
     (if fault fs ''count recent denials'' then Inl (ErrRiskDB ''count recent denials'')
      else Inr (length (filter (\<lambda>r. pd_UserID r = user \<and> pd_EvaluatedAt r \<ge> since \<and>
                  pd_Decision r \<in> {DecisionDeny, DecisionRestrict, DecisionIsolate}) rows)))"

subsection \<open>Lemmas\<close>

lemma risk_update_sel [simp]:
  "s_ID (risk_update now a s) = s_ID s" "s_Status (risk_update now a s) = s_Status s"
  "s_UserID (risk_update now a s) = s_UserID s" "s_DeviceID (risk_update now a s) = s_DeviceID s"
  "s_Attestation (risk_update now a s) = s_Attestation s" "s_EndedAt (risk_update now a s) = s_EndedAt s"
  by (simp_all add: risk_update_def)

lemma score_row_sel [simp]:
  "rr_ID (score_row ident user device a) = ident" "rr_SessionID (score_row ident user device a) = ra_SessionID a"
  "rr_Score (score_row ident user device a) = ra_Score a" "rr_Level (score_row ident user device a) = ra_Level a"
  "rr_ComputedAt (score_row ident user device a) = time_Truncate_us (ra_ComputedAt a)"
  by (simp_all add: score_row_def)

lemma risk_Record_cases:
  assumes "risk_Record ident now fs user device a db sdb = (res, db', sdb')"
  obtains (failed) e where "res = Inl e" "db' = db" "sdb' = sdb"
  | (stored) "res = Inr ident" "ident \<notin> rr_ID ` set (rd_scores db)" "ra_SessionID a \<in> s_ID ` set (sd_sessions sdb)"
      "0 \<le> ra_Score a" "ra_Score a \<le> 100" "level_known (ra_Level a)"
      "db' = \<lparr>rd_scores = rd_scores db @ [score_row ident user device a],
              rd_factors = rd_factors db @ map (Pair ident) (ra_Factors a)\<rparr>"
      "sdb' = sdb\<lparr>sd_sessions := map (risk_update now a) (sd_sessions sdb)\<rparr>"
proof -
  let ?bad = "fault fs ''begin risk transaction'' \<or> fault fs ''encode risk dimensions'' \<or>
    (fault fs ''insert risk score'' \<or> ident \<in> set (map rr_ID (rd_scores db)) \<or>
      ra_SessionID a \<notin> set (map s_ID (sd_sessions sdb)) \<or>
      \<not> (0 \<le> ra_Score a \<and> ra_Score a \<le> 100) \<or> \<not> level_known (ra_Level a)) \<or>
    (fault fs ''insert risk factor'' \<or> \<not> list_all (\<lambda>f. fits16 (rf_Contribution f)) (ra_Factors a)) \<or>
    fault fs ''close risk factor batch'' \<or> fault fs ''update session risk'' \<or> fault fs ''commit risk''"
  show thesis
  proof (cases ?bad)
    case True
    then have "\<exists>e. risk_Record ident now fs user device a db sdb = (Inl e, db, sdb)"
      unfolding risk_Record_def by (simp only: if_True if_False split: if_split) blast
    then show thesis using failed assms by auto
  next
    case False
    then have "risk_Record ident now fs user device a db sdb =
        (Inr ident,
         \<lparr>rd_scores = rd_scores db @ [score_row ident user device a],
          rd_factors = rd_factors db @ map (Pair ident) (ra_Factors a)\<rparr>,
         sdb\<lparr>sd_sessions := map (risk_update now a) (sd_sessions sdb)\<rparr>)"
      unfolding risk_Record_def by (simp only: de_Morgan_disj if_False not_not simp_thms)
    then show thesis using stored assms False by auto
  qed
qed

text \<open>
  A table in which every factor belongs to a stored score; a session is explained when some score
  of its own carries its current risk and level and has factors that sum to it.
\<close>

definition factors_of_score :: "uuid \<Rightarrow> risk_db \<Rightarrow> Factor list" where
  "factors_of_score ident db = map snd (filter (\<lambda>(i, f). i = ident) (rd_factors db))"

definition risk_db_ok :: "risk_db \<Rightarrow> bool" where
  "risk_db_ok db \<longleftrightarrow> distinct (map rr_ID (rd_scores db)) \<and> fst ` set (rd_factors db) \<subseteq> rr_ID ` set (rd_scores db)"

definition explained :: "risk_db \<Rightarrow> Session \<Rightarrow> bool" where
  "explained db s \<longleftrightarrow>
     (case s_CurrentRisk s of
        None \<Rightarrow> True
      | Some r \<Rightarrow> \<exists>row \<in> set (rd_scores db). rr_SessionID row = s_ID s \<and> rr_Score row = r \<and>
          Level_string (rr_Level row) = s_CurrentLevel s \<and> contributions (factors_of_score (rr_ID row) db) = r)"

lemma factors_of_score_append:
  assumes "risk_db_ok db" "ident \<notin> rr_ID ` set (rd_scores db)"
  shows "factors_of_score k \<lparr>rd_scores = ss, rd_factors = rd_factors db @ map (Pair ident) fs\<rparr> =
    (if k = ident then fs else factors_of_score k db)"
proof -
  have "filter (\<lambda>(i, f). i = ident) (rd_factors db) = []"
    using assms by (force simp: risk_db_ok_def filter_empty_conv)
  moreover have "map snd (filter (\<lambda>(i, f). i = ident) (map (Pair ident) fs)) = fs" by (induction fs) auto
  moreover have "k \<noteq> ident \<Longrightarrow> filter (\<lambda>(i, f). i = k) (map (Pair ident) fs) = []" by (induction fs) auto
  ultimately show ?thesis by (simp add: factors_of_score_def)
qed

lemma explained_Record:
  assumes "risk_Record ident now fs user device a db sdb = (res, db', sdb')" "risk_db_ok db"
    and "\<forall>s \<in> set (sd_sessions sdb). explained db s" "contributions (ra_Factors a) = ra_Score a"
  shows "risk_db_ok db' \<and> (\<forall>s \<in> set (sd_sessions sdb'). explained db' s)"
  using assms(1)
proof (cases rule: risk_Record_cases)
  case (failed e)
  then show ?thesis using assms by simp
next
  case stored
  note fs = factors_of_score_append [OF assms(2) stored(2), of _ "rd_scores db'" "ra_Factors a"]
  have "risk_db_ok db'" using assms(2) stored(2,7) by (auto simp: risk_db_ok_def)
  moreover have "explained db' (risk_update now a s)" if s: "s \<in> set (sd_sessions sdb)" for s
  proof (cases "s_ID s = ra_SessionID a")
    case True
    then show ?thesis
      using stored(7) fs [of ident] assms(4) by (auto simp: explained_def risk_update_def)
  next
    case False
    then have same: "risk_update now a s = s" by (simp add: risk_update_def)
    have "rr_ID row \<noteq> ident" if "row \<in> set (rd_scores db)" for row using stored(2) that by auto
    with assms(3) s have "explained db' s"
      using stored(7) fs unfolding explained_def by (auto split: option.splits)
    then show ?thesis by (simp only: same)
  qed
  ultimately show ?thesis using stored(8) by auto
qed

lemma stored_order: "slice_order collate \<Longrightarrow> slice_order (stored_factor_less collate)"
  unfolding slice_order_def stored_factor_less_def
  by (elim conjE, intro conjI allI impI; smt (verit, best) linorder_less_linear order_less_trans)

lemma stored_factors_score:
  "stored_factors collate [] ident db = Inr (SliceStable (stored_factor_less collate) (factors_of_score ident db))"
  by (simp add: stored_factors_def factors_of_score_def)

lemma newest_first_latest:
  assumes "row \<in> set rows" "\<forall>r \<in> set rows. r = row \<or> stamp r < stamp row"
  shows "\<exists>rest. newest_first stamp rows = row # rest"
proof (cases "newest_first stamp rows")
  case Nil
  then show ?thesis using assms(1) by simp
next
  case (Cons r rest)
  then have "r \<in> set rows" "stamp row \<le> stamp r" using newest_first_Cons [OF Cons] assms(1) by auto
  then show ?thesis using assms(2) Cons by force
qed

lemma scan_score_row:
  "(scanAssessment (score_row ident user device a))\<lparr>ra_Factors := fs\<rparr> =
   a\<lparr>ra_Factors := fs, ra_ComputedAt := time_Truncate_us (ra_ComputedAt a)\<rparr>"
  by (simp add: scanAssessment_def score_row_def)

lemma latest_recorded:
  assumes "risk_db_ok db" "ident \<notin> rr_ID ` set (rd_scores db)"
    and "\<forall>r \<in> set (rd_scores db). rr_SessionID r = ra_SessionID a \<longrightarrow> rr_ComputedAt r < time_Truncate_us (ra_ComputedAt a)"
    and "db' = \<lparr>rd_scores = rd_scores db @ [score_row ident user device a],
                rd_factors = rd_factors db @ map (Pair ident) (ra_Factors a)\<rparr>"
  shows "risk_Latest collate [] (ra_SessionID a) db' =
    Inr (a\<lparr>ra_Factors := SliceStable (stored_factor_less collate) (ra_Factors a),
           ra_ComputedAt := time_Truncate_us (ra_ComputedAt a)\<rparr>)"
proof -
  let ?row = "score_row ident user device a"
  obtain rest where
    "newest_first rr_ComputedAt (filter (\<lambda>r. rr_SessionID r = ra_SessionID a) (rd_scores db')) = ?row # rest"
    using newest_first_latest [of ?row "filter (\<lambda>r. rr_SessionID r = ra_SessionID a) (rd_scores db')" rr_ComputedAt]
      assms(3,4) by auto
  then show ?thesis
    using factors_of_score_append [OF assms(1,2), of ident "rd_scores db'" "ra_Factors a"] assms(4)
    by (simp add: risk_Latest_def stored_factors_score scan_score_row)
qed

lemma latest_other:
  assumes "risk_db_ok db" "ident \<notin> rr_ID ` set (rd_scores db)" "other \<noteq> ra_SessionID a"
    and "db' = \<lparr>rd_scores = rd_scores db @ [score_row ident user device a],
                rd_factors = rd_factors db @ map (Pair ident) (ra_Factors a)\<rparr>"
  shows "risk_Latest collate [] other db' = risk_Latest collate [] other db"
proof (cases "newest_first rr_ComputedAt (filter (\<lambda>r. rr_SessionID r = other) (rd_scores db))")
  case Nil
  then show ?thesis using assms(3,4) by (simp add: risk_Latest_def newest_first_def)
next
  case (Cons r rest)
  then have "rr_ID r \<noteq> ident" using newest_first_Cons(1) [OF Cons] assms(2) by auto
  then show ?thesis
    using Cons factors_of_score_append [OF assms(1,2), of "rr_ID r" "rd_scores db'" "ra_Factors a"] assms(3,4)
    by (simp add: risk_Latest_def stored_factors_score)
qed

lemma risk_update_others:
  "filter (\<lambda>s. s_ID s \<noteq> ra_SessionID a) (map (risk_update now a) ss) = filter (\<lambda>s. s_ID s \<noteq> ra_SessionID a) ss"
  by (induction ss) (auto simp: risk_update_def)

lemma stored_factors_descending:
  assumes "slice_order collate"
  shows "sorted_wrt (\<lambda>f g. rf_Contribution g \<le> rf_Contribution f) (SliceStable (stored_factor_less collate) fs)"
  using slice_order.SliceStable_sorted [OF stored_order [OF assms], of fs]
  by (rule sorted_wrt_mono_rel [rotated]) (auto simp: stored_factor_less_def)

subsection \<open>Properties\<close>

text \<open>
  C31: a recorded score is the one that is shown, with its reasons.  When recording succeeds and the
  session has no later assessment, the latest assessment of the session is the recorded one, with the
  same factors, highest contribution first; the session shows its score and level.  When
  recording fails, nothing changes; in either case the other sessions and their scores are untouched.
\<close>

theorem record_then_latest:
  assumes "risk_Record ident now fs user device a db sdb = (res, db', sdb')" "risk_db_ok db" "slice_order collate"
    and "\<forall>r \<in> set (rd_scores db). rr_SessionID r = ra_SessionID a \<longrightarrow> rr_ComputedAt r < time_Truncate_us (ra_ComputedAt a)"
  shows "(case res of
      Inl _ \<Rightarrow> db' = db \<and> sdb' = sdb
    | Inr _ \<Rightarrow>
        (\<exists>factors. risk_Latest collate [] (ra_SessionID a) db' =
            Inr (a\<lparr>ra_Factors := factors, ra_ComputedAt := time_Truncate_us (ra_ComputedAt a)\<rparr>) \<and>
          mset factors = mset (ra_Factors a) \<and> sorted_wrt (\<lambda>f g. rf_Contribution g \<le> rf_Contribution f) factors) \<and>
        (\<forall>s \<in> set (sd_sessions sdb'). s_ID s = ra_SessionID a \<longrightarrow>
           s_CurrentRisk s = Some (ra_Score a) \<and> s_CurrentLevel s = Level_string (ra_Level a))) \<and>
    filter (\<lambda>s. s_ID s \<noteq> ra_SessionID a) (sd_sessions sdb') = filter (\<lambda>s. s_ID s \<noteq> ra_SessionID a) (sd_sessions sdb) \<and>
    (other \<noteq> ra_SessionID a \<longrightarrow> risk_Latest collate [] other db' = risk_Latest collate [] other db)"
  using assms(1)
proof (cases rule: risk_Record_cases)
  case (failed e)
  then show ?thesis by simp
next
  case stored
  show ?thesis
    using latest_recorded [OF assms(2) stored(2) assms(4) stored(7), of collate]
      latest_other [OF assms(2) stored(2) _ stored(7), of other collate]
      stored_factors_descending [OF assms(3), of "ra_Factors a"] risk_update_others [of a now "sd_sessions sdb"]
      stored(1,8)
    by (auto simp: risk_update_def)
qed

definition recorded_assessment :: Assessment where
  "recorded_assessment =
     \<lparr>ra_SessionID = 7, ra_Score = 30, ra_Level = LevelMedium, ra_Action = ActionAllowMonitor,
      ra_Factors = [\<lparr>rf_Code = ''LOW_DEVICE_TRUST'', rf_Label = [], rf_Dimension = DimDevice,
                     rf_Contribution = 10, rf_Detail = []\<rparr>,
                    \<lparr>rf_Code = ''NEW_DEVICE'', rf_Label = [], rf_Dimension = DimDevice,
                     rf_Contribution = 20, rf_Detail = []\<rparr>],
      ra_Dimensions = [DimDevice \<mapsto> 30], ra_ComputedAt = 5000, ra_ModelVersion = ''v'', ra_TriggerEvent = ''login''\<rparr>"

definition sample_session :: "AttestationMethod \<Rightarrow> Session" where
  "sample_session method =
     \<lparr>s_ID = 7, s_UserID = 2, s_DeviceID = 3, s_Status = StatusActive, s_AuthMethod = ''oidc'', s_Attestation = method,
      s_SourceIP = ''10.0.0.1'', s_CurrentRisk = None, s_CurrentLevel = [], s_StartedAt = 0, s_LastSeenAt = 0,
      s_EndedAt = None, s_UserDisplayName = [], s_UserEmail = [], s_DeviceHostname = [], s_DeviceUID = []\<rparr>"

lemma string_slice_order: "slice_order ((<) :: string \<Rightarrow> string \<Rightarrow> bool)"
  using slice_order_key [of "\<lambda>x :: string. x"] by simp

theorem record_then_latest_witness:
  "\<exists>factors. risk_Latest (<) [] 7 (fst (snd (risk_Record 9 6000 [] 2 3 recorded_assessment \<lparr>rd_scores = [], rd_factors = []\<rparr>
       \<lparr>sd_sessions = [sample_session AttestationDeviceSignature], sd_nonces = []\<rparr>))) =
     Inr (recorded_assessment\<lparr>ra_Factors := factors\<rparr>) \<and> mset factors = mset (ra_Factors recorded_assessment)"
proof -
  let ?db = "\<lparr>rd_scores = [], rd_factors = []\<rparr>"
  let ?sdb = "\<lparr>sd_sessions = [sample_session AttestationDeviceSignature], sd_nonces = []\<rparr>"
  obtain db' sdb' where r: "risk_Record 9 6000 [] 2 3 recorded_assessment ?db ?sdb = (Inr 9, db', sdb')"
    by (simp add: risk_Record_def recorded_assessment_def sample_session_def level_known_def fits16_def)
  have "time_Truncate_us (ra_ComputedAt recorded_assessment) = ra_ComputedAt recorded_assessment"
    by (simp add: recorded_assessment_def time_Truncate_us_def microsecond_def)
  moreover have "risk_db_ok ?db" by (simp add: risk_db_ok_def)
  moreover have "ra_SessionID recorded_assessment = 7" by (simp add: recorded_assessment_def)
  ultimately show ?thesis using record_then_latest [OF r _ string_slice_order] r by auto
qed

end
