(* ===== verification/Trust.thy ===== *)
theory Trust
  imports RiskStore Behaviour Posture
begin

section \<open>Trust: the loop from telemetry to enforcement\<close>

text \<open>
  \<^verbatim>\<open>internal/trust/evaluator.go\<close> and \<^verbatim>\<open>stats.go\<close>.  One evaluation loads a session, gathers what the other
  components know about it, scores it, records the score, decides by the active policies, opens an
  incident where a policy asks for one, records the decision, applies it to the session and writes
  two events.  The state is the tables of all the stores; each store is called through the
  operations of its own theory.

  \<open>trust_env\<close> holds what an evaluation takes from outside the tables: the engine, the clock readings
  in the order they are taken, the identifiers the database assigns, the statements that fail, and
  whether \<^verbatim>\<open>json.Marshal\<close> succeeds.  A panic of the risk engine (a number too long for its buffer) is
  the error \<open>EnginePanic\<close>.
\<close>

subsection \<open>State\<close>

record trust_state =
  ts_devices :: device_db
  ts_sessions :: session_db
  ts_policies :: "Policy list"
  ts_decisions :: "policy_decision_row list"
  ts_risks :: risk_db
  ts_profiles :: behaviour_db
  ts_postures :: posture_db
  ts_incidents :: incident_db
  ts_events :: event_db
  ts_resources :: "uuid \<rightharpoonup> Sensitivity"

record trust_env =
  te_engine :: Engine
  te_now :: time
  te_recorded :: time
  te_started :: time
  te_elapsed :: duration
  te_opened :: time
  te_applied :: time
  te_logged :: "time \<times> time"
  te_score_id :: uuid
  te_incident_id :: uuid
  te_decision_id :: uuid
  te_event_ids :: "uuid \<times> uuid"
  te_faults :: faults
  te_event_faults :: "faults \<times> faults"
  te_encodes :: "metadata \<Rightarrow> bool"

datatype trust_error =
  ErrLoadSession | EnginePanic | ErrTrustRisk risk_store_error | ErrTrustPolicy policy_error
| ErrReadStatus | ErrApplyStatus

subsection \<open>evaluator.go\<close>

record Outcome =
  oc_Assessment :: Assessment
  oc_Decision :: Result
  oc_IncidentID :: "uuid option"
  oc_Applied :: Status

record sessionContext =
  sc_SessionID :: uuid
  sc_UserID :: uuid
  sc_DeviceID :: uuid
  sc_StartedAt :: time
  sc_Status :: Status
  sc_Attestation :: AttestationMethod
  sc_SourceIP :: string
  sc_DeviceKeyProtection :: string
  sc_DeviceEnrolledAt :: "time option"
  sc_DeviceHeartbeatAt :: "time option"

fun Decision_string :: "Decision \<Rightarrow> string" where
  "Decision_string DecisionAllow = ''ALLOW''"
| "Decision_string DecisionAllowMonitor = ''ALLOW_MONITOR''"
| "Decision_string DecisionVerify = ''VERIFY''"
| "Decision_string DecisionStepUpMFA = ''STEP_UP_MFA''"
| "Decision_string DecisionRestrict = ''RESTRICT''"
| "Decision_string DecisionIsolate = ''ISOLATE''"
| "Decision_string DecisionDeny = ''DENY''"
| "Decision_string (DecisionOther s) = s"

definition shortID :: "uuid \<Rightarrow> string" where
  "shortID ident = take 8 (uuid_String ident)"

definition summarise :: "Assessment \<Rightarrow> string" where
  "summarise a = ''Risk '' @ show_int (ra_Score a) @ '' ('' @ Level_string (ra_Level a) @
     ''). Contributing factors: '' @ Join (Codes a) '', '' @ ''.''"

definition loadSession :: "faults \<Rightarrow> uuid \<Rightarrow> trust_state \<Rightarrow> trust_error + sessionContext" where
  "loadSession fs sid st =
     (if fault fs ''load session for evaluation'' then Inl ErrLoadSession
      else case find (\<lambda>s. s_ID s = sid) (sd_sessions (ts_sessions st)) of
             None \<Rightarrow> Inl ErrLoadSession
           | Some s \<Rightarrow>
               (case find (\<lambda>d. d_ID d = s_DeviceID s) (dd_devices (ts_devices st)) of
                  None \<Rightarrow> Inl ErrLoadSession
                | Some d \<Rightarrow>
                    Inr \<lparr>sc_SessionID = s_ID s, sc_UserID = s_UserID s, sc_DeviceID = s_DeviceID s,
                         sc_StartedAt = s_StartedAt s, sc_Status = s_Status s, sc_Attestation = s_Attestation s,
                         sc_SourceIP = s_SourceIP s, sc_DeviceKeyProtection = d_KeyProtection d,
                         sc_DeviceEnrolledAt = d_EnrolledAt d, sc_DeviceHeartbeatAt = d_LastHeartbeatAt d\<rparr>))"

text \<open>The query ranks the resources the session's events name; an event without one ranks lowest.\<close>

fun resource_rank :: "Sensitivity option \<Rightarrow> nat" where
  "resource_rank (Some SensitivityCritical) = 4"
| "resource_rank (Some SensitivitySensitive) = 3"
| "resource_rank (Some SensitivityInternal) = 2"
| "resource_rank _ = 1"

definition session_ranks :: "uuid \<Rightarrow> event_db \<Rightarrow> (uuid \<rightharpoonup> Sensitivity) \<Rightarrow> nat list" where
  "session_ranks sid events resources =
     map (\<lambda>e. resource_rank (Option.bind (er_ResourceID e) resources)) (filter (\<lambda>e. er_SessionID e = Some sid) events)"

definition peakSensitivity :: "faults \<Rightarrow> uuid \<Rightarrow> event_db \<Rightarrow> (uuid \<rightharpoonup> Sensitivity) \<Rightarrow> Sensitivity" where
  "peakSensitivity fs sid events resources =
     (if fault fs ''peak sensitivity'' then SensitivityInternal
      else
        (let ranks = session_ranks sid events resources;
             peak = (if ranks = [] then 2 else foldr max ranks 0)
         in if peak = 4 then SensitivityCritical
            else if peak = 3 then SensitivitySensitive
            else if peak = 1 then SensitivityPublic
            else SensitivityInternal))"

text \<open>\<open>keys\<close> are the keys of the map in the order the runtime visits them.\<close>

definition total_events :: "event_Type list \<Rightarrow> (event_Type \<rightharpoonup> nat) \<Rightarrow> int" where
  "total_events keys counts =
     foldl (\<lambda>total t. case counts t of None \<Rightarrow> total | Some n \<Rightarrow> wrap64 (total + int n)) 0 keys"

definition gather :: "trust_env \<Rightarrow> sessionContext \<Rightarrow> trust_state \<Rightarrow> Inputs" where
  "gather env session st =
     (let now = te_now env;
          fs = te_faults env;
          inputs = \<lparr>in_SessionID = sc_SessionID session, in_UserID = sc_UserID session,
            in_DeviceID = sc_DeviceID session, in_Now = now, in_FirstEverSession = False,
            in_SessionAttested = (sc_Attestation session \<noteq> AttestationNone), in_DeviceTrustScore = None,
            in_DeviceKeyProtection = sc_DeviceKeyProtection session, in_DeviceFirstSeenForUser = False,
            in_DeviceEnrolledAt = sc_DeviceEnrolledAt session, in_AgentLastHeartbeat = sc_DeviceHeartbeatAt session,
            in_LoginHourTypical = False, in_BaselineEstablished = False, in_AccessVolumeZScore = Fin 0,
            in_UnfamiliarApplication = False, in_AnomalyScore = Fin 0, in_NetworkFamiliar = False,
            in_NetworkKnown = (sc_SourceIP session \<noteq> []), in_ResourceSensitivity = SensitivityInternal,
            in_RecentIncidents = 0, in_RecentDenials = 0\<rparr>;
          inputs = (case posture_Latest fs (sc_DeviceID session) (ts_postures st) of
              Inl _ \<Rightarrow> inputs
            | Inr latest \<Rightarrow> inputs\<lparr>in_DeviceTrustScore := Some (pr_TrustScore latest)\<rparr>);
          inputs = (case Load fs (sc_UserID session) (ts_profiles st) of
              Inl _ \<Rightarrow> inputs\<lparr>in_LoginHourTypical := True\<rparr>
            | Inr profile \<Rightarrow>
                (let inputs = inputs\<lparr>in_BaselineEstablished := bp_Established profile,
                       in_LoginHourTypical := IsTypicalHour profile (sc_StartedAt session),
                       in_DeviceFirstSeenForUser := bp_Established profile \<and> \<not> IsKnownDevice profile (sc_DeviceID session),
                       in_NetworkFamiliar := \<not> bp_Established profile \<or> sc_SourceIP session = [] \<or>
                         IsKnownNetwork profile (sc_SourceIP session)\<rparr>
                 in case CountByType fs (sc_SessionID session) (ts_events st) of
                      Inl _ \<Rightarrow> inputs
                    | Inr counts \<Rightarrow> inputs\<lparr>in_AccessVolumeZScore :=
                        AccessVolumeZScore profile (total_events (remdups (map er_Type (ts_events st))) counts)\<rparr>));
          inputs = (if \<not> in_BaselineEstablished inputs then inputs\<lparr>in_NetworkFamiliar := True\<rparr> else inputs);
          inputs = inputs\<lparr>in_ResourceSensitivity :=
            peakSensitivity fs (sc_SessionID session) (ts_events st) (ts_resources st)\<rparr>;
          sinceWeek = time_AddDays now (- 7);
          inputs = (case CountRecentIncidents fs (sc_UserID session) sinceWeek (ts_incidents st) of
              Inl _ \<Rightarrow> inputs | Inr n \<Rightarrow> inputs\<lparr>in_RecentIncidents := int n\<rparr>);
          inputs = (case CountRecentDenials fs (sc_UserID session) sinceWeek (ts_decisions st) of
              Inl _ \<Rightarrow> inputs | Inr n \<Rightarrow> inputs\<lparr>in_RecentDenials := int n\<rparr>)
      in if fault fs ''count prior sessions'' then inputs
         else inputs\<lparr>in_FirstEverSession :=
           (filter (\<lambda>s. s_UserID s = sc_UserID session \<and> s_ID s \<noteq> sc_SessionID session)
              (sd_sessions (ts_sessions st)) = [])\<rparr>)"

definition apply_row :: "uuid \<Rightarrow> time \<Rightarrow> Status \<Rightarrow> Session \<Rightarrow> Session" where
  "apply_row sid now status s =
     (if s_ID s = sid \<and> s_Status s \<noteq> StatusEnded then s\<lparr>s_Status := status, s_LastSeenAt := now\<rparr> else s)"

fun enforced_status :: "Decision \<Rightarrow> Status option" where
  "enforced_status DecisionRestrict = Some StatusRestricted"
| "enforced_status DecisionIsolate = Some StatusIsolated"
| "enforced_status DecisionDeny = Some StatusIsolated"
| "enforced_status _ = None"

definition applyDecision ::
  "time \<Rightarrow> faults \<Rightarrow> uuid \<Rightarrow> Decision \<Rightarrow> session_db \<Rightarrow> (trust_error + Status) \<times> session_db" where
  "applyDecision now fs sid decision db =
     (case enforced_status decision of
        None \<Rightarrow>
          if fault fs ''read session status'' then (Inl ErrReadStatus, db)
          else (case find (\<lambda>s. s_ID s = sid) (sd_sessions db) of
                  None \<Rightarrow> (Inl ErrReadStatus, db)
                | Some s \<Rightarrow> (Inr (s_Status s), db))
      | Some status \<Rightarrow>
          if fault fs ''apply session status'' then (Inl ErrApplyStatus, db)
          else (Inr status, db\<lparr>sd_sessions := map (apply_row sid now status) (sd_sessions db)\<rparr>))"

definition level_severity :: "Level \<Rightarrow> Severity" where
  "level_severity l =
     (case l of LevelHigh \<Rightarrow> SeverityHigh | LevelCritical \<Rightarrow> SeverityCritical | LevelElevated \<Rightarrow> SeverityMedium
      | _ \<Rightarrow> SeverityInfo)"

definition derived_event :: "sessionContext \<Rightarrow> event_Type \<Rightarrow> Severity \<Rightarrow> metadata \<Rightarrow> Event" where
  "derived_event session t sev metadata =
     \<lparr>ev_ID = uuid_Nil, ev_AgentEventID = [], ev_OccurredAt = zero_time, ev_ReceivedAt = zero_time,
      ev_DeviceID = Some (sc_DeviceID session), ev_UserID = Some (sc_UserID session),
      ev_SessionID = Some (sc_SessionID session), ev_Type = t, ev_Severity = sev, ev_Source = SourceBackend,
      ev_Metadata = metadata, ev_DeviceHostname = [], ev_UserName = []\<rparr>"

definition recordDerivedEvents ::
  "trust_env \<Rightarrow> sessionContext \<Rightarrow> Assessment \<Rightarrow> Result \<Rightarrow> event_db \<Rightarrow> event_db" where
  "recordDerivedEvents env session a decision db =
     (let sev = level_severity (ra_Level a);
          riskEvent = derived_event session TypeRiskUpdate sev
            [(''score'', show_int (ra_Score a)), (''level'', Level_string (ra_Level a)),
             (''factors'', Join (Codes a) '',''), (''trigger'', ra_TriggerEvent a)];
          db = snd (RecordBackendEvent (te_encodes env) (fst (te_event_ids env)) (fst (te_logged env))
                 (fst (te_event_faults env)) riskEvent db);
          decisionEvent = derived_event session TypePolicyDecision sev
            [(''decision'', Decision_string (rs_Decision decision)), (''reason'', rs_Reason decision),
             (''policy'', rs_PolicyID decision)]
      in snd (RecordBackendEvent (te_encodes env) (snd (te_event_ids env)) (snd (te_logged env))
                (snd (te_event_faults env)) decisionEvent db))"

definition open_incident ::
  "trust_env \<Rightarrow> sessionContext \<Rightarrow> Assessment \<Rightarrow> Result \<Rightarrow> incident_db \<Rightarrow> uuid option \<times> incident_db" where
  "open_incident env session a decision db =
     (if rs_CreateIncident decision
      then (case OpenOrEscalate (te_incident_id env) (te_opened env) (te_faults env) (sc_SessionID session)
                   (sc_UserID session) (sc_DeviceID session) (Level_string (ra_Level a)) (ra_Score a)
                   (''Elevated risk on session for '' @ shortID (sc_SessionID session)) (summarise a) db of
              (Inl _, db') \<Rightarrow> (None, db')
            | (Inr created, db') \<Rightarrow> (Some (ic_ID created), db'))
      else (None, db))"

definition session_decision :: "trust_env \<Rightarrow> Policy list \<Rightarrow> Assessment \<Rightarrow> Sensitivity \<Rightarrow> Result" where
  "session_decision env active a sensitivity =
     policy_Evaluate (policy_NewEngine active)
       \<lparr>rq_Assessment = a, rq_ResourceSensitivity = Sensitivity_string sensitivity, rq_ResourceID = None,
        rq_Degraded = False\<rparr> (te_started env) (te_elapsed env)"

text \<open>Everything after the decision: the incident, the record, the enforcement and the events.\<close>

definition enforce_decision ::
  "trust_env \<Rightarrow> sessionContext \<Rightarrow> Assessment \<Rightarrow> uuid \<Rightarrow> Result \<Rightarrow> trust_state \<Rightarrow>
   (trust_error + Outcome) \<times> trust_state" where
  "enforce_decision env session a riskScoreID decision st =
     (let sid = sc_SessionID session;
          (incidentID, incidents) = open_incident env session a decision (ts_incidents st);
          st = st\<lparr>ts_incidents := incidents\<rparr>
      in case RecordDecision (te_decision_id env) (te_faults env) sid (sc_UserID session) (sc_DeviceID session)
                (Some riskScoreID) None decision incidentID (ts_decisions st) of
           (Some e, _) \<Rightarrow> (Inl (ErrTrustPolicy e), st)
         | (None, decisions) \<Rightarrow>
             (let st = st\<lparr>ts_decisions := decisions\<rparr>
              in case applyDecision (te_applied env) (te_faults env) sid (rs_Decision decision) (ts_sessions st) of
                   (Inl e, _) \<Rightarrow> (Inl e, st)
                 | (Inr applied, sdb) \<Rightarrow>
                     (Inr \<lparr>oc_Assessment = a, oc_Decision = decision, oc_IncidentID = incidentID, oc_Applied = applied\<rparr>,
                      st\<lparr>ts_sessions := sdb, ts_events := recordDerivedEvents env session a decision (ts_events st)\<rparr>)))"

definition trust_Evaluate ::
  "trust_env \<Rightarrow> uuid \<Rightarrow> string \<Rightarrow> trust_state \<Rightarrow> (trust_error + Outcome) \<times> trust_state" where
  "trust_Evaluate env sid trigger st =
     (case loadSession (te_faults env) sid st of
        Inl e \<Rightarrow> (Inl e, st)
      | Inr session \<Rightarrow>
          (let inputs = gather env session st
           in case Evaluate (te_engine env) inputs of
                None \<Rightarrow> (Inl EnginePanic, st)
              | Some assessed \<Rightarrow>
                  (let assessment = assessed\<lparr>ra_TriggerEvent := trigger\<rparr>
                   in case risk_Record (te_score_id env) (te_recorded env) (te_faults env) (sc_UserID session)
                             (sc_DeviceID session) assessment (ts_risks st) (ts_sessions st) of
                        (Inl e, _, _) \<Rightarrow> (Inl (ErrTrustRisk e), st)
                      | (Inr riskScoreID, rdb, sdb) \<Rightarrow>
                          (let st = st\<lparr>ts_risks := rdb, ts_sessions := sdb\<rparr>
                           in case Active_policies (te_faults env) (ts_policies st) of
                                Inl e \<Rightarrow> (Inl (ErrTrustPolicy e), st)
                              | Inr active \<Rightarrow>
                                  enforce_decision env session assessment riskScoreID
                                    (session_decision env active assessment (in_ResourceSensitivity inputs)) st))))"

text \<open>Any failure of the query, also a fault of the database, is taken for a device without a session.\<close>

definition EvaluateDevice ::
  "trust_env \<Rightarrow> uuid \<Rightarrow> string \<Rightarrow> trust_state \<Rightarrow> (trust_error + Outcome option) \<times> trust_state" where
  "EvaluateDevice env device trigger st =
     (if fault (te_faults env) ''session of device'' then (Inr None, st)
      else case newest_first s_StartedAt (filter (\<lambda>s. s_DeviceID s = device \<and> s_Status s \<noteq> StatusEnded)
                  (sd_sessions (ts_sessions st))) of
             [] \<Rightarrow> (Inr None, st)
           | s # _ \<Rightarrow>
               (case trust_Evaluate env (s_ID s) trigger st of
                  (Inl e, st') \<Rightarrow> (Inl e, st')
                | (Inr outcome, st') \<Rightarrow> (Inr (Some outcome), st')))"

subsection \<open>stats.go\<close>

record FleetSummary =
  fs_Endpoints :: nat
  fs_Trusted :: nat
  fs_AtRisk :: nat
  fs_ActiveSessions :: nat
  fs_HighRiskSessions :: nat
  fs_RiskDistribution :: "string \<rightharpoonup> nat"

definition TrustedThreshold :: int where "TrustedThreshold = 70"

definition latest_trust :: "posture_db \<Rightarrow> uuid \<Rightarrow> int option" where
  "latest_trust db device = (case device_rows device db of [] \<Rightarrow> None | r # _ \<Rightarrow> Some (pr_TrustScore r))"

definition shown_level :: "Session \<Rightarrow> string" where
  "shown_level s = (if s_CurrentLevel s = [] then ''UNSCORED'' else s_CurrentLevel s)"

definition fleet_summary :: "faults \<Rightarrow> trust_state \<Rightarrow> string + FleetSummary" where
  "fleet_summary fs st =
     (let active = filter (\<lambda>d. d_State d = StateActive) (dd_devices (ts_devices st));
          trust = (\<lambda>d. latest_trust (ts_postures st) (d_ID d));
          open_sessions = filter (\<lambda>s. s_Status s \<noteq> StatusEnded) (sd_sessions (ts_sessions st))
      in if fault fs ''summarise fleet'' then Inl ''summarise fleet''
         else if fault fs ''summarise risk distribution'' then Inl ''summarise risk distribution''
         else if fault fs ''scan risk distribution'' then Inl ''scan risk distribution''
         else Inr
           \<lparr>fs_Endpoints = length active,
            fs_Trusted = length (filter (\<lambda>d. case trust d of None \<Rightarrow> False | Some t \<Rightarrow> t \<ge> TrustedThreshold) active),
            fs_AtRisk = length (filter (\<lambda>d. case trust d of None \<Rightarrow> True | Some t \<Rightarrow> t < TrustedThreshold) active),
            fs_ActiveSessions = length open_sessions,
            fs_HighRiskSessions = length (filter (\<lambda>s. s_CurrentLevel s \<in> {''HIGH'', ''CRITICAL''}) open_sessions),
            fs_RiskDistribution = (\<lambda>level.
              let n = length (filter (\<lambda>s. shown_level s = level) open_sessions) in if n = 0 then None else Some n)\<rparr>)"

subsection \<open>Updates of the table of sessions\<close>

text \<open>
  What every statement that updates sessions keeps, whoever issues it: the evaluator relies on it for
  the statements of the risk store, and everything below for those of the session store.
\<close>

locale session_update =
  fixes upd :: "Session \<Rightarrow> Session"
  assumes upd_ids: "s_ID (upd s) = s_ID s" "s_UserID (upd s) = s_UserID s" "s_DeviceID (upd s) = s_DeviceID s"
      "s_Attestation (upd s) = s_Attestation s" "s_StartedAt (upd s) = s_StartedAt s"
    and upd_ended: "s_Status s = StatusEnded \<Longrightarrow> s_Status (upd s) = StatusEnded"
begin

lemma map_ids: "map s_ID (map upd ss) = map s_ID ss"
  by (simp add: upd_ids)

lemma find_upd: "find (\<lambda>s. s_ID s = sid) (map upd ss) = map_option upd (find (\<lambda>s. s_ID s = sid) ss)"
  by (induction ss) (auto simp: upd_ids)

lemma ended_stays:
  "\<exists>s \<in> set ss. s_ID s = sid \<and> s_Status s = StatusEnded \<Longrightarrow>
   \<exists>s \<in> set (map upd ss). s_ID s = sid \<and> s_Status s = StatusEnded"
  using upd_ended upd_ids(1) by auto

end

interpretation risk_row: session_update "risk_update now a" for now a
  by unfold_locales (auto simp: risk_update_def)

interpretation applied_row: session_update "apply_row sid now status" for sid now status
  by unfold_locales (auto simp: apply_row_def)

interpretation ended_row: session_update "end_row sid user now" for sid user now
  by unfold_locales (auto simp: end_row_def)

interpretation touched_row: session_update "touch_row sid now" for sid now
  by unfold_locales (auto simp: touch_row_def)

lemma session_update_comp: "session_update f \<Longrightarrow> session_update g \<Longrightarrow> session_update (\<lambda>s. g (f s))"
  by (simp add: session_update_def)

definition evaluated_row :: "trust_env \<Rightarrow> Assessment \<Rightarrow> Decision \<Rightarrow> Session \<Rightarrow> Session" where
  "evaluated_row env a decision s =
     (case enforced_status decision of
        None \<Rightarrow> risk_update (te_recorded env) a s
      | Some status \<Rightarrow> apply_row (ra_SessionID a) (te_applied env) status (risk_update (te_recorded env) a s))"

interpretation evaluated: session_update "evaluated_row env a decision" for env a decision
  using session_update_comp [OF risk_row.session_update_axioms applied_row.session_update_axioms]
    risk_row.session_update_axioms
  by (cases "enforced_status decision") (simp_all add: evaluated_row_def [abs_def])

subsection \<open>The stages of an evaluation\<close>

lemma loadSession_Inr:
  assumes "loadSession fs sid st = Inr session"
  obtains s d where "s \<in> set (sd_sessions (ts_sessions st))" "s_ID s = sid"
    "find (\<lambda>s. s_ID s = sid) (sd_sessions (ts_sessions st)) = Some s"
    "d \<in> set (dd_devices (ts_devices st))" "d_ID d = s_DeviceID s"
    "session = \<lparr>sc_SessionID = sid, sc_UserID = s_UserID s, sc_DeviceID = s_DeviceID s,
       sc_StartedAt = s_StartedAt s, sc_Status = s_Status s, sc_Attestation = s_Attestation s,
       sc_SourceIP = s_SourceIP s, sc_DeviceKeyProtection = d_KeyProtection d,
       sc_DeviceEnrolledAt = d_EnrolledAt d, sc_DeviceHeartbeatAt = d_LastHeartbeatAt d\<rparr>"
  using assms by (auto simp: loadSession_def split: if_splits option.splits dest!: find_SomeD)

lemma gather_sel [simp]:
  "in_SessionID (gather env session st) = sc_SessionID session"
  "in_SessionAttested (gather env session st) \<longleftrightarrow> sc_Attestation session \<noteq> AttestationNone"
  "in_Now (gather env session st) = te_now env"
  "in_AnomalyScore (gather env session st) = Fin 0"
  "\<not> in_UnfamiliarApplication (gather env session st)"
  "in_ResourceSensitivity (gather env session st) =
     peakSensitivity (te_faults env) (sc_SessionID session) (ts_events st) (ts_resources st)"
  by (simp_all add: gather_def Let_def split: sum.split)

lemma Evaluate_session: "Evaluate e i = Some a \<Longrightarrow> ra_SessionID a = in_SessionID i"
  by (auto simp: Evaluate_eq conclude_def Let_def case_prod_beta split: if_splits)

lemma apply_sessions:
  assumes "applyDecision now fs sid decision sdb = (Inr applied, sdb')"
  shows "sdb' = (case enforced_status decision of None \<Rightarrow> sdb
      | Some status \<Rightarrow> sdb\<lparr>sd_sessions := map (apply_row sid now status) (sd_sessions sdb)\<rparr>)"
    "case enforced_status decision of
       None \<Rightarrow> \<exists>s \<in> set (sd_sessions sdb). s_ID s = sid \<and> applied = s_Status s
     | Some status \<Rightarrow> applied = status"
  using assms by (auto simp: applyDecision_def split: option.splits if_splits dest: find_SomeD)

lemma RecordDecision_None:
  assumes "RecordDecision ident fs sid uid did rid res r inc db = (None, db')"
  obtains drow where "db' = db @ [drow]" "pd_SessionID drow = sid" "pd_RiskScoreID drow = rid"
    "pd_Decision drow = rs_Decision r" "pd_IncidentID drow = inc"
    "pd_PolicyID drow = (if rs_PolicyID r = [] then None else Some (rs_PolicyID r))"
    "pd_PolicyVersion drow = (if rs_PolicyVersion r = 0 then None else Some (rs_PolicyVersion r))"
proof -
  let ?row = "\<lparr>pd_ID = ident, pd_SessionID = sid, pd_UserID = uid, pd_DeviceID = did, pd_RiskScoreID = rid,
     pd_ResourceID = res, pd_PolicyID = (if rs_PolicyID r = [] then None else Some (rs_PolicyID r)),
     pd_PolicyVersion = (if rs_PolicyVersion r = 0 then None else Some (rs_PolicyVersion r)),
     pd_Decision = rs_Decision r, pd_Reason = rs_Reason r, pd_EvaluatedAt = rs_EvaluatedAt r,
     pd_LatencyUs = go_div (rs_Latency r) microsecond, pd_IncidentID = inc\<rparr>"
  have "db' = db @ [?row]"
    using assms unfolding RecordDecision_def Let_def by (metis option.distinct(1) prod.inject)
  then show thesis by (rule that) simp_all
qed

lemma enforce_Inr:
  assumes "enforce_decision env session a rid decision st = (Inr out, st')"
  shows
    "oc_Assessment out = a" "oc_Decision out = decision"
    "open_incident env session a decision (ts_incidents st) = (oc_IncidentID out, ts_incidents st')"
    "RecordDecision (te_decision_id env) (te_faults env) (sc_SessionID session) (sc_UserID session) (sc_DeviceID session)
       (Some rid) None decision (oc_IncidentID out) (ts_decisions st) = (None, ts_decisions st')"
    "applyDecision (te_applied env) (te_faults env) (sc_SessionID session) (rs_Decision decision) (ts_sessions st) =
       (Inr (oc_Applied out), ts_sessions st')"
    "ts_risks st' = ts_risks st" "ts_policies st' = ts_policies st" "ts_devices st' = ts_devices st"
    "ts_events st' = recordDerivedEvents env session a decision (ts_events st)"
    "ts_profiles st' = ts_profiles st" "ts_postures st' = ts_postures st" "ts_resources st' = ts_resources st"
  using assms
  by (auto simp: enforce_decision_def Let_def split: prod.splits option.splits sum.splits)

lemma enforce_Inl:
  assumes "enforce_decision env session a rid decision st = (Inl e, st')"
  shows "ts_sessions st' = ts_sessions st \<and> ts_risks st' = ts_risks st"
  using assms
  by (auto simp: enforce_decision_def Let_def split: prod.splits option.splits sum.splits)

lemma trust_Inr:
  assumes "trust_Evaluate env sid trigger st = (Inr out, st')"
  obtains session a sdb active where
    "loadSession (te_faults env) sid st = Inr session"
    "Evaluate (te_engine env) (gather env session st) = Some a" "oc_Assessment out = a\<lparr>ra_TriggerEvent := trigger\<rparr>"
    "risk_Record (te_score_id env) (te_recorded env) (te_faults env) (sc_UserID session) (sc_DeviceID session)
       (oc_Assessment out) (ts_risks st) (ts_sessions st) = (Inr (te_score_id env), ts_risks st', sdb)"
    "Active_policies (te_faults env) (ts_policies st) = Inr active"
    "oc_Decision out = session_decision env active (oc_Assessment out) (in_ResourceSensitivity (gather env session st))"
    "enforce_decision env session (oc_Assessment out) (te_score_id env) (oc_Decision out)
       (st\<lparr>ts_risks := ts_risks st', ts_sessions := sdb\<rparr>) = (Inr out, st')"
proof -
  obtain session where l: "loadSession (te_faults env) sid st = Inr session"
    using assms by (auto simp: trust_Evaluate_def split: sum.splits)
  obtain a where a: "Evaluate (te_engine env) (gather env session st) = Some a"
    using assms l by (auto simp: trust_Evaluate_def Let_def split: option.splits)
  let ?a = "a\<lparr>ra_TriggerEvent := trigger\<rparr>"
  obtain rid rdb sdb where r: "risk_Record (te_score_id env) (te_recorded env) (te_faults env) (sc_UserID session)
      (sc_DeviceID session) ?a (ts_risks st) (ts_sessions st) = (Inr rid, rdb, sdb)"
    using assms l a by (auto simp: trust_Evaluate_def Let_def split: prod.splits sum.splits)
  have rid: "rid = te_score_id env" by (rule risk_Record_cases [OF r]) simp_all
  obtain active where p: "Active_policies (te_faults env) (ts_policies st) = Inr active"
    using assms l a r by (auto simp: trust_Evaluate_def Let_def split: sum.splits)
  have e: "enforce_decision env session ?a (te_score_id env)
      (session_decision env active ?a (in_ResourceSensitivity (gather env session st)))
      (st\<lparr>ts_risks := rdb, ts_sessions := sdb\<rparr>) = (Inr out, st')"
    using assms by (simp add: trust_Evaluate_def Let_def l a r p rid)
  note sel = enforce_Inr [OF e]
  have "rdb = ts_risks st'" using sel(6) by simp
  with that [OF l a _ _ p] r rid e sel(1,2) show thesis by simp
qed

lemma trust_Inl:
  assumes "trust_Evaluate env sid trigger st = (Inl e, st')"
  obtains "st' = st"
  | session a rid where "loadSession (te_faults env) sid st = Inr session"
    "Evaluate (te_engine env) (gather env session st) = Some a"
    "risk_Record (te_score_id env) (te_recorded env) (te_faults env) (sc_UserID session) (sc_DeviceID session)
       (a\<lparr>ra_TriggerEvent := trigger\<rparr>) (ts_risks st) (ts_sessions st) = (Inr rid, ts_risks st', ts_sessions st')"
proof (cases "loadSession (te_faults env) sid st")
  case (Inl x)
  then show thesis using assms that(1) by (simp add: trust_Evaluate_def)
next
  case (Inr session)
  note l = Inr
  show thesis
  proof (cases "Evaluate (te_engine env) (gather env session st)")
    case None
    then show thesis using assms l that(1) by (simp add: trust_Evaluate_def Let_def)
  next
    case (Some a)
    obtain res rdb sdb where r: "risk_Record (te_score_id env) (te_recorded env) (te_faults env) (sc_UserID session)
        (sc_DeviceID session) (a\<lparr>ra_TriggerEvent := trigger\<rparr>) (ts_risks st) (ts_sessions st) = (res, rdb, sdb)"
      by (cases "risk_Record (te_score_id env) (te_recorded env) (te_faults env) (sc_UserID session)
        (sc_DeviceID session) (a\<lparr>ra_TriggerEvent := trigger\<rparr>) (ts_risks st) (ts_sessions st)") auto
    show thesis
    proof (cases res)
      case (Inl x)
      then show thesis using assms l Some r that(1) by (simp add: trust_Evaluate_def Let_def)
    next
      case (Inr rid)
      then have "ts_risks st' = rdb \<and> ts_sessions st' = sdb"
        using assms l Some r
        by (cases "Active_policies (te_faults env) (ts_policies st)")
          (auto simp: trust_Evaluate_def Let_def dest!: enforce_Inl)
      then show thesis using that(2) [OF l Some, of rid] r Inr by simp
    qed
  qed
qed

lemma success_rows:
  assumes "trust_Evaluate env sid trigger st = (Inr out, st')"
  shows "ra_SessionID (oc_Assessment out) = sid"
    and "ts_sessions st' = (ts_sessions st)\<lparr>sd_sessions :=
      map (evaluated_row env (oc_Assessment out) (rs_Decision (oc_Decision out))) (sd_sessions (ts_sessions st))\<rparr>"
proof -
  obtain session a sdb active where t: "loadSession (te_faults env) sid st = Inr session"
      "Evaluate (te_engine env) (gather env session st) = Some a" "oc_Assessment out = a\<lparr>ra_TriggerEvent := trigger\<rparr>"
      "risk_Record (te_score_id env) (te_recorded env) (te_faults env) (sc_UserID session) (sc_DeviceID session)
         (oc_Assessment out) (ts_risks st) (ts_sessions st) = (Inr (te_score_id env), ts_risks st', sdb)"
      "enforce_decision env session (oc_Assessment out) (te_score_id env) (oc_Decision out)
         (st\<lparr>ts_risks := ts_risks st', ts_sessions := sdb\<rparr>) = (Inr out, st')"
    using trust_Inr [OF assms] by metis
  have sid: "sc_SessionID session = sid" using t(1) by (rule loadSession_Inr) simp
  with Evaluate_session [OF t(2)] t(3) show id: "ra_SessionID (oc_Assessment out) = sid" by simp
  have "sdb = (ts_sessions st)\<lparr>sd_sessions := map (risk_update (te_recorded env) (oc_Assessment out)) (sd_sessions (ts_sessions st))\<rparr>"
    using t(4) by (rule risk_Record_cases) simp_all
  then show "ts_sessions st' = (ts_sessions st)\<lparr>sd_sessions :=
      map (evaluated_row env (oc_Assessment out) (rs_Decision (oc_Decision out))) (sd_sessions (ts_sessions st))\<rparr>"
    using apply_sessions(1) [OF enforce_Inr(5) [OF t(5)]] id sid
    by (cases "enforced_status (rs_Decision (oc_Decision out))") (simp_all add: evaluated_row_def [abs_def] comp_def)
qed

lemma enforced_rows:
  assumes "trust_Evaluate env sid trigger st = (Inr out, st')" "s \<in> set (sd_sessions (ts_sessions st'))" "s_ID s = sid"
    and "enforced_status (rs_Decision (oc_Decision out)) = Some status"
  shows "s_Status s \<in> {status, StatusEnded}"
proof -
  note r = success_rows [OF assms(1)]
  obtain t where t: "s = evaluated_row env (oc_Assessment out) (rs_Decision (oc_Decision out)) t"
    using assms(2) unfolding r(2) by auto
  then have "s_ID t = sid" using assms(3) evaluated.upd_ids(1) by simp
  then show ?thesis using assms(4) r(1) t by (simp add: evaluated_row_def apply_row_def)
qed

text \<open>Whatever comes of an evaluation, the table of sessions is changed by one update of this kind.\<close>

lemma evaluation_updates:
  assumes "trust_Evaluate env sid trigger st = (res, st')"
  shows "\<exists>upd. session_update upd \<and> sd_sessions (ts_sessions st') = map upd (sd_sessions (ts_sessions st))"
proof (cases res)
  case (Inr out)
  then show ?thesis
    using success_rows(2) [of env sid trigger st out st'] assms evaluated.session_update_axioms by auto
next
  case (Inl e)
  show ?thesis
  proof (rule trust_Inl [OF assms [unfolded Inl]])
    assume "st' = st"
    moreover have "session_update (\<lambda>s. s)" by unfold_locales simp_all
    ultimately show ?thesis by force
  next
    fix session a rid
    assume "risk_Record (te_score_id env) (te_recorded env) (te_faults env) (sc_UserID session) (sc_DeviceID session)
       (a\<lparr>ra_TriggerEvent := trigger\<rparr>) (ts_risks st) (ts_sessions st) = (Inr rid, ts_risks st', ts_sessions st')"
    then show ?thesis
      by (rule risk_Record_cases) (use risk_row.session_update_axioms in auto)
  qed
qed

subsection \<open>What the engine and the policies deliver to the loop\<close>

lemma conclude_fits16:
  assumes "factors_ok fs" "f \<in> set (ra_Factors (conclude e i fs))" shows "fits16 (rf_Contribution f)"
proof -
  obtain score dims where t: "tally fs = (score, dims)" by fastforce
  have score: "score = contributions fs" "0 \<le> contributions fs" "contributions fs \<le> 151 * 15"
    using tally_exact [OF assms(1)] t factors_ok_bounds(1,2) [OF assms(1)] assms(1)
    by (simp_all add: factors_ok_def)
  have small: "fits16 (rf_Contribution g)" "fits16 (wrap64 (rf_Contribution g - (score - 100)))"
    if "g \<in> set (sortFactors fs)" for g
  proof -
    have g: "0 < rf_Contribution g" "rf_Contribution g \<le> 151"
      using that assms(1) by (auto simp: factors_ok_def)
    then show "fits16 (rf_Contribution g)" by (simp add: fits16_def)
    have "fits64 (rf_Contribution g - (score - 100))" using g score by (simp add: fits64_def)
    then show "fits16 (wrap64 (rf_Contribution g - (score - 100)))" using g score by (simp add: wrap64_id fits16_def)
  qed
  show ?thesis
  proof (cases "score > 100")
    case True
    then obtain g gs where "sortFactors fs = g # gs" using score(1) by (cases "sortFactors fs") auto
    then show ?thesis
      using True assms(2) small by (auto simp: conclude_def t Let_def)
  next
    case False
    then have "f \<in> set (sortFactors fs)"
      using assms(2) by (simp add: conclude_def t Let_def)
    then show ?thesis using small by simp
  qed
qed

lemma Evaluate_storable:
  assumes "weights_ok (e_weights e)" "inputs_ok i" "Evaluate e i = Some a"
  shows "0 \<le> ra_Score a" "ra_Score a \<le> 100" "level_known (ra_Level a)"
    "list_all (\<lambda>f. fits16 (rf_Contribution f)) (ra_Factors a)" "contributions (ra_Factors a) = ra_Score a"
proof -
  have a: "a = conclude e i (factors_of (e_weights e) (all_signals i))"
    using assms(3) by (simp add: Evaluate_eq split: if_splits)
  note ok = factors_of_ok [OF assms(1) all_signals_ok [OF assms(2)]]
  show "0 \<le> ra_Score a" "ra_Score a \<le> 100"
    using Evaluate_spec(1) [OF assms] signal_sum_nonneg by simp_all
  show "level_known (ra_Level a)"
    using Evaluate_spec(3) [OF assms] by (simp add: level_known_def Thresholds_Level_def)
  show "list_all (\<lambda>f. fits16 (rf_Contribution f)) (ra_Factors a)"
    using conclude_fits16 [OF ok] by (simp add: a list_all_iff)
  show "contributions (ra_Factors a) = ra_Score a"
    using Evaluate_spec(2) [OF assms] by (simp add: reconciles_def)
qed

lemma gather_trust:
  assumes "in_DeviceTrustScore (gather env session st) = Some t"
  shows "\<exists>r \<in> set (ts_postures st). pr_TrustScore r = t"
proof -
  have "in_DeviceTrustScore (gather env session st) =
      (case posture_Latest (te_faults env) (sc_DeviceID session) (ts_postures st) of
         Inl _ \<Rightarrow> None | Inr r \<Rightarrow> Some (pr_TrustScore r))"
    by (simp add: gather_def Let_def split: sum.split)
  then obtain r rest where "device_rows (sc_DeviceID session) (ts_postures st) = r # rest" "pr_TrustScore r = t"
    using assms by (auto simp: posture_Latest_def split: sum.splits if_splits list.splits)
  then show ?thesis
    using newest_first_Cons(1) [of pr_CollectedAt "filter (\<lambda>r. pr_DeviceID r = sc_DeviceID session) (ts_postures st)" r rest]
    by (auto simp: device_rows_def)
qed

definition postures_ok :: "posture_db \<Rightarrow> bool" where
  "postures_ok db \<longleftrightarrow> (\<forall>r \<in> set db. 0 \<le> pr_TrustScore r \<and> pr_TrustScore r \<le> 100)"

lemma gather_inputs_ok: "postures_ok (ts_postures st) \<Longrightarrow> inputs_ok (gather env session st)"
  using gather_trust [of env session st] by (fastforce simp: inputs_ok_def postures_ok_def split: option.splits)

lemma postures_ok_Record:
  "posture_Record_op ident now fs device sg a db = (res, db') \<Longrightarrow> postures_ok db \<Longrightarrow> postures_ok db'"
  by (auto simp: posture_Record_op_def postures_ok_def Let_def split: if_splits)

text \<open>Policies of a reachable table are what \<^verbatim>\<open>Validate\<close> let in, with a version from 1 upwards.\<close>

lemma reachable_policies:
  assumes "policy_db_reachable db" "p \<in> set db"
  shows "p_PolicyID p \<noteq> []" "p_Version p \<noteq> 0" "knownDecisions (ac_Decision (p_Actions p))"
proof -
  have valid: "p_PolicyID p \<noteq> [] \<and> knownDecisions (ac_Decision (p_Actions p))"
    using assms
  proof (induction rule: policy_db_reachable.induct)
    case (create db ident now fs q by_user res db')
    from Create_policy_cases [OF create.hyps(2)] show ?case
    proof (elim disjE exE conjE)
      fix row assume "db' = db @ [row]" "Policy_Validate q = None"
        "row = q\<lparr>p_ID := ident, p_Version := next_version (p_PolicyID q) db, p_CreatedBy := by_user, p_CreatedAt := now\<rparr>"
      with create show ?thesis
        by (auto simp: Policy_Validate_def Let_def split: if_splits)
    qed (use create in auto)
  qed simp
  then show "p_PolicyID p \<noteq> []" "knownDecisions (ac_Decision (p_Actions p))" by simp_all
  have "p_Version p \<in> set (versions_of (p_PolicyID p) db)" using assms(2) by simp
  then show "p_Version p \<noteq> 0"
    using reachable_versions_ok [OF assms(1)] by (auto simp: versions_ok_def)
qed

lemma Active_subset: "Active_policies fs db = Inr active \<Longrightarrow> p \<in> set active \<Longrightarrow> p \<in> set db \<and> p_Enabled p"
proof -
  assume active: "Active_policies fs db = Inr active" and p: "p \<in> set active"
  have "Active_policies [] db = Inr active"
    using active unfolding Active_policies_def by (simp split: if_splits)
  from Active_policies_spec(2) [OF this] p show ?thesis by blast
qed

text \<open>The only enabled version of a policy is active.\<close>

lemma active_sole:
  assumes "Active_policies fs db = Inr active" "p \<in> set db" "p_Enabled p"
    and "\<forall>q \<in> set db. p_Enabled q \<and> p_PolicyID q = p_PolicyID p \<longrightarrow> q = p"
  shows "p \<in> set active"
proof -
  have "Active_policies [] db = Inr active"
    using assms(1) unfolding Active_policies_def by (simp split: if_splits)
  from Active_policies_spec(4) [OF this] assms(2,3) obtain q where q: "q \<in> set active" "p_PolicyID q = p_PolicyID p" by blast
  then have "q \<in> set db" "p_Enabled q" using Active_subset [OF assms(1)] by blast+
  with q assms(4) show ?thesis by blast
qed

text \<open>A decision comes from an enabled policy of the table, or no policy applies and it is to allow.\<close>

lemma session_decision_source:
  assumes "Active_policies fs db = Inr active"
  shows "(\<exists>p \<in> set db. p_Enabled p \<and> cites (session_decision env active a sens) p) \<or>
    session_decision env active a sens = (default_result (te_started env))\<lparr>rs_Latency := te_elapsed env\<rparr>"
proof -
  let ?rq = "\<lparr>rq_Assessment = a, rq_ResourceSensitivity = Sensitivity_string sens, rq_ResourceID = None, rq_Degraded = False\<rparr>"
  show ?thesis
  proof (cases "\<exists>p \<in> set (policy_NewEngine active). applies ?rq p")
    case True
    then obtain q where "q \<in> set (policy_NewEngine active)" "cites (session_decision env active a sens) q"
      using policy_Evaluate_cites [of ?rq _ "policy_NewEngine active" "te_started env" "te_elapsed env"]
      by (auto simp: session_decision_def)
    then show ?thesis using Active_subset [OF assms, of q] by auto
  next
    case False
    then show ?thesis
      using policy_Evaluate_none [of ?rq "policy_NewEngine active" "te_started env" "te_elapsed env"]
      by (simp add: session_decision_def)
  qed
qed

lemma session_decision_sel [simp]:
  "rs_Latency (session_decision env active a sens) = te_elapsed env"
  by (simp add: session_decision_def policy_Evaluate_def)

lemma session_decision_known:
  assumes "policy_db_reachable db" "Active_policies fs db = Inr active"
  shows "knownDecisions (rs_Decision (session_decision env active a sens))"
  using session_decision_source [OF assms(2), of env a sens] reachable_policies(3) [OF assms(1)]
  by (auto simp: cites_def default_result_def)

text \<open>Every session names a device, as the foreign key demands.\<close>

definition devices_known :: "trust_state \<Rightarrow> bool" where
  "devices_known st \<longleftrightarrow>
     (\<forall>s \<in> set (sd_sessions (ts_sessions st)). s_DeviceID s \<in> d_ID ` set (dd_devices (ts_devices st)))"

lemma find_present: "x \<in> set xs \<Longrightarrow> P x \<Longrightarrow> \<exists>y. find P xs = Some y"
  by (induction xs) auto

lemma loadSession_total:
  assumes "devices_known st" "sid \<in> s_ID ` set (sd_sessions (ts_sessions st))" "fs = []"
  shows "\<exists>session. loadSession fs sid st = Inr session"
proof -
  obtain s where s: "find (\<lambda>s. s_ID s = sid) (sd_sessions (ts_sessions st)) = Some s"
    using assms(2) find_present [of _ "sd_sessions (ts_sessions st)" "\<lambda>s. s_ID s = sid"] by force
  then have "s \<in> set (sd_sessions (ts_sessions st))" using find_SomeD by metis
  then obtain d where "find (\<lambda>d. d_ID d = s_DeviceID s) (dd_devices (ts_devices st)) = Some d"
    using assms(1) find_present [of _ "dd_devices (ts_devices st)" "\<lambda>d. d_ID d = s_DeviceID s"]
    by (force simp: devices_known_def)
  with s assms(3) show ?thesis by (simp add: loadSession_def)
qed

lemma enforce_total:
  assumes "te_faults env = []" "knownDecisions (rs_Decision decision)"
    "\<bar>go_div (rs_Latency decision) microsecond\<bar> < 2 ^ 31"
    and "sc_SessionID session \<in> s_ID ` set (sd_sessions (ts_sessions st))"
  shows "\<exists>out st'. enforce_decision env session a rid decision st = (Inr out, st')"
proof -
  obtain s where "find (\<lambda>s. s_ID s = sc_SessionID session) (sd_sessions (ts_sessions st)) = Some s"
    using assms(4) find_present [of _ "sd_sessions (ts_sessions st)" "\<lambda>s. s_ID s = sc_SessionID session"] by force
  then have "\<exists>applied sdb. applyDecision (te_applied env) [] (sc_SessionID session) (rs_Decision decision) (ts_sessions st) =
      (Inr applied, sdb)"
    by (simp add: applyDecision_def split: option.split)
  then show ?thesis
    using assms(1-3) by (auto simp: enforce_decision_def RecordDecision_def Let_def split: prod.split)
qed

lemma evaluation_total:
  assumes fs: "te_faults env = []" and known: "devices_known st" "sid \<in> s_ID ` set (sd_sessions (ts_sessions st))"
    and engine: "weights_ok (e_weights (te_engine env))" "postures_ok (ts_postures st)"
      "\<And>session. loadSession [] sid st = Inr session \<Longrightarrow> printed_small (gather env session st)"
    and fresh: "te_score_id env \<notin> rr_ID ` set (rd_scores (ts_risks st))"
    and policies: "policy_db_reachable (ts_policies st)" "\<bar>go_div (te_elapsed env) microsecond\<bar> < 2 ^ 31"
  shows "\<exists>out st'. trust_Evaluate env sid trigger st = (Inr out, st')"
proof -
  obtain session where l: "loadSession (te_faults env) sid st = Inr session"
    using loadSession_total [OF known fs] by blast
  obtain a where a: "Evaluate (te_engine env) (gather env session st) = Some a"
    using Evaluate_total engine(3) l fs by metis
  note ok = Evaluate_storable [OF engine(1) gather_inputs_ok [OF engine(2)] a]
  have sid: "sc_SessionID session = sid" using l by (rule loadSession_Inr) simp
  define b where "b = a\<lparr>ra_TriggerEvent := trigger\<rparr>"
  have "ra_SessionID b = sid" using Evaluate_session [OF a] sid by (simp add: b_def)
  then obtain rdb where r: "risk_Record (te_score_id env) (te_recorded env) (te_faults env) (sc_UserID session)
      (sc_DeviceID session) b (ts_risks st) (ts_sessions st) =
      (Inr (te_score_id env), rdb, (ts_sessions st)\<lparr>sd_sessions := map (risk_update (te_recorded env) b) (sd_sessions (ts_sessions st))\<rparr>)"
    using ok fs fresh known(2) by (simp add: risk_Record_def b_def)
  obtain active where p: "Active_policies (te_faults env) (ts_policies st) = Inr active"
    using fs by (simp add: Active_policies_def)
  let ?d = "session_decision env active b (in_ResourceSensitivity (gather env session st))"
  have "\<exists>out st'. enforce_decision env session b (te_score_id env) ?d
      (st\<lparr>ts_risks := rdb, ts_sessions := (ts_sessions st)\<lparr>sd_sessions := map (risk_update (te_recorded env) b) (sd_sessions (ts_sessions st))\<rparr>\<rparr>) = (Inr out, st')"
    by (rule enforce_total) (use fs policies session_decision_known [OF policies(1) p] known(2) sid in
      \<open>simp_all add: image_image\<close>)
  then show ?thesis
    using l a r p by (simp add: trust_Evaluate_def Let_def flip: b_def)
qed

subsection \<open>Runs of the system\<close>

text \<open>
  The operations that write sessions, scores or postures, in any order, with any faults; the other tables may
  change in any way between them.  The engine is one whose weights passed validation.
\<close>

inductive trust_step :: "trust_state \<Rightarrow> trust_state \<Rightarrow> bool" where
  begins: "Begin edv addr (ts_devices st) ident now fs r (ts_sessions st) = (res, sdb) \<Longrightarrow>
    trust_step st (st\<lparr>ts_sessions := sdb\<rparr>)"
| challenges: "IssueNonce raw now fs user (ts_sessions st) = (res1, sdb) \<Longrightarrow> trust_step st (st\<lparr>ts_sessions := sdb\<rparr>)"
| ends: "End now fs sid user (ts_sessions st) = (err, sdb) \<Longrightarrow> trust_step st (st\<lparr>ts_sessions := sdb\<rparr>)"
| touches: "Touch now fs sid (ts_sessions st) = (err, sdb) \<Longrightarrow> trust_step st (st\<lparr>ts_sessions := sdb\<rparr>)"
| evaluates: "weights_ok (e_weights (te_engine env)) \<Longrightarrow> trust_Evaluate env sid trigger st = (res2, st') \<Longrightarrow> trust_step st st'"
| reports: "posture_Record_op ident now fs device sg pa (ts_postures st) = (res3, pdb) \<Longrightarrow>
    trust_step st (st\<lparr>ts_postures := pdb\<rparr>)"
| others: "trust_step st (st\<lparr>ts_devices := ds, ts_policies := ps, ts_decisions := decs, ts_profiles := profs,
    ts_incidents := incs, ts_events := evs, ts_resources := ress\<rparr>)"

inductive trust_run :: "trust_state \<Rightarrow> bool" where
  start: "sd_sessions (ts_sessions st) = [] \<Longrightarrow> rd_scores (ts_risks st) = [] \<Longrightarrow> rd_factors (ts_risks st) = [] \<Longrightarrow>
    ts_postures st = [] \<Longrightarrow> trust_run st"
| step: "trust_run st \<Longrightarrow> trust_step st st' \<Longrightarrow> trust_run st'"

definition trust_ok :: "trust_state \<Rightarrow> bool" where
  "trust_ok st \<longleftrightarrow>
     distinct (map s_ID (sd_sessions (ts_sessions st))) \<and> risk_db_ok (ts_risks st) \<and> postures_ok (ts_postures st) \<and>
     (\<forall>r \<in> set (rd_scores (ts_risks st)). 0 \<le> rr_Score r \<and> rr_Score r \<le> 100) \<and>
     (\<forall>s \<in> set (sd_sessions (ts_sessions st)). explained (ts_risks st) s)"

lemma enforce_postures: "ts_postures (snd (enforce_decision env session a rid decision st)) = ts_postures st"
  by (simp add: enforce_decision_def Let_def split: prod.split option.split sum.split)

lemma evaluation_postures:
  assumes "trust_Evaluate env sid trigger st = (res, st')" shows "ts_postures st' = ts_postures st"
proof -
  have "ts_postures (snd (trust_Evaluate env sid trigger st)) = ts_postures st"
    unfolding trust_Evaluate_def Let_def
    by (auto split: sum.split option.split prod.split simp: enforce_postures)
  then show ?thesis by (simp add: assms)
qed

lemma trust_ok_sessions:
  assumes "trust_ok st" "session_update upd" "sd_sessions sdb = map upd (sd_sessions (ts_sessions st))"
    and "\<And>s. s_CurrentRisk (upd s) = s_CurrentRisk s \<and> s_CurrentLevel (upd s) = s_CurrentLevel s"
  shows "trust_ok (st\<lparr>ts_sessions := sdb\<rparr>)"
proof -
  have "explained db (upd s) = explained db s" for db s
    using assms(4) [of s] session_update.upd_ids(1) [OF assms(2), of s]
    by (simp add: explained_def split: option.split)
  moreover have "distinct (map s_ID (sd_sessions sdb))"
    using assms(1) session_update.map_ids [OF assms(2)] unfolding assms(3) trust_ok_def by metis
  moreover have "s \<in> set (sd_sessions sdb) \<Longrightarrow> \<exists>t \<in> set (sd_sessions (ts_sessions st)). s = upd t" for s
    using assms(3) by auto
  ultimately show ?thesis using assms(1) by (fastforce simp: trust_ok_def)
qed

lemma trust_ok_record:
  assumes "risk_Record ident now fs user device a (ts_risks st) (ts_sessions st) = (res, rdb, sdb)" "trust_ok st"
    and "contributions (ra_Factors a) = ra_Score a"
  shows "trust_ok (st\<lparr>ts_risks := rdb, ts_sessions := sdb\<rparr>)"
proof -
  have "risk_db_ok rdb \<and> (\<forall>s \<in> set (sd_sessions sdb). explained rdb s)"
    using explained_Record [OF assms(1) _ _ assms(3)] assms(2) by (simp add: trust_ok_def)
  moreover have "map s_ID (sd_sessions sdb) = map s_ID (sd_sessions (ts_sessions st)) \<and>
      (\<forall>r \<in> set (rd_scores rdb). 0 \<le> rr_Score r \<and> rr_Score r \<le> 100)"
    using assms(1)
  proof (cases rule: risk_Record_cases)
    case (failed e)
    then show ?thesis using assms(2) by (simp add: trust_ok_def)
  next
    case stored
    then show ?thesis using assms(2) by (auto simp: trust_ok_def)
  qed
  ultimately show ?thesis using assms(2) by (simp add: trust_ok_def)
qed

lemma trust_ok_cong:
  "sd_sessions (ts_sessions st') = sd_sessions (ts_sessions st) \<Longrightarrow> ts_risks st' = ts_risks st \<Longrightarrow>
   ts_postures st' = ts_postures st \<Longrightarrow> trust_ok st \<Longrightarrow> trust_ok st'"
  by (simp add: trust_ok_def)

lemma trust_ok_Evaluate:
  assumes "weights_ok (e_weights (te_engine env))" "trust_Evaluate env sid trigger st = (res, st')" "trust_ok st"
  shows "trust_ok st'"
proof -
  have reconciled: "contributions (ra_Factors a) = ra_Score a"
    if "Evaluate (te_engine env) (gather env session st) = Some a" for session a
    using Evaluate_storable(5) [OF assms(1) gather_inputs_ok that] assms(3) by (simp add: trust_ok_def)
  show ?thesis
  proof (cases res)
    case (Inl e)
    show ?thesis
    proof (rule trust_Inl [OF assms(2) [unfolded Inl]])
      fix session a rid
      assume a: "Evaluate (te_engine env) (gather env session st) = Some a"
        and r: "risk_Record (te_score_id env) (te_recorded env) (te_faults env) (sc_UserID session) (sc_DeviceID session)
           (a\<lparr>ra_TriggerEvent := trigger\<rparr>) (ts_risks st) (ts_sessions st) = (Inr rid, ts_risks st', ts_sessions st')"
      have "trust_ok (st\<lparr>ts_risks := ts_risks st', ts_sessions := ts_sessions st'\<rparr>)"
        by (rule trust_ok_record [OF r assms(3)]) (simp add: reconciled [OF a])
      then show ?thesis by (rule trust_ok_cong [rotated 3]) (simp_all add: evaluation_postures [OF assms(2)])
    qed (simp add: assms(3))
  next
    case (Inr out)
    obtain session a sdb active where t: "Evaluate (te_engine env) (gather env session st) = Some a"
        "oc_Assessment out = a\<lparr>ra_TriggerEvent := trigger\<rparr>"
        "risk_Record (te_score_id env) (te_recorded env) (te_faults env) (sc_UserID session) (sc_DeviceID session)
           (oc_Assessment out) (ts_risks st) (ts_sessions st) = (Inr (te_score_id env), ts_risks st', sdb)"
        "enforce_decision env session (oc_Assessment out) (te_score_id env) (oc_Decision out)
           (st\<lparr>ts_risks := ts_risks st', ts_sessions := sdb\<rparr>) = (Inr out, st')"
      using trust_Inr [OF assms(2) [unfolded Inr]] by metis
    have ok: "trust_ok (st\<lparr>ts_risks := ts_risks st', ts_sessions := sdb\<rparr>)"
      by (rule trust_ok_record [OF t(3) assms(3)]) (simp add: t(2) reconciled [OF t(1)])
    note app = apply_sessions(1) [OF enforce_Inr(5) [OF t(4)]]
    have "trust_ok (st\<lparr>ts_risks := ts_risks st', ts_sessions := sdb, ts_sessions := ts_sessions st'\<rparr>)"
    proof (cases "enforced_status (rs_Decision (oc_Decision out))")
      case None
      then show ?thesis using ok app by simp
    next
      case (Some status)
      then show ?thesis
        using app by (intro trust_ok_sessions [OF ok applied_row.session_update_axioms]) (auto simp: apply_row_def)
    qed
    then show ?thesis by (rule trust_ok_cong [rotated 3]) (simp_all add: evaluation_postures [OF assms(2)])
  qed
qed

lemma trust_ok_step: "trust_step st st' \<Longrightarrow> trust_ok st \<Longrightarrow> trust_ok st'"
proof (induction rule: trust_step.induct)
  case (begins edv addr st ident now fs r res sdb)
  from Begin_cases [OF begins.hyps] show ?case
    by (elim disjE exE conjE) (use begins.prems in \<open>auto simp: trust_ok_def explained_def session_row_def\<close>)
next
  case (challenges raw now fs user st res1 sdb)
  then have "sd_sessions sdb = sd_sessions (ts_sessions st)"
    by (auto simp: IssueNonce_def Let_def split: option.splits if_splits)
  with challenges.prems show ?case by (simp add: trust_ok_def)
next
  case (ends now fs sid user st err sdb)
  then have "sd_sessions sdb = sd_sessions (ts_sessions st) \<or> sd_sessions sdb = map (end_row sid user now) (sd_sessions (ts_sessions st))"
    by (auto simp: End_def split: if_splits)
  then show ?case
  proof
    assume "sd_sessions sdb = sd_sessions (ts_sessions st)"
    then show ?thesis by (intro trust_ok_cong [OF _ _ _ ends.prems]) simp_all
  next
    assume "sd_sessions sdb = map (end_row sid user now) (sd_sessions (ts_sessions st))"
    then show ?thesis
      by (rule trust_ok_sessions [OF ends.prems ended_row.session_update_axioms]) (simp add: end_row_def)
  qed
next
  case (touches now fs sid st err sdb)
  then have "sd_sessions sdb = sd_sessions (ts_sessions st) \<or> sd_sessions sdb = map (touch_row sid now) (sd_sessions (ts_sessions st))"
    by (auto simp: Touch_def split: if_splits)
  then show ?case
  proof
    assume "sd_sessions sdb = sd_sessions (ts_sessions st)"
    then show ?thesis by (intro trust_ok_cong [OF _ _ _ touches.prems]) simp_all
  next
    assume "sd_sessions sdb = map (touch_row sid now) (sd_sessions (ts_sessions st))"
    then show ?thesis
      by (rule trust_ok_sessions [OF touches.prems touched_row.session_update_axioms]) (simp add: touch_row_def)
  qed
next
  case (evaluates env sid trigger st res2 st')
  then show ?case by (rule trust_ok_Evaluate)
next
  case (reports ident now fs device sg pa st res3 pdb)
  then show ?case using postures_ok_Record [OF reports.hyps] by (simp add: trust_ok_def)
next
  case (others st ds ps decs profs incs evs ress)
  then show ?case by (simp add: trust_ok_def)
qed

lemma trust_run_ok: "trust_run st \<Longrightarrow> trust_ok st"
proof (induction rule: trust_run.induct)
  case (start st)
  then show ?case by (simp add: trust_ok_def risk_db_ok_def postures_ok_def)
qed (rule trust_ok_step)

text \<open>An ended session stays ended through every step.\<close>

definition ended :: "uuid \<Rightarrow> trust_state \<Rightarrow> bool" where
  "ended sid st \<longleftrightarrow> (\<exists>s \<in> set (sd_sessions (ts_sessions st)). s_ID s = sid \<and> s_Status s = StatusEnded)"

lemma ended_step: "trust_step st st' \<Longrightarrow> ended sid st \<Longrightarrow> ended sid st'"
proof (induction rule: trust_step.induct)
  case (begins edv addr st ident now fs r res sdb)
  from Begin_cases [OF begins.hyps] show ?case
    by (elim disjE exE conjE) (use begins.prems in \<open>auto simp: ended_def\<close>)
next
  case (challenges raw now fs user st res1 sdb)
  then show ?case by (auto simp: ended_def IssueNonce_def Let_def split: option.splits if_splits)
next
  case (ends now fs sid' user st err sdb)
  then show ?case
    using ended_row.ended_stays [of "sd_sessions (ts_sessions st)" sid] by (auto simp: ended_def End_def split: if_splits)
next
  case (touches now fs sid' st err sdb)
  then show ?case
    using touched_row.ended_stays [of "sd_sessions (ts_sessions st)" sid] by (auto simp: ended_def Touch_def split: if_splits)
next
  case (evaluates env sid' trigger st res2 st')
  then obtain upd where "session_update upd" "sd_sessions (ts_sessions st') = map upd (sd_sessions (ts_sessions st))"
    using evaluation_updates by blast
  then show ?case using session_update.ended_stays evaluates.prems unfolding ended_def by metis
qed (simp_all add: ended_def)

subsection \<open>A sample deployment\<close>

text \<open>One device, one active session on it, and the shipped rule on unattested sessions.\<close>

definition sample_policy :: Policy where
  "sample_policy = (last DefaultPolicies)\<lparr>p_ID := 1, p_Version := 1, p_CreatedBy := None, p_CreatedAt := 0\<rparr>"

definition sample_trust :: "AttestationMethod \<Rightarrow> trust_state" where
  "sample_trust method =
     \<lparr>ts_devices = \<lparr>dd_devices = [(enrolled_row 3 0 sample_enroll)\<lparr>d_LastHeartbeatAt := Some 0\<rparr>], dd_tokens = [], dd_nonces = []\<rparr>,
      ts_sessions = \<lparr>sd_sessions = [sample_session method], sd_nonces = []\<rparr>, ts_policies = [sample_policy], ts_decisions = [],
      ts_risks = \<lparr>rd_scores = [], rd_factors = []\<rparr>, ts_profiles = Map.empty, ts_postures = [],
      ts_incidents = \<lparr>id_incidents = [], id_events = [], id_notes = []\<rparr>, ts_events = [], ts_resources = Map.empty\<rparr>"

definition sample_env :: "faults \<Rightarrow> trust_env" where
  "sample_env fs =
     \<lparr>te_engine = NewEngine DefaultWeights DefaultThresholds, te_now = 0, te_recorded = 1000, te_started = 2000, te_elapsed = 10,
      te_opened = 3000, te_applied = 4000, te_logged = (5000, 6000), te_score_id = 11, te_incident_id = 12, te_decision_id = 13,
      te_event_ids = (14, 15), te_faults = fs, te_event_faults = ([], []), te_encodes = (\<lambda>_. True)\<rparr>"

lemma last_default: "last DefaultPolicies \<in> set DefaultPolicies"
  by (rule last_in_set) (simp add: DefaultPolicies_def)

lemma sample_policy_reachable: "policy_db_reachable [sample_policy]"
proof -
  have "Policy_Validate (last DefaultPolicies) = None \<and> fits16 (p_Priority (last DefaultPolicies))"
    using DefaultPolicies_valid last_default by (simp add: list_all_iff)
  then have "Create_policy 1 0 [] (last DefaultPolicies) None [] = (Inr sample_policy, [sample_policy])"
    by (simp add: Create_policy_def next_version_def sample_policy_def Let_def)
  with policy_db_reachable.create [OF policy_db_reachable.empty] show ?thesis by metis
qed

lemma sample_policy_denies: "denies_unattested sample_policy"
  using DefaultPolicies_valid last_default by (simp add: denies_unattested_def sample_policy_def list_all_iff)

lemma gather_no_profile:
  "ts_profiles st = Map.empty \<Longrightarrow> ts_postures st = [] \<Longrightarrow> printed_small (gather env session st)"
  by (simp add: printed_small_def gather_def Let_def Load_def posture_Latest_def device_rows_def newest_first_def
      CountRecentIncidents_def CountRecentDenials_def)

lemma sample_trust_sel [simp]:
  "sd_sessions (ts_sessions (sample_trust m)) = [sample_session m]" "ts_policies (sample_trust m) = [sample_policy]"
  "rd_scores (ts_risks (sample_trust m)) = []" "ts_postures (sample_trust m) = []" "ts_events (sample_trust m) = []"
  "ts_profiles (sample_trust m) = Map.empty" "ts_decisions (sample_trust m) = []"
  "s_ID (sample_session m) = 7" "s_Status (sample_session m) = StatusActive" "s_Attestation (sample_session m) = m"
  by (simp_all add: sample_trust_def sample_session_def)

lemma sample_devices_known: "devices_known (sample_trust m)"
  by (simp add: devices_known_def sample_trust_def sample_session_def enrolled_row_def)

lemma sample_evaluates: "\<exists>out st'. trust_Evaluate (sample_env []) 7 ''login'' (sample_trust m) = (Inr out, st')"
  by (rule evaluation_total)
    (simp_all add: sample_devices_known gather_no_profile sample_policy_reachable postures_ok_def,
     simp_all add: sample_env_def NewEngine_def go_div_nonneg microsecond_def)

subsection \<open>Properties\<close>

text \<open>
  C5: a decision is enforced on the session it was made for, and on no other.  After an evaluation
  that returns, every other session is as it was; the session shows the new score and level, is
  isolated if the decision was to deny or to isolate, restricted if it was to restrict, and keeps
  its status otherwise; a session that had ended stays ended whatever the decision.
\<close>

theorem evaluation_enforced:
  assumes "trust_Evaluate env sid trigger st = (Inr out, st')"
  shows "list_all2 (\<lambda>s s'. s_ID s' = s_ID s \<and>
      (if s_ID s = sid
       then s_CurrentRisk s' = Some (ra_Score (oc_Assessment out)) \<and>
         s_CurrentLevel s' = Level_string (ra_Level (oc_Assessment out)) \<and>
         s_Status s' = (if s_Status s = StatusEnded then StatusEnded
           else case rs_Decision (oc_Decision out) of
                  DecisionDeny \<Rightarrow> StatusIsolated | DecisionIsolate \<Rightarrow> StatusIsolated
                | DecisionRestrict \<Rightarrow> StatusRestricted | _ \<Rightarrow> s_Status s)
       else s' = s))
    (sd_sessions (ts_sessions st)) (sd_sessions (ts_sessions st'))"
  using success_rows [OF assms]
  by (auto simp: list_all2_map2 evaluated_row_def risk_update_def apply_row_def split: Decision.split option.split
      intro!: list_all2_refl)

theorem evaluation_enforced_witness:
  "\<exists>out st' s. trust_Evaluate (sample_env []) 7 ''login'' (sample_trust AttestationNone) = (Inr out, st') \<and>
     sd_sessions (ts_sessions st') = [s] \<and> s_CurrentRisk s = Some (ra_Score (oc_Assessment out))"
proof -
  obtain out st' where e: "trust_Evaluate (sample_env []) 7 ''login'' (sample_trust AttestationNone) = (Inr out, st')"
    using sample_evaluates by blast
  from evaluation_enforced [OF this] show ?thesis using e by (auto simp: list_all2_Cons1)
qed

text \<open>
  C10: an unattested session is isolated, end to end.  If the rule that denies unattested sessions is in
  force (the shipped conditions and actions, the only enabled version of its policy) and the identity
  weight is one, evaluating a session established without attestation decides to deny it and leaves it
  isolated, or ended if it had ended before.
\<close>

theorem unattested_isolated:
  assumes "trust_Evaluate env sid trigger st = (Inr out, st')" "W_Identity (e_weights (te_engine env)) = Fin 1"
    and "\<forall>s \<in> set (sd_sessions (ts_sessions st)). s_ID s = sid \<longrightarrow> s_Attestation s = AttestationNone"
    and "p \<in> set (ts_policies st)" "denies_unattested p"
      "\<forall>q \<in> set (ts_policies st). p_Enabled q \<and> p_PolicyID q = p_PolicyID p \<longrightarrow> q = p"
  shows "rs_Decision (oc_Decision out) = DecisionDeny \<and> oc_Applied out = StatusIsolated \<and>
    (\<forall>s \<in> set (sd_sessions (ts_sessions st')). s_ID s = sid \<longrightarrow> s_Status s \<in> {StatusIsolated, StatusEnded})"
proof -
  obtain session a sdb active where t: "loadSession (te_faults env) sid st = Inr session"
      "Evaluate (te_engine env) (gather env session st) = Some a" "oc_Assessment out = a\<lparr>ra_TriggerEvent := trigger\<rparr>"
      "Active_policies (te_faults env) (ts_policies st) = Inr active"
      "oc_Decision out = session_decision env active (oc_Assessment out) (in_ResourceSensitivity (gather env session st))"
      "enforce_decision env session (oc_Assessment out) (te_score_id env) (oc_Decision out)
         (st\<lparr>ts_risks := ts_risks st', ts_sessions := sdb\<rparr>) = (Inr out, st')"
    using trust_Inr [OF assms(1)] by metis
  have "\<not> in_SessionAttested (gather env session st)"
    using t(1) by (rule loadSession_Inr) (use assms(3) in simp)
  from unattested_code [OF this assms(2) t(2)]
  have code: "''UNATTESTED_SESSION'' \<in> set (map rf_Code (ra_Factors (oc_Assessment out)))" by (simp add: t(3))
  have "p \<in> set active" by (rule active_sole [OF t(4) assms(4) _ assms(6)]) (use assms(5) in \<open>simp add: denies_unattested_def\<close>)
  then have deny: "rs_Decision (oc_Decision out) = DecisionDeny"
    using unattested_rule_denies [OF _ _ _ assms(5), of _ active "te_started env" "te_elapsed env"] code
    by (simp add: t(5) session_decision_def)
  then have "oc_Applied out = StatusIsolated" using apply_sessions(2) [OF enforce_Inr(5) [OF t(6)]] by simp
  moreover have "s_Status s \<in> {StatusIsolated, StatusEnded}"
    if "s \<in> set (sd_sessions (ts_sessions st'))" "s_ID s = sid" for s
    using enforced_rows [OF assms(1) that(1,2), of StatusIsolated] deny by simp
  ultimately show ?thesis using deny by blast
qed

theorem unattested_isolated_witness:
  "\<exists>out st' s. trust_Evaluate (sample_env []) 7 ''login'' (sample_trust AttestationNone) = (Inr out, st') \<and>
     s \<in> set (sd_sessions (ts_sessions st')) \<and> s_ID s = 7 \<and> s_Status s \<in> {StatusIsolated, StatusEnded}"
proof -
  obtain out st' where e: "trust_Evaluate (sample_env []) 7 ''login'' (sample_trust AttestationNone) = (Inr out, st')"
    using sample_evaluates by blast
  have "W_Identity (e_weights (te_engine (sample_env []))) = Fin 1"
    by (simp add: sample_env_def NewEngine_def DefaultWeights_def)
  then have r: "\<forall>s \<in> set (sd_sessions (ts_sessions st')). s_ID s = 7 \<longrightarrow> s_Status s \<in> {StatusIsolated, StatusEnded}"
    by (rule conjunct2 [OF conjunct2 [OF unattested_isolated [OF e _ _ _ sample_policy_denies]]]) simp_all
  have "map s_ID (sd_sessions (ts_sessions st')) = [7]"
    using success_rows(2) [OF e] by (simp add: evaluated.upd_ids)
  then obtain s where "s \<in> set (sd_sessions (ts_sessions st'))" "s_ID s = 7" by (auto simp: map_eq_Cons_conv)
  with r e show ?thesis by blast
qed

text \<open>
  C12: every evaluation leaves its reasons.  An evaluation that returns has appended one score of the session
  with exactly the factors it reports, and one decision that names this score and the incident, if any;
  the decision cites a version of a policy that exists and is enabled, with the decision that version
  prescribes, or no policy applied and it is to allow.
\<close>

theorem evaluation_recorded:
  assumes "trust_Evaluate env sid trigger st = (Inr out, st')" "risk_db_ok (ts_risks st)" "policy_db_reachable (ts_policies st)"
  shows "\<exists>row drow. rd_scores (ts_risks st') = rd_scores (ts_risks st) @ [row] \<and> rr_SessionID row = sid \<and>
      rr_Score row = ra_Score (oc_Assessment out) \<and> rr_Level row = ra_Level (oc_Assessment out) \<and>
      rr_TriggerEvent row = trigger \<and>
      factors_of_score (rr_ID row) (ts_risks st') = ra_Factors (oc_Assessment out) \<and>
    ts_decisions st' = ts_decisions st @ [drow] \<and> pd_SessionID drow = sid \<and> pd_RiskScoreID drow = Some (rr_ID row) \<and>
      pd_Decision drow = rs_Decision (oc_Decision out) \<and> pd_IncidentID drow = oc_IncidentID out \<and>
      ((\<exists>p \<in> set (ts_policies st). p_Enabled p \<and> pd_PolicyID drow = Some (p_PolicyID p) \<and>
          pd_PolicyVersion drow = Some (p_Version p) \<and> pd_Decision drow = ac_Decision (p_Actions p)) \<or>
       pd_PolicyID drow = None \<and> pd_PolicyVersion drow = None \<and> pd_Decision drow = DecisionAllow)"
proof -
  obtain session a sdb active where t: "loadSession (te_faults env) sid st = Inr session"
      "Evaluate (te_engine env) (gather env session st) = Some a" "oc_Assessment out = a\<lparr>ra_TriggerEvent := trigger\<rparr>"
      "risk_Record (te_score_id env) (te_recorded env) (te_faults env) (sc_UserID session) (sc_DeviceID session)
         (oc_Assessment out) (ts_risks st) (ts_sessions st) = (Inr (te_score_id env), ts_risks st', sdb)"
      "Active_policies (te_faults env) (ts_policies st) = Inr active"
      "oc_Decision out = session_decision env active (oc_Assessment out) (in_ResourceSensitivity (gather env session st))"
      "enforce_decision env session (oc_Assessment out) (te_score_id env) (oc_Decision out)
         (st\<lparr>ts_risks := ts_risks st', ts_sessions := sdb\<rparr>) = (Inr out, st')"
    using trust_Inr [OF assms(1)] by metis
  let ?row = "score_row (te_score_id env) (sc_UserID session) (sc_DeviceID session) (oc_Assessment out)"
  have sid: "sc_SessionID session = sid" using t(1) by (rule loadSession_Inr) simp
  have scores: "rd_scores (ts_risks st') = rd_scores (ts_risks st) @ [?row] \<and>
      factors_of_score (te_score_id env) (ts_risks st') = ra_Factors (oc_Assessment out)"
    using t(4) by (rule risk_Record_cases) (simp_all add: factors_of_score_append [OF assms(2)])
  have row: "rr_SessionID ?row = sid" "rr_TriggerEvent ?row = trigger"
    using success_rows(1) [OF assms(1)] t(3) by (simp_all add: score_row_def)
  note written = enforce_Inr(4) [OF t(7)]
  obtain drow where d: "ts_decisions st' = ts_decisions st @ [drow]" "pd_SessionID drow = sid"
      "pd_RiskScoreID drow = Some (te_score_id env)" "pd_Decision drow = rs_Decision (oc_Decision out)"
      "pd_IncidentID drow = oc_IncidentID out"
      "pd_PolicyID drow = (if rs_PolicyID (oc_Decision out) = [] then None else Some (rs_PolicyID (oc_Decision out)))"
      "pd_PolicyVersion drow = (if rs_PolicyVersion (oc_Decision out) = 0 then None else Some (rs_PolicyVersion (oc_Decision out)))"
    by (rule RecordDecision_None [OF written]) (simp add: sid)
  have "(\<exists>p \<in> set (ts_policies st). p_Enabled p \<and> cites (oc_Decision out) p) \<or>
      oc_Decision out = (default_result (te_started env))\<lparr>rs_Latency := te_elapsed env\<rparr>"
    unfolding t(6) by (rule session_decision_source [OF t(5)])
  then have "(\<exists>p \<in> set (ts_policies st). p_Enabled p \<and> pd_PolicyID drow = Some (p_PolicyID p) \<and>
        pd_PolicyVersion drow = Some (p_Version p) \<and> pd_Decision drow = ac_Decision (p_Actions p)) \<or>
      pd_PolicyID drow = None \<and> pd_PolicyVersion drow = None \<and> pd_Decision drow = DecisionAllow"
    using d reachable_policies [OF assms(3)] by (fastforce simp: cites_def default_result_def)
  with scores row d show ?thesis by (intro exI [of _ ?row] exI [of _ drow]) simp
qed

theorem evaluation_recorded_witness:
  "\<exists>out st' row. trust_Evaluate (sample_env []) 7 ''login'' (sample_trust AttestationNone) = (Inr out, st') \<and>
     rd_scores (ts_risks st') = [row] \<and> rr_SessionID row = 7 \<and> rr_Score row = ra_Score (oc_Assessment out)"
proof -
  obtain out st' where e: "trust_Evaluate (sample_env []) 7 ''login'' (sample_trust AttestationNone) = (Inr out, st')"
    using sample_evaluates by blast
  have "risk_db_ok (ts_risks (sample_trust AttestationNone))" by (simp add: sample_trust_def risk_db_ok_def)
  from evaluation_recorded [OF e this] show ?thesis using e by (auto simp: sample_policy_reachable)
qed

text \<open>
  C17: an evaluation without database errors completes.  When no statement fails, the session exists with its
  device, the weights passed validation, the trust scores are in 0..100 and the numbers to print have at
  most eleven digits, the fresh identifier is fresh, and the policies are what creation lets in, the
  evaluation returns an outcome: the score, its factors and the decision fit their columns.
\<close>

theorem evaluation_completes:
  assumes "te_faults env = []" "devices_known st" "sid \<in> s_ID ` set (sd_sessions (ts_sessions st))"
    and "mset es = mset (weight_entries w)" "Weights_Validate es = None" "te_engine env = NewEngine w th" "postures_ok (ts_postures st)"
    and "\<And>session. loadSession [] sid st = Inr session \<Longrightarrow> printed_small (gather env session st)"
    and "te_score_id env \<notin> rr_ID ` set (rd_scores (ts_risks st))"
    and "policy_db_reachable (ts_policies st)" "\<bar>go_div (te_elapsed env) microsecond\<bar> < 2 ^ 31"
  shows "\<exists>out st'. trust_Evaluate env sid trigger st = (Inr out, st')"
  by (rule evaluation_total)
    (use assms Weights_Validate_weights_ok [OF assms(4)] in \<open>simp_all add: NewEngine_def\<close>)

theorem evaluation_completes_witness:
  "\<exists>out st'. trust_Evaluate (sample_env []) 7 ''login'' (sample_trust AttestationDeviceSignature) = (Inr out, st')"
proof (rule evaluation_completes [of _ _ _ "weight_entries DefaultWeights" DefaultWeights DefaultThresholds])
  show "Weights_Validate (weight_entries DefaultWeights) = None"
    by (simp add: weight_entries_def DefaultWeights_def)
qed (simp_all add: sample_devices_known gather_no_profile sample_policy_reachable postures_ok_def,
     simp_all add: sample_env_def go_div_nonneg microsecond_def)

text \<open>
  C8: every score a session shows is explained.  In every state the operations can reach, from a system
  without sessions and with any faults on the way, a session that shows a risk shows a score in 0..100 that was
  stored for this session with this level and with factors that sum to it.
\<close>

theorem every_score_explained:
  assumes "trust_run st" "s \<in> set (sd_sessions (ts_sessions st))" "s_CurrentRisk s = Some r"
  shows "0 \<le> r \<and> r \<le> 100 \<and> (\<exists>row \<in> set (rd_scores (ts_risks st)). rr_SessionID row = s_ID s \<and> rr_Score row = r \<and>
      Level_string (rr_Level row) = s_CurrentLevel s \<and>
      (\<Sum>f\<leftarrow>factors_of_score (rr_ID row) (ts_risks st). rf_Contribution f) = r)"
proof -
  have ok: "trust_ok st" using assms(1) by (rule trust_run_ok)
  then have "explained (ts_risks st) s" using assms(2) by (simp add: trust_ok_def)
  then obtain row where row: "row \<in> set (rd_scores (ts_risks st))" "rr_SessionID row = s_ID s" "rr_Score row = r"
      "Level_string (rr_Level row) = s_CurrentLevel s" "contributions (factors_of_score (rr_ID row) (ts_risks st)) = r"
    using assms(3) by (auto simp: explained_def)
  then have "0 \<le> r \<and> r \<le> 100" using ok by (auto simp: trust_ok_def)
  with row show ?thesis by (auto simp: contributions_def)
qed

definition sample_start :: trust_state where
  "sample_start = (sample_trust AttestationNone)\<lparr>ts_devices := sample_devices, ts_sessions := sample_challenges\<rparr>"

lemma sample_run: "\<exists>st s r. trust_run st \<and> s \<in> set (sd_sessions (ts_sessions st)) \<and> s_CurrentRisk s = Some r"
proof -
  obtain s0 sdb where b: "Begin (\<lambda>_ _ _. True) Some sample_devices 5 0 [] sample_begin sample_challenges = (Inr s0, sdb)"
    using sample_begins by blast
  then obtain d where d: "d \<in> set (dd_devices sample_devices)" "sd_sessions sdb = [session_row Some 5 0 sample_begin d]"
    using Begin_cases [OF b] by (auto simp: sample_challenges_def)
  define st where "st = sample_start\<lparr>ts_sessions := sdb\<rparr>"
  have "trust_run sample_start"
    by (rule trust_run.start) (simp_all add: sample_start_def sample_challenges_def sample_trust_def)
  moreover have "trust_step sample_start st"
    unfolding st_def by (rule begins) (use b in \<open>simp add: sample_start_def\<close>)
  ultimately have run: "trust_run st" by (rule trust_run.step)
  have st: "sd_sessions (ts_sessions st) = [session_row Some 5 0 sample_begin d]" "ts_policies st = [sample_policy]"
      "rd_scores (ts_risks st) = []" "ts_postures st = []" "ts_profiles st = Map.empty" "devices_known st"
    using d by (simp_all add: st_def sample_start_def devices_known_def session_row_def)
  have "\<exists>out st'. trust_Evaluate (sample_env []) 5 ''login'' st = (Inr out, st')"
    by (rule evaluation_total) (simp_all add: st gather_no_profile sample_policy_reachable postures_ok_def session_row_def,
        simp_all add: sample_env_def NewEngine_def go_div_nonneg microsecond_def)
  then obtain out st' where e: "trust_Evaluate (sample_env []) 5 ''login'' st = (Inr out, st')" by blast
  have "trust_step st st'" by (rule evaluates [OF _ e]) (simp add: sample_env_def NewEngine_def)
  with run have "trust_run st'" by (rule trust_run.step)
  moreover have "s_CurrentRisk (evaluated_row (sample_env []) (oc_Assessment out) (rs_Decision (oc_Decision out))
      (session_row Some 5 0 sample_begin d)) = Some (ra_Score (oc_Assessment out))"
    using success_rows(1) [OF e] by (simp add: evaluated_row_def risk_update_def apply_row_def session_row_def split: option.split)
  ultimately show ?thesis using success_rows(2) [OF e] st(1) by auto
qed

theorem every_score_explained_witness:
  "\<exists>st s r row. trust_run st \<and> s \<in> set (sd_sessions (ts_sessions st)) \<and> s_CurrentRisk s = Some r \<and> r \<le> 100 \<and>
     row \<in> set (rd_scores (ts_risks st)) \<and> rr_SessionID row = s_ID s"
proof -
  obtain st s r where "trust_run st" "s \<in> set (sd_sessions (ts_sessions st))" "s_CurrentRisk s = Some r"
    using sample_run by blast
  with every_score_explained [OF this] show ?thesis by blast
qed

text \<open>
  C16: an ended session never comes back.  Through any sequence of beginnings, endings, touches, evaluations with
  any outcome, posture reports and changes of the other tables, a session that has ended stays ended.
\<close>

theorem ended_session_final:
  assumes "trust_step\<^sup>*\<^sup>* st st'"
    and "\<exists>s \<in> set (sd_sessions (ts_sessions st)). s_ID s = sid \<and> s_Status s = StatusEnded"
  shows "\<exists>s \<in> set (sd_sessions (ts_sessions st')). s_ID s = sid \<and> s_Status s = StatusEnded"
  using assms
  by (induction rule: rtranclp_induct) (auto simp: ended_def [symmetric] dest: ended_step)

definition sample_ended :: trust_state where
  "sample_ended = (sample_trust AttestationNone)\<lparr>ts_sessions :=
     \<lparr>sd_sessions = [(sample_session AttestationNone)\<lparr>s_Status := StatusEnded, s_EndedAt := Some 0\<rparr>], sd_nonces = []\<rparr>\<rparr>"

theorem ended_session_final_witness:
  "\<exists>st' s. trust_Evaluate (sample_env []) 7 ''login'' sample_ended = (fst (trust_Evaluate (sample_env []) 7 ''login'' sample_ended), st') \<and>
     s \<in> set (sd_sessions (ts_sessions st')) \<and> s_ID s = 7 \<and> s_Status s = StatusEnded"
proof -
  let ?st' = "snd (trust_Evaluate (sample_env []) 7 ''login'' sample_ended)"
  have "trust_step sample_ended ?st'"
    by (rule evaluates [of "sample_env []" 7 "''login''" _ "fst (trust_Evaluate (sample_env []) 7 ''login'' sample_ended)"])
      (simp_all add: sample_env_def NewEngine_def)
  then have "trust_step\<^sup>*\<^sup>* sample_ended ?st'" by (rule r_into_rtranclp)
  from ended_session_final [OF this, of 7] show ?thesis by (auto simp: sample_ended_def intro!: exI [of _ ?st'])
qed

text \<open>
  C39: a decision that cannot be recorded is not enforced.  When the statement that records the decision fails, the
  evaluation returns an error and no session changes its status, whatever was decided: although
  the loop is careful not to let a missing incident stand in the way of enforcement, a missing
  decision record does.
\<close>

theorem unrecorded_not_enforced:
  assumes "fault (te_faults env) ''record policy decision''"
  shows "(\<exists>e. fst (trust_Evaluate env sid trigger st) = Inl e) \<and>
    map s_Status (sd_sessions (ts_sessions (snd (trust_Evaluate env sid trigger st)))) =
    map s_Status (sd_sessions (ts_sessions st))"
proof -
  obtain res st' where r: "trust_Evaluate env sid trigger st = (res, st')" by fastforce
  show ?thesis
  proof (cases res)
    case (Inr out)
    obtain session a rid decision st1 where "enforce_decision env session a rid decision st1 = (Inr out, st')"
      using trust_Inr [OF r [unfolded Inr]] by metis
    from enforce_Inr(4) [OF this] assms show ?thesis by (simp add: RecordDecision_def Let_def)
  next
    case (Inl e)
    have "map s_Status (sd_sessions (ts_sessions st')) = map s_Status (sd_sessions (ts_sessions st))"
    proof (rule trust_Inl [OF r [unfolded Inl]])
      fix session a rid
      assume "risk_Record (te_score_id env) (te_recorded env) (te_faults env) (sc_UserID session) (sc_DeviceID session)
         (a\<lparr>ra_TriggerEvent := trigger\<rparr>) (ts_risks st) (ts_sessions st) = (Inr rid, ts_risks st', ts_sessions st')"
      then show ?thesis by (rule risk_Record_cases) simp_all
    qed simp
    then show ?thesis using r Inl by simp
  qed
qed

theorem unrecorded_not_enforced_witness:
  "map s_Status (sd_sessions (ts_sessions (snd (trust_Evaluate (sample_env [''record policy decision'']) 7 ''login''
     (sample_trust AttestationNone))))) = [StatusActive]"
  using unrecorded_not_enforced [of "sample_env [''record policy decision'']" 7 "''login''" "sample_trust AttestationNone"]
  by (simp add: sample_env_def fault_def)

fun Sensitivity_rank :: "Sensitivity \<Rightarrow> nat" where
  "Sensitivity_rank SensitivityPublic = 1"
| "Sensitivity_rank SensitivityInternal = 2"
| "Sensitivity_rank SensitivitySensitive = 3"
| "Sensitivity_rank SensitivityCritical = 4"

lemma resource_rank_range: "1 \<le> resource_rank r \<and> resource_rank r \<le> 4"
  by (cases r rule: resource_rank.cases) auto

lemma foldr_max: "xs \<noteq> [] \<Longrightarrow> foldr max xs (0 :: nat) = Max (set xs)"
proof (induction xs)
  case (Cons x xs)
  then show ?case by (cases "xs = []") auto
qed simp

lemma peak_rank:
  assumes "session_ranks sid events resources \<noteq> []"
  shows "Sensitivity_rank (peakSensitivity [] sid events resources) = Max (set (session_ranks sid events resources))"
proof -
  let ?m = "Max (set (session_ranks sid events resources))"
  have "?m \<in> set (session_ranks sid events resources)" using assms by (intro Max_in) auto
  then have "1 \<le> ?m \<and> ?m \<le> 4" using resource_rank_range by (auto simp: session_ranks_def)
  moreover have "Sensitivity_rank (peakSensitivity [] sid events resources) = (if ?m = 4 \<or> ?m = 3 \<or> ?m = 1 then ?m else 2)"
    using assms by (simp add: peakSensitivity_def Let_def foldr_max)
  ultimately show ?thesis by (auto simp: le_Suc_eq numeral_eq_Suc)
qed

lemma session_ranks_append:
  "session_ranks sid (events @ later) resources = session_ranks sid events resources @ session_ranks sid later resources"
  by (simp add: session_ranks_def)

text \<open>
  The peak sensitivity is cumulative.  Once a session has an event, the sensitivity the loop uses is the highest
  among the resources its events name, and further events of any kind never lower it.
\<close>

theorem peak_cumulative:
  assumes "e \<in> set events" "er_SessionID e = Some sid"
  shows "Sensitivity_rank (peakSensitivity [] sid events resources) =
      Max {resource_rank (Option.bind (er_ResourceID e) resources) | e. e \<in> set events \<and> er_SessionID e = Some sid} \<and>
    Sensitivity_rank (peakSensitivity [] sid events resources) \<le>
      Sensitivity_rank (peakSensitivity [] sid (events @ later) resources)"
proof -
  have ne: "session_ranks sid events resources \<noteq> []"
    using assms by (auto simp: session_ranks_def filter_empty_conv)
  have "set (session_ranks sid events resources) =
      {resource_rank (Option.bind (er_ResourceID e) resources) | e. e \<in> set events \<and> er_SessionID e = Some sid}"
    by (auto simp: session_ranks_def)
  moreover have "Max (set (session_ranks sid events resources)) \<le> Max (set (session_ranks sid (events @ later) resources))"
    using ne by (intro Max_mono) (auto simp: session_ranks_append)
  ultimately show ?thesis
    using peak_rank [OF ne] peak_rank [of sid "events @ later" resources] ne by (simp add: session_ranks_append)
qed

definition sample_event :: event_row where
  "sample_event = \<lparr>er_ID = 1, er_OccurredAt = 0, er_ReceivedAt = 0, er_DeviceID = Some 3, er_UserID = Some 2, er_SessionID = Some 7,
     er_Type = TypeResourceAccess, er_ResourceID = Some 9, er_Severity = SeverityInfo, er_Source = SourceSimulator,
     er_Metadata = [], er_AgentEventID = None, er_BatchID = None\<rparr>"

theorem peak_cumulative_witness:
  "4 \<le> Sensitivity_rank (peakSensitivity [] 7 ([sample_event] @ [sample_event\<lparr>er_ResourceID := None\<rparr>]) [9 \<mapsto> SensitivityCritical])"
  using peak_cumulative [of sample_event "[sample_event]" 7 "[9 \<mapsto> SensitivityCritical]" "[sample_event\<lparr>er_ResourceID := None\<rparr>]"]
  by (simp add: sample_event_def)

text \<open>
  The loop's own events lower the sensitivity it assumes.  A session without events counts as having reached
  INTERNAL resources; once the first backend event is recorded for it, as every evaluation does, it counts as PUBLIC,
  so a policy on INTERNAL resources applies to the first evaluation only.
\<close>

theorem first_event_lowers_sensitivity:
  assumes "\<forall>e \<in> set events. er_SessionID e \<noteq> Some sid" "ev_SessionID ev = Some sid"
    and "RecordBackendEvent encodes ident now fs ev events = (None, events')"
  shows "peakSensitivity [] sid events resources = SensitivityInternal \<and>
    peakSensitivity [] sid events' resources = SensitivityPublic"
proof -
  have none: "session_ranks sid events resources = []" using assms(1) by (simp add: session_ranks_def filter_empty_conv)
  obtain e where "events' = events @ [e]" "er_SessionID e = Some sid" "er_ResourceID e = None"
    using assms(2,3) by (auto simp: RecordBackendEvent_def Let_def split: if_splits)
  then have "session_ranks sid events' resources = [1]" by (simp add: session_ranks_append none) (simp add: session_ranks_def)
  then show ?thesis by (simp add: peakSensitivity_def none)
qed

definition sample_context :: sessionContext where
  "sample_context = \<lparr>sc_SessionID = 7, sc_UserID = 2, sc_DeviceID = 3, sc_StartedAt = 0, sc_Status = StatusActive,
     sc_Attestation = AttestationNone, sc_SourceIP = [], sc_DeviceKeyProtection = [], sc_DeviceEnrolledAt = None,
     sc_DeviceHeartbeatAt = None\<rparr>"

theorem first_event_lowers_sensitivity_witness:
  "peakSensitivity [] 7 (snd (RecordBackendEvent (\<lambda>_. True) 1 0 [] (derived_event sample_context TypeRiskUpdate SeverityInfo []) []))
     Map.empty = SensitivityPublic"
proof -
  have "RecordBackendEvent (\<lambda>_. True) 1 0 [] (derived_event sample_context TypeRiskUpdate SeverityInfo []) [] =
      (None, snd (RecordBackendEvent (\<lambda>_. True) 1 0 [] (derived_event sample_context TypeRiskUpdate SeverityInfo []) []))"
    by (simp add: RecordBackendEvent_def derived_event_def pg_json_def Let_def)
  from first_event_lowers_sensitivity [OF _ _ this, of 7 Map.empty] show ?thesis
    by (simp add: derived_event_def sample_context_def)
qed

lemma trusted_or_at_risk:
  "length (filter (\<lambda>d. case trust d of None \<Rightarrow> False | Some t \<Rightarrow> t \<ge> (k :: int)) ds) +
   length (filter (\<lambda>d. case trust d of None \<Rightarrow> True | Some t \<Rightarrow> t < k) ds) = length ds"
  by (induction ds) (auto split: option.split)

lemma sum_length_classes:
  "finite A \<Longrightarrow> f ` set xs \<subseteq> A \<Longrightarrow> (\<Sum>a \<in> A. length (filter (\<lambda>x. f x = a) xs)) = length xs"
proof (induction xs)
  case (Cons x xs)
  have "(\<Sum>a \<in> A. length (filter (\<lambda>y. f y = a) (x # xs))) =
      (\<Sum>a \<in> A. (if f x = a then 1 else 0) + length (filter (\<lambda>y. f y = a) xs))"
    by (intro sum.cong) auto
  then show ?case using Cons by (simp add: sum.distrib)
qed simp

text \<open>
  The overview adds up.  Trusted and at-risk endpoints make up the active ones, the risk distribution counts every
  session that has not ended exactly once, and high-risk sessions are among them.
\<close>

theorem fleet_counts:
  "\<exists>m. fleet_summary [] st = Inr m \<and> fs_Trusted m + fs_AtRisk m = fs_Endpoints m \<and>
     fs_HighRiskSessions m \<le> fs_ActiveSessions m \<and>
     (\<Sum>level \<in> dom (fs_RiskDistribution m). the (fs_RiskDistribution m level)) = fs_ActiveSessions m"
proof -
  let ?open = "filter (\<lambda>s. s_Status s \<noteq> StatusEnded) (sd_sessions (ts_sessions st))"
  let ?dist = "\<lambda>level. let n = length (filter (\<lambda>s. shown_level s = level) ?open) in if n = 0 then None else Some n"
  obtain m where m: "fleet_summary [] st = Inr m" "fs_RiskDistribution m = ?dist" "fs_ActiveSessions m = length ?open"
      "fs_HighRiskSessions m = length (filter (\<lambda>s. s_CurrentLevel s \<in> {''HIGH'', ''CRITICAL''}) ?open)"
      "fs_Trusted m + fs_AtRisk m = fs_Endpoints m"
  proof
    let ?m = "case fleet_summary [] st of Inr m \<Rightarrow> m"
    show "fs_Trusted ?m + fs_AtRisk ?m = fs_Endpoints ?m" by (simp add: fleet_summary_def Let_def trusted_or_at_risk del: filter_filter)
  qed (simp_all add: fleet_summary_def Let_def del: filter_filter)
  have dom: "dom ?dist = shown_level ` set ?open"
    by (auto simp: dom_def Let_def filter_empty_conv split: if_splits)
  have "(\<Sum>level \<in> dom ?dist. the (?dist level)) =
      (\<Sum>level \<in> shown_level ` set ?open. length (filter (\<lambda>s. shown_level s = level) ?open))"
    unfolding dom by (intro sum.cong) (auto simp: Let_def filter_empty_conv)
  also have "\<dots> = length ?open" by (rule sum_length_classes) auto
  finally show ?thesis using m by (intro exI [of _ m]) (simp add: length_filter_le del: filter_filter)
qed

end
