(* ===== verification/RateLimit.thy ===== *)
theory RateLimit
  imports Float64
begin

section \<open>RateLimit: a fixed-window limiter per caller\<close>

text \<open>
  \<^verbatim>\<open>internal/httpapi/ratelimit.go\<close> with the address helpers of \<^verbatim>\<open>session_routes.go\<close>.  The limiter is a
  map from caller keys to buckets; \<open>allow\<close> counts a request and opens a new window once the old one
  is over, \<open>prune\<close> drops buckets whose window is over.  The mutex makes both atomic, so a
  run is a sequence of such steps.  The handler reads the clock twice, for the limiter and for the
  \<^verbatim>\<open>Retry-After\<close> header.  Shown: no caller gets more than twice the limit through in any span as long
  as the window, pruning is invisible, and a caller that waits as told is admitted again.
\<close>

subsection \<open>Definitions\<close>

record RateLimit =
  rl_Requests :: int
  rl_Window :: duration

record bucket =
  bk_count :: int
  bk_resetAt :: time

type_synonym buckets = "string \<rightharpoonup> bucket"

definition newLimiter :: buckets where
  "newLimiter = Map.empty"

definition allow :: "RateLimit \<Rightarrow> string \<Rightarrow> time \<Rightarrow> buckets \<Rightarrow> (bool \<times> time) \<times> buckets" where
  "allow l key now bs =
     (let entry = (case bs key of
                     Some b \<Rightarrow> if time_After now (bk_resetAt b)
                                then \<lparr>bk_count = 0, bk_resetAt = time_Add now (rl_Window l)\<rparr> else b
                   | None \<Rightarrow> \<lparr>bk_count = 0, bk_resetAt = time_Add now (rl_Window l)\<rparr>);
          entry = entry\<lparr>bk_count := wrap64 (bk_count entry + 1)\<rparr>
      in ((bk_count entry \<le> rl_Requests l, bk_resetAt entry), bs(key \<mapsto> entry)))"

definition prune_buckets :: "time \<Rightarrow> buckets \<Rightarrow> buckets" where
  "prune_buckets now bs =
     (\<lambda>key. case bs key of
              Some b \<Rightarrow> if time_After now (bk_resetAt b) then None else Some b
            | None \<Rightarrow> None)"

text \<open>\<open>i + 1\<close> stands for the loop variable at index \<open>i\<close>, 0 for the loop being over.\<close>

fun cutLast_loop :: "string \<Rightarrow> string \<Rightarrow> nat \<Rightarrow> string \<times> string \<times> bool" where
  "cutLast_loop s sep 0 = (s, [], False)"
| "cutLast_loop s sep (Suc i) =
     (if take (length sep) (drop i s) = sep then (take i s, drop (i + length sep) s, True)
      else cutLast_loop s sep i)"

definition cutLast :: "string \<Rightarrow> string \<Rightarrow> string \<times> string \<times> bool" where
  "cutLast s sep = cutLast_loop s sep (if length sep \<le> length s then length s - length sep + 1 else 0)"

record limited_request =
  lr_RemoteAddr :: string
  lr_DeviceHeader :: string

definition clientIP :: "limited_request \<Rightarrow> string" where
  "clientIP r =
     (let (host, _, found) = cutLast (lr_RemoteAddr r) '':''
      in if \<not> found then lr_RemoteAddr r else host)"

definition ByIP :: "limited_request \<Rightarrow> string" where
  "ByIP r = clientIP r"

definition ByDevice :: "limited_request \<Rightarrow> string" where
  "ByDevice r =
     (if lr_DeviceHeader r \<noteq> [] then ''device:'' @ lr_DeviceHeader r else ''ip:'' @ clientIP r)"

datatype limited_response =
  Served string
| TooManyRequests string string

definition RateLimited ::
  "RateLimit \<Rightarrow> (limited_request \<Rightarrow> string) \<Rightarrow> time \<Rightarrow> time \<Rightarrow> limited_request \<Rightarrow> buckets \<Rightarrow> limited_response \<times> buckets" where
  "RateLimited l key now later r bs =
     (let ((allowed, resetAt), bs) = allow l (key r) now bs;
          header = show_int (rl_Requests l)
      in if \<not> allowed
         then (let retryAfter = wrap64 (f64_to_int (Seconds (time_Sub resetAt later)) + 1)
               in (TooManyRequests header (show_int retryAfter), bs))
         else (Served header, bs))"

subsection \<open>Runs\<close>

text \<open>A step is a request of a caller or a tick of the housekeeping; a run logs the answers.\<close>

datatype limiter_step = Ask string time | Tick time

fun step_time :: "limiter_step \<Rightarrow> time" where
  "step_time (Ask k t) = t"
| "step_time (Tick t) = t"

type_synonym answer = "string \<times> time \<times> bool \<times> time"

fun limiter_exec :: "RateLimit \<Rightarrow> limiter_step \<Rightarrow> buckets \<Rightarrow> answer list \<times> buckets" where
  "limiter_exec l (Ask k t) bs = (let ((ok, reset), bs') = allow l k t bs in ([(k, t, ok, reset)], bs'))"
| "limiter_exec l (Tick t) bs = ([], prune_buckets t bs)"

fun limiter_run :: "RateLimit \<Rightarrow> limiter_step list \<Rightarrow> buckets \<Rightarrow> answer list \<times> buckets" where
  "limiter_run l [] bs = ([], bs)"
| "limiter_run l (x # xs) bs =
     (let (as, bs') = limiter_exec l x bs; (as', bs'') = limiter_run l xs bs' in (as @ as', bs''))"

fun admissions :: "string \<Rightarrow> answer list \<Rightarrow> time list" where
  "admissions k [] = []"
| "admissions k ((k', t, ok, reset) # as) = (if k' = k \<and> ok then t # admissions k as else admissions k as)"

subsection \<open>Windows do not overlap\<close>

text \<open>
  What a log says about one caller: every answer falls into the window it names, different windows
  are more than a window apart, a window is opened by a request that is admitted, and it admits no
  more requests than the limit.
\<close>

definition resets :: "string \<Rightarrow> answer list \<Rightarrow> time list" where
  "resets k as = map (\<lambda>(k, t, ok, r). r) (filter (\<lambda>(k', t, ok, r). k' = k) as)"

definition windows_ok :: "RateLimit \<Rightarrow> string \<Rightarrow> answer list \<Rightarrow> bool" where
  "windows_ok l k as \<longleftrightarrow>
     (\<forall>t ok r. (k, t, ok, r) \<in> set as \<longrightarrow> r - rl_Window l \<le> t \<and> t \<le> r) \<and>
     (\<forall>r \<in> set (resets k as). \<forall>r' \<in> set (resets k as). r < r' \<longrightarrow> r + rl_Window l < r') \<and>
     (\<forall>r \<in> set (resets k as). 1 \<le> rl_Requests l \<longrightarrow> (k, r - rl_Window l, True, r) \<in> set as) \<and>
     (\<forall>r. int (length (filter (\<lambda>(k', t, ok, r'). k' = k \<and> ok \<and> r' = r) as)) \<le> max 0 (rl_Requests l))"

definition bucket_ok :: "time \<Rightarrow> string \<Rightarrow> answer list \<Rightarrow> buckets \<Rightarrow> bool" where
  "bucket_ok T k as bs \<longleftrightarrow>
     (\<forall>t ok r. (k, t, ok, r) \<in> set as \<longrightarrow> t \<le> T) \<and>
     (case bs k of
        None \<Rightarrow> \<forall>r \<in> set (resets k as). r < T
      | Some b \<Rightarrow> bk_resetAt b \<in> set (resets k as) \<and> (\<forall>r \<in> set (resets k as). r \<le> bk_resetAt b) \<and>
          bk_count b = int (length (filter (\<lambda>r. r = bk_resetAt b) (resets k as))))"

lemma resets_simps [simp]:
  "resets k [] = []" "resets k (as @ as') = resets k as @ resets k as'"
  "resets k [(k', t, ok, r)] = (if k' = k then [r] else [])"
  by (simp_all add: resets_def)

lemma resets_mem: "(k, t, ok, r) \<in> set as \<Longrightarrow> r \<in> set (resets k as)"
  by (force simp: resets_def)

lemma length_resets: "length (resets k as) \<le> length as"
  by (simp add: resets_def)

lemma granted_le_resets:
  "length (filter (\<lambda>(k', t, ok, r'). k' = k \<and> ok \<and> r' = r) as) \<le> length (filter (\<lambda>x. x = r) (resets k as))"
  by (induction as) (auto simp: resets_def)

lemma limiter_run_append:
  "limiter_run l (xs @ ys) bs =
     (let (as, bs') = limiter_run l xs bs; (as', bs'') = limiter_run l ys bs' in (as @ as', bs''))"
  by (induction xs arbitrary: bs) (auto split: prod.splits)

lemma allow_other: "allow l k t bs = (a, bs') \<Longrightarrow> k' \<noteq> k \<Longrightarrow> bs' k' = bs k'"
  by (auto simp: allow_def Let_def)

text \<open>Either the open window takes the request, or a window that starts now does.\<close>

lemma allow_cases:
  assumes "allow l k t bs = ((ok, r), bs')"
  obtains (same) b where "bs k = Some b" "t \<le> bk_resetAt b" "r = bk_resetAt b"
      "ok \<longleftrightarrow> wrap64 (bk_count b + 1) \<le> rl_Requests l"
      "bs' = bs(k \<mapsto> \<lparr>bk_count = wrap64 (bk_count b + 1), bk_resetAt = r\<rparr>)"
  | (fresh) "\<forall>b. bs k = Some b \<longrightarrow> bk_resetAt b < t" "r = t + rl_Window l"
      "ok \<longleftrightarrow> 1 \<le> rl_Requests l" "bs' = bs(k \<mapsto> \<lparr>bk_count = 1, bk_resetAt = r\<rparr>)"
proof (cases "\<exists>b. bs k = Some b \<and> t \<le> bk_resetAt b")
  case True
  then obtain b where b: "bs k = Some b" "t \<le> bk_resetAt b" by blast
  with assms have "r = bk_resetAt b" "ok \<longleftrightarrow> wrap64 (bk_count b + 1) \<le> rl_Requests l"
      "bs' = bs(k \<mapsto> b\<lparr>bk_count := wrap64 (bk_count b + 1)\<rparr>)"
    by (auto simp: allow_def Let_def time_After_def)
  with b show ?thesis by (intro same) (cases b, auto)
next
  case False
  have one: "wrap64 1 = 1" by (simp add: wrap64_def)
  from False assms have "r = t + rl_Window l" "ok \<longleftrightarrow> 1 \<le> rl_Requests l"
      "bs' = bs(k \<mapsto> \<lparr>bk_count = 1, bk_resetAt = r\<rparr>)"
    by (auto simp: allow_def Let_def time_After_def time_Add_def one split: option.splits if_splits)
  with False show ?thesis by (intro fresh) auto
qed

lemma windows_ok_snoc:
  assumes ok: "windows_ok l k as" and t: "r - rl_Window l \<le> t" "t \<le> r"
    and far: "\<forall>r' \<in> set (resets k as). r' = r \<or> r' + rl_Window l < r"
    and room: "granted \<Longrightarrow> int (length (filter (\<lambda>x. x = r) (resets k as))) + 1 \<le> rl_Requests l"
    and opens: "r \<in> set (resets k as) \<or> t = r - rl_Window l \<and> (granted \<longleftrightarrow> 1 \<le> rl_Requests l)"
    and W: "0 \<le> rl_Window l"
  shows "windows_ok l k (as @ [(k, t, granted, r)])"
proof -
  let ?n = "\<lambda>r as. int (length (filter (\<lambda>(k', t, ok, r'). k' = k \<and> ok \<and> r' = r) as))"
  have "?n r' (as @ [(k, t, granted, r)]) \<le> max 0 (rl_Requests l)" for r'
  proof (cases "granted \<and> r' = r")
    case True
    then show ?thesis using room granted_le_resets [of k r as] by simp
  next
    case False
    then show ?thesis using ok by (auto simp: windows_ok_def)
  qed
  moreover have "\<forall>r' \<in> set (resets k (as @ [(k, t, granted, r)])). 1 \<le> rl_Requests l \<longrightarrow>
      (k, r' - rl_Window l, True, r') \<in> set (as @ [(k, t, granted, r)])"
    using ok opens by (auto simp: windows_ok_def)
  moreover have "\<forall>x \<in> insert r (set (resets k as)). \<forall>y \<in> insert r (set (resets k as)). x < y \<longrightarrow> x + rl_Window l < y"
    using ok far W unfolding windows_ok_def by fastforce
  ultimately show ?thesis using ok t unfolding windows_ok_def by simp
qed

lemma windows_ok_other: "k' \<noteq> k \<Longrightarrow> windows_ok l k (as @ [(k', t, granted, r)]) \<longleftrightarrow> windows_ok l k as"
  by (simp add: windows_ok_def)

lemma bucket_ok_mono:
  assumes "bucket_ok T k as bs" "T \<le> T'" shows "bucket_ok T' k as bs"
proof -
  have "\<forall>t ok r. (k, t, ok, r) \<in> set as \<longrightarrow> t \<le> T'" using assms unfolding bucket_ok_def by fastforce
  moreover have "bs k = None \<Longrightarrow> \<forall>r \<in> set (resets k as). r < T'" using assms unfolding bucket_ok_def by fastforce
  ultimately show ?thesis using assms(1) by (auto simp: bucket_ok_def split: option.splits)
qed

lemma limiter_ask_ok:
  assumes inv: "windows_ok l k as" "bucket_ok t k as bs" "int (length as) + 1 < 2 ^ 63" "0 \<le> rl_Window l"
    and run: "allow l k t bs = ((granted, r), bs')"
  shows "windows_ok l k (as @ [(k, t, granted, r)]) \<and> bucket_ok t k (as @ [(k, t, granted, r)]) bs'"
  using run
proof (cases rule: allow_cases)
  case (same b)
  let ?n = "int (length (filter (\<lambda>x. x = r) (resets k as)))"
  have b: "r \<in> set (resets k as)" "\<forall>r' \<in> set (resets k as). r' \<le> r" "bk_count b = ?n"
      and past: "\<forall>t' ok r. (k, t', ok, r) \<in> set as \<longrightarrow> t' \<le> t"
    using inv(2) same by (auto simp: bucket_ok_def)
  have "?n \<le> int (length as)" using length_resets [of k as] length_filter_le [of "\<lambda>x. x = r" "resets k as"] by linarith
  then have n: "wrap64 (?n + 1) = ?n + 1" using inv(3) by (intro wrap64_id) (auto simp: fits64_def)
  obtain t' ok' where "(k, t', ok', r) \<in> set as" using b(1) by (auto simp: resets_def)
  then have "r - rl_Window l \<le> t'" "t' \<le> t" using inv(1) past by (auto simp: windows_ok_def)
  moreover have "\<forall>r' \<in> set (resets k as). r' = r \<or> r' + rl_Window l < r"
    using inv(1) b(1,2) by (metis windows_ok_def order_less_le)
  ultimately have "windows_ok l k (as @ [(k, t, granted, r)])"
    using same b(1,3) n inv by (intro windows_ok_snoc) auto
  moreover have "bucket_ok t k (as @ [(k, t, granted, r)]) bs'"
    using past b same(5) n unfolding bucket_ok_def by auto
  ultimately show ?thesis ..
next
  case fresh
  have past: "\<forall>t' ok r. (k, t', ok, r) \<in> set as \<longrightarrow> t' \<le> t" and before: "\<forall>r' \<in> set (resets k as). r' < t"
    using inv(2) fresh(1) by (force simp: bucket_ok_def split: option.splits)+
  have none: "filter (\<lambda>x. x = r) (resets k as) = []"
    using before fresh(2) inv(4) by (auto simp: filter_empty_conv)
  have "windows_ok l k (as @ [(k, t, granted, r)])"
    using before fresh none inv(1,4) by (intro windows_ok_snoc) auto
  moreover have "bucket_ok t k (as @ [(k, t, granted, r)]) bs'"
    using past before fresh(2,4) none inv(4) unfolding bucket_ok_def by auto
  ultimately show ?thesis ..
qed

lemma limiter_step_ok:
  assumes inv: "windows_ok l k as" "bucket_ok T k as bs" "T \<le> step_time x" "int (length as) + 1 < 2 ^ 63" "0 \<le> rl_Window l"
    and run: "limiter_exec l x bs = (new, bs')"
  shows "windows_ok l k (as @ new) \<and> bucket_ok (step_time x) k (as @ new) bs'"
proof -
  note now = bucket_ok_mono [OF inv(2,3)]
  show ?thesis
proof (cases x)
  case (Ask k' t)
  obtain granted r where a: "allow l k' t bs = ((granted, r), bs')" and new: "new = [(k', t, granted, r)]"
    using run Ask by (auto split: prod.splits)
  show ?thesis
  proof (cases "k' = k")
    case True
    show ?thesis using limiter_ask_ok [OF inv(1) _ inv(4,5), of t bs] now a Ask new True by simp
  next
    case False
    then have "bs' k = bs k" using allow_other [OF a] by simp
    with inv(1) now False show ?thesis
      unfolding Ask new windows_ok_other [OF False] bucket_ok_def by (auto split: option.splits)
  qed
next
  case (Tick t)
  then show ?thesis
    using inv(1) now run by (fastforce simp: bucket_ok_def prune_buckets_def time_After_def split: option.splits if_splits)
qed
qed

lemma limiter_run_ok:
  assumes "sorted (map step_time xs)" "int (length xs) < 2 ^ 63" "0 \<le> rl_Window l"
    and "limiter_run l xs newLimiter = (as, bs)"
  shows "windows_ok l k as \<and> length as \<le> length xs \<and>
    (\<forall>T. (\<forall>x \<in> set xs. step_time x \<le> T) \<longrightarrow> bucket_ok T k as bs)"
  using assms
proof (induction xs arbitrary: as bs rule: rev_induct)
  case Nil
  then show ?case by (auto simp: windows_ok_def bucket_ok_def newLimiter_def)
next
  case (snoc x xs)
  obtain as1 bs1 new where run: "limiter_run l xs newLimiter = (as1, bs1)" "limiter_exec l x bs1 = (new, bs)"
      "as = as1 @ new"
    using snoc.prems(4) by (auto simp: limiter_run_append split: prod.splits)
  have before: "\<forall>y \<in> set xs. step_time y \<le> step_time x" using snoc.prems(1) by (simp add: sorted_append)
  have "length new \<le> 1" using run(2) by (cases x) (auto split: prod.splits)
  moreover from snoc.IH [OF _ _ _ run(1)] snoc.prems
  have ih: "windows_ok l k as1" "length as1 \<le> length xs" "bucket_ok (step_time x) k as1 bs1"
    using before by (auto simp: sorted_append)
  moreover have "windows_ok l k (as1 @ new) \<and> bucket_ok (step_time x) k (as1 @ new) bs"
    using snoc.prems(2) ih by (intro limiter_step_ok [OF ih(1,3) _ _ snoc.prems(3) run(2)]) auto
  moreover have "bucket_ok T k as bs" if "bucket_ok (step_time x) k as bs" "step_time x \<le> T" for T
    using that by (rule bucket_ok_mono)
  ultimately show ?case using run(3) by auto
qed

lemma filter_two_values:
  "\<forall>x \<in> set xs. P x \<longrightarrow> f x = a \<or> f x = b \<Longrightarrow>
   length (filter P xs) \<le> length (filter (\<lambda>x. P x \<and> f x = a) xs) + length (filter (\<lambda>x. P x \<and> f x = b) xs)"
  by (induction xs) auto

lemma admissions_filter:
  "length (filter Q (admissions k as)) = length (filter (\<lambda>(k', t, ok, r). k' = k \<and> ok \<and> Q t) as)"
  by (induction k as rule: admissions.induct) auto

lemma length_filter_strict:
  "x \<in> set xs \<Longrightarrow> Q x \<Longrightarrow> \<not> P x \<Longrightarrow> \<forall>y \<in> set xs. P y \<longrightarrow> Q y \<Longrightarrow> length (filter P xs) < length (filter Q xs)"
proof (induction xs)
  case (Cons y ys)
  have "length (filter P ys) \<le> length (filter Q ys)" using Cons.prems(4) by (induction ys) auto
  then show ?case using Cons by auto
qed simp

lemma windows_bound:
  assumes ok: "windows_ok l k as" and W: "0 \<le> rl_Window l" and n: "1 \<le> rl_Requests l"
  shows "int (length (filter (\<lambda>(k', t, ok, r). k' = k \<and> ok \<and> a \<le> t \<and> t \<le> a + rl_Window l) as)) < 2 * rl_Requests l"
    (is "int (length (filter ?P as)) < _")
proof -
  let ?f = "\<lambda>(k', t, ok, r). r" and ?S = "set (filter ?P as)"
  let ?all = "\<lambda>r. filter (\<lambda>(k', t, ok, r'). k' = k \<and> ok \<and> r' = r) as"
  have all: "int (length (?all r)) \<le> rl_Requests l" for r using ok n unfolding windows_ok_def by fastforce
  have sub: "length (filter (\<lambda>x. ?P x \<and> ?f x = r) as) \<le> length (?all r)" for r
    by (induction as) auto
  have dist: "r < r' \<Longrightarrow> r + rl_Window l < r'" if "(k, t, b, r) \<in> set as" "(k, t', b', r') \<in> set as" for t b r t' b' r'
    using ok resets_mem [OF that(1)] resets_mem [OF that(2)] unfolding windows_ok_def by blast
  have inside: "r - rl_Window l \<le> t \<and> t \<le> r" if "(k, t, b, r) \<in> set as" for t b r
    using ok that unfolding windows_ok_def by blast
  show ?thesis
  proof (cases "filter ?P as = []")
    case True
    then show ?thesis using n by (simp only: list.size)
  next
    case False
    define r1 r2 where "r1 = Min (?f ` ?S)" and "r2 = Max (?f ` ?S)"
    have fin: "finite (?f ` ?S)" "?f ` ?S \<noteq> {}" using False by (simp_all only: finite_imageI finite_set image_is_empty set_empty not_False_eq_True)
    have "r1 \<in> ?f ` ?S" "r2 \<in> ?f ` ?S" unfolding r1_def r2_def using fin by (rule Min_in, rule Max_in)
    then obtain t1 t2 where e1: "(k, t1, True, r1) \<in> set as" "a \<le> t1" "t1 \<le> a + rl_Window l"
      and e2: "(k, t2, True, r2) \<in> set as" "a \<le> t2" "t2 \<le> a + rl_Window l" by auto
    have two: "?f x = r1 \<or> ?f x = r2" if mem: "x \<in> set as" "?P x" for x
    proof -
      obtain t r where x: "x = (k, t, True, r)" using mem by (cases x) auto
      have "?f x \<in> ?f ` ?S" using mem by (intro imageI) simp
      then have "r1 \<le> r" "r \<le> r2" using fin unfolding r1_def r2_def x by auto
      moreover have False if "r1 < r" "r < r2"
        using dist [OF e1(1) mem(1) [unfolded x]] dist [OF mem(1) [unfolded x] e2(1)]
          inside [OF e1(1)] inside [OF e2(1)] e1 e2 that by linarith
      ultimately show ?thesis using x by fastforce
    qed
    show ?thesis
    proof (cases "r1 = r2")
      case True
      then have "filter ?P as = filter (\<lambda>x. ?P x \<and> ?f x = r1) as" using two by (intro filter_cong) auto
      with sub [of r1] have "length (filter ?P as) \<le> length (?all r1)" by simp
      then show ?thesis using all [of r1] n by linarith
    next
      case False
      have "r1 \<le> r2" using fin unfolding r1_def r2_def by (meson Max_ge Min_in)
      with False have "r1 + rl_Window l < r2" using dist [OF e1(1) e2(1)] by simp
      then have out: "r1 - rl_Window l < a" using inside [OF e2(1)] e2(3) by linarith
      have "(k, r1 - rl_Window l, True, r1) \<in> set as"
        using ok n resets_mem [OF e1(1)] unfolding windows_ok_def by blast
      with out have "length (filter (\<lambda>x. ?P x \<and> ?f x = r1) as) < length (?all r1)"
        by (intro length_filter_strict) auto
      then show ?thesis
        using filter_two_values [of as ?P ?f r1 r2] two sub [of r2] all [of r1] all [of r2] by auto
    qed
  qed
qed

text \<open>A bucket may be missing once its window is over; the rest of the run cannot tell.\<close>

definition pruned :: "time \<Rightarrow> buckets \<Rightarrow> buckets \<Rightarrow> bool" where
  "pruned T bs full \<longleftrightarrow> (\<forall>k. bs k = full k \<or> bs k = None \<and> (\<exists>b. full k = Some b \<and> bk_resetAt b < T))"

lemma pruned_mono: "pruned T bs full \<Longrightarrow> T \<le> T' \<Longrightarrow> pruned T' bs full"
  unfolding pruned_def by (meson order_less_le_trans)

lemma pruned_allow:
  assumes "pruned t bs full" shows "fst (allow l k t bs) = fst (allow l k t full)"
    "pruned t (snd (allow l k t bs)) (snd (allow l k t full))"
proof -
  have "fst (allow l k t bs) = fst (allow l k t full) \<and> snd (allow l k t bs) k = snd (allow l k t full) k"
    using assms by (auto simp: pruned_def allow_def Let_def time_After_def dest!: spec [of _ k])
  moreover have "snd (allow l k t b) k' = b k'" if "k' \<noteq> k" for b k'
    using that by (simp add: allow_def Let_def)
  ultimately show "fst (allow l k t bs) = fst (allow l k t full)"
      "pruned t (snd (allow l k t bs)) (snd (allow l k t full))"
    using assms unfolding pruned_def by metis+
qed

lemma pruned_tick: "pruned t bs full \<Longrightarrow> pruned t (prune_buckets t bs) full"
  unfolding pruned_def
proof (rule allI)
  fix k
  assume "\<forall>k. bs k = full k \<or> bs k = None \<and> (\<exists>b. full k = Some b \<and> bk_resetAt b < t)"
  then have "bs k = full k \<or> bs k = None \<and> (\<exists>b. full k = Some b \<and> bk_resetAt b < t)" ..
  then show "prune_buckets t bs k = full k \<or>
      prune_buckets t bs k = None \<and> (\<exists>b. full k = Some b \<and> bk_resetAt b < t)"
    by (auto simp: prune_buckets_def time_After_def split: option.splits)
qed

lemma pruned_run:
  assumes "sorted (map step_time xs)" "\<forall>x \<in> set xs. pruned (step_time x) bs full"
  shows "fst (limiter_run l xs bs) =
    fst (limiter_run l (filter (\<lambda>x. case x of Ask _ _ \<Rightarrow> True | Tick _ \<Rightarrow> False) xs) full)"
  using assms
proof (induction xs arbitrary: bs full)
  case (Cons x xs)
  show ?case
  proof (cases x)
    case (Ask k t)
    from Cons.prems(2) Ask have p: "pruned t bs full" by simp
    have "\<forall>y \<in> set xs. pruned (step_time y) (snd (allow l k t bs)) (snd (allow l k t full))"
      using Cons.prems(1) Ask pruned_mono [OF pruned_allow(2) [OF p]] by auto
    with Cons.IH [OF _ this] Cons.prems(1) pruned_allow(1) [OF p, of l k] show ?thesis
      by (simp add: Ask split: prod.splits) (metis fst_conv snd_conv)
  next
    case (Tick t)
    from Cons.prems(2) Tick have p: "pruned t bs full" by simp
    have "\<forall>y \<in> set xs. pruned (step_time y) (prune_buckets t bs) full"
      using Cons.prems(1) Tick pruned_mono [OF pruned_tick [OF p]] by auto
    with Cons.IH [OF _ this] Cons.prems(1) show ?thesis by (simp add: Tick split: prod.splits)
  qed
qed simp

lemma resets_entry: "r \<in> set (resets k as) \<Longrightarrow> \<exists>t ok. (k, t, ok, r) \<in> set as"
  by (auto simp: resets_def)

text \<open>Steps of other callers and ticks leave a bucket alone or drop it.\<close>

lemma idle_key:
  assumes "\<forall>x \<in> set xs. \<forall>t. x \<noteq> Ask k t"
  shows "snd (limiter_run l xs bs) k = bs k \<or> snd (limiter_run l xs bs) k = None"
  using assms
proof (induction xs arbitrary: bs)
  case (Cons x xs)
  have "snd (limiter_exec l x bs) k = bs k \<or> snd (limiter_exec l x bs) k = None"
    using Cons.prems by (cases x) (auto simp: allow_def Let_def prune_buckets_def split: option.splits)
  moreover have "snd (limiter_run l (x # xs) bs) = snd (limiter_run l xs (snd (limiter_exec l x bs)))"
    by (simp split: prod.splits)
  ultimately show ?case using Cons.IH [of "snd (limiter_exec l x bs)"] Cons.prems by auto
qed simp

lemma Seconds_enough:
  assumes "0 \<le> d" "d < 2 ^ 63"
  shows "d < wrap64 (f64_to_int (Seconds d) + 1) * second"
proof -
  define s n where "s = d div second" and "n = d mod second"
  have s: "0 \<le> s" "s < 2 ^ 34" and n: "0 \<le> n" "n < second" and d: "d = s * second + n"
    using assms unfolding s_def n_def second_def by auto
  have "0 \<le> (of_int n :: rat) / of_int second" "(of_int n :: rat) / of_int second \<le> 1"
    using n by (simp_all add: second_def)
  then have q: "f64_round (of_int n / of_int second) = Fin (fround (of_int n / of_int second))"
      "0 \<le> fround (of_int n / of_int second)" "fround (of_int n / of_int second) \<le> 1"
    using f64_round_range [of 0 "of_int n / of_int second" 1] by simp_all
  define x where "x = fround (of_int s + fround (of_int n / of_int second))"
  have x: "f64_round (of_int s + fround (of_int n / of_int second)) = Fin x" "of_int s \<le> x" "x \<le> of_int (s + 1)"
    using f64_round_range [of s "of_int s + fround (of_int n / of_int second)" "s + 1"] q s unfolding x_def by simp_all
  have "go_div d second = s" "d - s * second = n" "f64_of_int s = Fin (of_int s)" "f64_of_int n = Fin (of_int n)"
      "f64_of_int second = Fin (of_int second)" "of_int second \<noteq> (0 :: rat)"
    subgoal using assms(1) by (simp add: go_div_nonneg s_def second_def)
    subgoal using d by linarith
    subgoal using s by (intro f64_of_int_small) simp
    subgoal using n by (intro f64_of_int_small) (simp add: second_def)
    subgoal by (intro f64_of_int_small) (simp add: second_def)
    subgoal by (simp add: second_def)
    done
  then have "Seconds d = Fin x" using x(1) q(1) by (simp add: Seconds_def Let_def)
  moreover have fits: "fits64 k" if "s \<le> k" "k \<le> s + 2" for k using that s by (simp add: fits64_def)
  moreover have "f64_to_int (Fin x) = \<lfloor>x\<rfloor>" using f64_to_int_trunc(1) [of x "s + 2"] s x by simp
  moreover have "s \<le> \<lfloor>x\<rfloor>" "\<lfloor>x\<rfloor> \<le> s + 1" using x by (simp_all add: le_floor_iff floor_le_iff)
  moreover from this have "wrap64 (\<lfloor>x\<rfloor> + 1) = \<lfloor>x\<rfloor> + 1" by (intro wrap64_id fits) linarith+
  ultimately have "s + 1 \<le> wrap64 (f64_to_int (Seconds d) + 1)" by simp
  then have "(s + 1) * second \<le> wrap64 (f64_to_int (Seconds d) + 1) * second"
    by (intro mult_right_mono) (simp_all add: second_def)
  then show ?thesis using n d by (simp add: distrib_right)
qed

definition sample_limit :: RateLimit where
  "sample_limit = \<lparr>rl_Requests = 2, rl_Window = 10\<rparr>"

definition sample_steps :: "limiter_step list" where
  "sample_steps = [Ask ''k'' 0, Ask ''k'' 10, Tick 10, Ask ''k'' 11, Ask ''k'' 11, Ask ''k'' 11]"

lemma sample_admissions: "admissions ''k'' (fst (limiter_run sample_limit sample_steps newLimiter)) = [0, 10, 11, 11]"
  by code_simp

text \<open>
  C30: a caller gets less than twice the limit through.  Along every run under a clock that does not go
  backwards, in any span of time as long as the window, fewer than twice the permitted requests of one
  key are admitted, however the requests are spread over windows and whenever buckets are pruned.
\<close>

theorem burst_bound:
  assumes "sorted (map step_time xs)" "int (length xs) < 2 ^ 63" "0 \<le> rl_Window l" "1 \<le> rl_Requests l"
  shows "int (length (filter (\<lambda>t. a \<le> t \<and> t \<le> a + rl_Window l)
      (admissions k (fst (limiter_run l xs newLimiter))))) < 2 * rl_Requests l"
proof -
  let ?as = "fst (limiter_run l xs newLimiter)" and ?W = "rl_Window l" and ?n = "rl_Requests l"
  have ok: "windows_ok l k ?as" using limiter_run_ok [OF assms(1-3)] by (metis prod.collapse)
  show ?thesis
    using windows_bound [OF ok assms(3,4)] by (simp add: admissions_filter)
qed

theorem burst_bound_witness:
  "int (length (filter (\<lambda>t. 1 \<le> t \<and> t \<le> 1 + rl_Window sample_limit)
      (admissions ''k'' (fst (limiter_run sample_limit sample_steps newLimiter))))) < 2 * rl_Requests sample_limit \<and>
   admissions ''k'' (fst (limiter_run sample_limit sample_steps newLimiter)) = [0, 10, 11, 11]"
  using burst_bound [of sample_steps sample_limit 1 "''k''"] sample_admissions
  by (simp add: sample_steps_def sample_limit_def del: limiter_run.simps)

text \<open>
  Pruning is invisible.  Under a clock that does not go backwards, the housekeeping ticks can be
  inserted or left out anywhere without changing a single answer.
\<close>

theorem pruning_invisible:
  assumes "sorted (map step_time xs)"
  shows "fst (limiter_run l xs newLimiter) =
    fst (limiter_run l (filter (\<lambda>x. case x of Ask _ _ \<Rightarrow> True | Tick _ \<Rightarrow> False) xs) newLimiter)"
  using pruned_run [of xs newLimiter newLimiter l] assms by (simp add: pruned_def)

theorem pruning_invisible_witness:
  "fst (limiter_run \<lparr>rl_Requests = 1, rl_Window = 10\<rparr> [Ask ''k'' 0, Tick 11, Ask ''k'' 11] newLimiter) =
   fst (limiter_run \<lparr>rl_Requests = 1, rl_Window = 10\<rparr> [Ask ''k'' 0, Ask ''k'' 11] newLimiter)"
  using pruning_invisible [of "[Ask ''k'' 0, Tick 11, Ask ''k'' 11]" "\<lparr>rl_Requests = 1, rl_Window = 10\<rparr>"] by simp

text \<open>
  Waiting as told is enough.  A caller that is refused and comes back no earlier than the
  seconds in \<^verbatim>\<open>Retry-After\<close> say is admitted, if the key was not used in between; the header is a whole
  number of seconds computed in floating point, at a later reading of the clock.
\<close>

theorem retry_after_admits:
  assumes "sorted (map step_time ys)" "int (length ys) < 2 ^ 63" "\<forall>y \<in> set ys. step_time y \<le> now" "now \<le> later"
    and "0 \<le> rl_Window l" "rl_Window l \<le> max_duration" "1 \<le> rl_Requests l"
    and "RateLimited l key now later r (snd (limiter_run l ys newLimiter)) = (TooManyRequests header wait, bs)"
    and "\<forall>x \<in> set xs. \<forall>t. x \<noteq> Ask (key r) t"
  shows "\<exists>n. wait = show_int n \<and>
    (\<forall>t. later + max 0 (n * second) \<le> t \<longrightarrow> fst (fst (allow l (key r) t (snd (limiter_run l xs bs)))))"
proof -
  let ?bs = "snd (limiter_run l ys newLimiter)"
  obtain reset where a: "allow l (key r) now ?bs = ((False, reset), bs)"
      and wait: "wait = show_int (wrap64 (f64_to_int (Seconds (time_Sub reset later)) + 1))"
    using assms(8) by (auto simp: RateLimited_def Let_def split: prod.splits if_splits)
  obtain b where b: "?bs (key r) = Some b" "reset = bk_resetAt b" "\<exists>c. bs (key r) = Some c \<and> bk_resetAt c = reset"
    using a by (cases rule: allow_cases) (use assms(7) in auto)
  obtain as where run: "limiter_run l ys newLimiter = (as, ?bs)" by (metis prod.collapse)
  have win: "windows_ok l (key r) as" "bucket_ok now (key r) as ?bs"
    using limiter_run_ok [OF assms(1,2,5) run] assms(3) by blast+
  then have "reset \<in> set (resets (key r) as)" unfolding bucket_ok_def b(1,2) by simp
  then obtain t ok where "(key r, t, ok, reset) \<in> set as" using resets_entry by blast
  then have near: "reset - rl_Window l \<le> now" using win unfolding windows_ok_def bucket_ok_def by fastforce
  have admit: "fst (fst (allow l (key r) t (snd (limiter_run l xs bs))))" if "reset < t" for t
  proof -
    obtain ok reset' bs' where a': "allow l (key r) t (snd (limiter_run l xs bs)) = ((ok, reset'), bs')" by (metis prod.collapse)
    then have ok by (cases rule: allow_cases) (use idle_key [OF assms(9), of l bs] b(3) that assms(7) in auto)
    then show ?thesis using a' by simp
  qed
  show ?thesis
  proof (intro exI conjI allI impI, rule wait, rule admit)
    fix t assume t: "later + max 0 (wrap64 (f64_to_int (Seconds (time_Sub reset later)) + 1) * second) \<le> t"
    show "reset < t"
    proof (cases "reset < later")
      case False
      then have d: "time_Sub reset later = reset - later" "0 \<le> reset - later" "reset - later < 2 ^ 63"
        using near assms(4,6) by (auto simp: time_Sub_def min_duration_def max_duration_def)
      from Seconds_enough [OF d(2,3)] t d(1) show ?thesis by simp
    qed (use t in linarith)
  qed
qed

theorem retry_after_admits_witness:
  "\<exists>wait bs n. RateLimited sample_limit ByIP 5 5 \<lparr>lr_RemoteAddr = ''k:9'', lr_DeviceHeader = []\<rparr>
     (snd (limiter_run sample_limit [Ask ''k'' 0, Ask ''k'' 1] newLimiter)) = (TooManyRequests ''2'' wait, bs) \<and>
   wait = show_int n \<and> fst (fst (allow sample_limit ''k'' (5 + max 0 (n * second)) bs))"
proof -
  let ?r = "\<lparr>lr_RemoteAddr = ''k:9'', lr_DeviceHeader = []\<rparr>"
  let ?bs = "snd (limiter_run sample_limit [Ask ''k'' 0, Ask ''k'' 1] newLimiter)"
  have key: "ByIP ?r = ''k''" by (simp add: ByIP_def clientIP_def cutLast_def eval_nat_numeral)
  have "\<not> fst (fst (allow sample_limit ''k'' 5 ?bs))" "show_int (rl_Requests sample_limit) = ''2''" by code_simp+
  then obtain reset bs where "allow sample_limit (ByIP ?r) 5 ?bs = ((False, reset), bs)"
      "show_int (rl_Requests sample_limit) = ''2''" unfolding key by (metis prod.collapse)
  then obtain wait where "RateLimited sample_limit ByIP 5 5 ?r ?bs = (TooManyRequests ''2'' wait, bs)"
    by (simp only: RateLimited_def Let_def prod.case if_True not_False_eq_True)
  moreover from retry_after_admits [OF _ _ _ _ _ _ _ this, of "[]"]
  obtain n where "wait = show_int n" "fst (fst (allow sample_limit ''k'' (5 + max 0 (n * second)) bs))"
    unfolding key by (auto simp: sample_limit_def max_duration_def)
  ultimately show ?thesis by blast
qed

end
