(* ===== verification/Identity.thy ===== *)
theory Identity
  imports AuditLog Float64 "HOL-Library.Sublist"
begin

section \<open>Identity: tokens, users and authorization\<close>

text \<open>
  Packages \<^verbatim>\<open>internal/identity\<close> (\<^verbatim>\<open>claims.go\<close>, \<^verbatim>\<open>dev.go\<close>, \<^verbatim>\<open>verifier.go\<close>), \<^verbatim>\<open>internal/user\<close> (\<^verbatim>\<open>user.go\<close>) and
  \<^verbatim>\<open>internal/auth\<close> (\<^verbatim>\<open>auth.go\<close>): from a bearer token to a principal that holds roles.

  Parameters, for the libraries that verify tokens: \<open>sign\<close> and \<open>parse\<close> stand for \<^verbatim>\<open>golang-jwt\<close> (the text
  of a signed claim set; the claim set of a text that is signed with the key, carries the issuer and
  has not expired at the given time), \<open>discover\<close> and \<open>check\<close> for \<^verbatim>\<open>go-oidc\<close> (whether the provider
  answers; the payload of a text that it accepts).  The handler behind the middleware is not part of it:
  the result says whether it is reached, and with which principal.
\<close>

subsection \<open>claims.go\<close>

datatype Role = RoleUser | RoleAnalyst | RoleAdmin | RoleAuditor

fun Role_string :: "Role \<Rightarrow> string" where
  "Role_string RoleUser = ''USER''"
| "Role_string RoleAnalyst = ''SECURITY_ANALYST''"
| "Role_string RoleAdmin = ''ADMIN''"
| "Role_string RoleAuditor = ''AUDITOR''"

definition knownRoles :: "(string \<times> Role) list" where
  "knownRoles = [(Role_string RoleUser, RoleUser), (Role_string RoleAnalyst, RoleAnalyst),
     (Role_string RoleAdmin, RoleAdmin), (Role_string RoleAuditor, RoleAuditor)]"

definition ParseRole :: "string \<Rightarrow> Role option" where
  "ParseRole raw = map_of knownRoles (ToUpper (TrimSpace raw))"

text \<open>\<open>out\<close> is the slice built so far; the map of roles seen has exactly its elements.\<close>

fun parse_roles_loop :: "Role list \<Rightarrow> string list \<Rightarrow> Role list" where
  "parse_roles_loop out [] = out"
| "parse_roles_loop out (v # vs) =
     (case ParseRole v of
        None \<Rightarrow> parse_roles_loop out vs
      | Some role \<Rightarrow> if role \<in> set out then parse_roles_loop out vs else parse_roles_loop (out @ [role]) vs)"

definition ParseRoles :: "string list \<Rightarrow> Role list" where
  "ParseRoles raw = parse_roles_loop [RoleUser] raw"

record Claims =
  cl_Subject :: string
  cl_Email :: string
  cl_DisplayName :: string
  cl_Department :: string
  cl_Roles :: "Role list"
  cl_IssuedAt :: time
  cl_ExpiresAt :: time

datatype token_error = ErrInvalidToken | ErrDevAuthNotPermitted | ErrTokenSetup string

definition Claims_Validate :: "Claims \<Rightarrow> token_error option" where
  "Claims_Validate c =
     (if TrimSpace (cl_Subject c) = [] then Some ErrInvalidToken
      else if cl_Roles c = [] then Some ErrInvalidToken
      else None)"

fun holds_role :: "Role list \<Rightarrow> Role \<Rightarrow> bool" where
  "holds_role [] role = False"
| "holds_role (held # rest) role = (if held = role then True else holds_role rest role)"

definition HighestRole :: "Claims \<Rightarrow> Role" where
  "HighestRole c =
     (case find (\<lambda>candidate. holds_role (cl_Roles c) candidate) [RoleAdmin, RoleAnalyst, RoleAuditor, RoleUser] of
        Some candidate \<Rightarrow> candidate | None \<Rightarrow> RoleUser)"

definition Claims_HasRole :: "Claims \<Rightarrow> Role \<Rightarrow> bool" where
  "Claims_HasRole c role = holds_role (cl_Roles c) role"

subsection \<open>verifier.go\<close>

definition unixOrZero :: "int \<Rightarrow> time" where
  "unixOrZero sec = (if sec = 0 then zero_time else time_of_Unix sec)"

record oidcPayload =
  op_Subject :: string
  op_Email :: string
  op_Name :: string
  op_PreferredUsername :: string
  op_Department :: string
  op_Roles :: "string list"
  op_RealmRoles :: "string list"
  op_IssuedAt :: int
  op_ExpiresAt :: int

definition toClaims :: "oidcPayload \<Rightarrow> Claims" where
  "toClaims p =
     (let roles = op_Roles p @ op_RealmRoles p;
          displayName = op_Name p;
          displayName = (if TrimSpace displayName = [] then op_PreferredUsername p else displayName);
          displayName = (if TrimSpace displayName = [] then op_Subject p else displayName)
      in \<lparr>cl_Subject = op_Subject p, cl_Email = op_Email p, cl_DisplayName = displayName,
          cl_Department = op_Department p, cl_Roles = ParseRoles roles,
          cl_IssuedAt = unixOrZero (op_IssuedAt p), cl_ExpiresAt = unixOrZero (op_ExpiresAt p)\<rparr>)"

record OIDCVerifier =
  ov_issuer :: string
  ov_audience :: string
  ov_resolved :: bool

definition NewOIDCVerifier :: "string \<Rightarrow> string \<Rightarrow> token_error + OIDCVerifier" where
  "NewOIDCVerifier issuer audience =
     (if TrimSpace issuer = [] then Inl (ErrTokenSetup ''oidc issuer is required'')
      else if TrimSpace audience = [] then Inl (ErrTokenSetup ''oidc audience is required'')
      else Inr \<lparr>ov_issuer = issuer, ov_audience = audience, ov_resolved = False\<rparr>)"

definition resolve :: "bool \<Rightarrow> OIDCVerifier \<Rightarrow> token_error option \<times> OIDCVerifier" where
  "resolve discover v =
     (if ov_resolved v then (None, v)
      else if \<not> discover then (Some (ErrTokenSetup ''discover identity provider''), v)
      else (None, v\<lparr>ov_resolved := True\<rparr>))"

text \<open>\<open>check issuer audience now raw\<close> is \<open>None\<close> when the library rejects the token or its payload.\<close>

definition OIDC_Verify ::
  "bool \<Rightarrow> (string \<Rightarrow> string \<Rightarrow> time \<Rightarrow> string \<Rightarrow> oidcPayload option) \<Rightarrow> time \<Rightarrow> OIDCVerifier \<Rightarrow> string \<Rightarrow>
   (token_error + Claims) \<times> OIDCVerifier" where
  "OIDC_Verify discover check now v raw =
     (case resolve discover v of
        (Some e, v') \<Rightarrow> (Inl e, v')
      | (None, v') \<Rightarrow>
          (case check (ov_issuer v) (ov_audience v) now raw of
             None \<Rightarrow> (Inl ErrInvalidToken, v')
           | Some payload \<Rightarrow> (Inr (toClaims payload), v')))"

subsection \<open>dev.go\<close>

definition DevIssuer :: string where "DevIssuer = ''netra-dev-local''"

text \<open>The values of a claim set, as \<^verbatim>\<open>json.Unmarshal\<close> delivers them; \<open>JInt\<close> only before encoding.\<close>

datatype jvalue = JStr string | JNum f64 | JInt int | JArr "jvalue list" | JOther

type_synonym mapClaims = "string \<rightharpoonup> jvalue"

record DevVerifier =
  dv_secret :: string
  dv_ttl :: duration

definition NewDevVerifier :: "string option \<Rightarrow> string \<Rightarrow> duration \<Rightarrow> token_error + DevVerifier" where
  "NewDevVerifier random environment ttl =
     (if environment \<noteq> ''development'' then Inl ErrDevAuthNotPermitted
      else
        (let ttl = (if ttl \<le> 0 then hour else ttl)
         in case random of
              None \<Rightarrow> Inl (ErrTokenSetup ''generate development signing key'')
            | Some secret \<Rightarrow> Inr \<lparr>dv_secret = secret, dv_ttl = ttl\<rparr>))"

definition toStrings :: "Role list \<Rightarrow> string list" where
  "toStrings roles = map Role_string roles"

definition minted_claims :: "DevVerifier \<Rightarrow> time \<Rightarrow> string \<Rightarrow> string \<Rightarrow> string \<Rightarrow> string \<Rightarrow> Role list \<Rightarrow> mapClaims" where
  "minted_claims d now subject email displayName department roles =
     [''iss'' \<mapsto> JStr DevIssuer, ''sub'' \<mapsto> JStr subject, ''email'' \<mapsto> JStr email, ''name'' \<mapsto> JStr displayName,
      ''department'' \<mapsto> JStr department, ''roles'' \<mapsto> JArr (map (\<lambda>r. JStr (Role_string r)) (ParseRoles (toStrings roles))),
      ''iat'' \<mapsto> JInt (time_Unix now), ''exp'' \<mapsto> JInt (time_Unix (time_Add now (dv_ttl d)))]"

definition Mint ::
  "(string \<Rightarrow> mapClaims \<Rightarrow> string option) \<Rightarrow> DevVerifier \<Rightarrow> time \<Rightarrow> string \<Rightarrow> string \<Rightarrow> string \<Rightarrow> string \<Rightarrow> Role list \<Rightarrow>
   string option" where
  "Mint sign d now subject email displayName department roles =
     (if subject = [] then None
      else sign (dv_secret d) (minted_claims d now subject email displayName department roles))"

definition stringClaim :: "mapClaims \<Rightarrow> string \<Rightarrow> string" where
  "stringClaim claims key = (case claims key of Some (JStr s) \<Rightarrow> s | _ \<Rightarrow> [])"

definition int64Claim :: "mapClaims \<Rightarrow> string \<Rightarrow> int" where
  "int64Claim claims key =
     (case claims key of Some (JNum v) \<Rightarrow> f64_to_int v | Some (JInt v) \<Rightarrow> v | _ \<Rightarrow> 0)"

definition stringSliceClaim :: "mapClaims \<Rightarrow> string \<Rightarrow> string list" where
  "stringSliceClaim claims key =
     (case claims key of
        Some (JArr raw) \<Rightarrow> List.map_filter (\<lambda>item. case item of JStr s \<Rightarrow> Some s | _ \<Rightarrow> None) raw
      | _ \<Rightarrow> [])"

definition Dev_Verify ::
  "(string \<Rightarrow> string \<Rightarrow> time \<Rightarrow> string \<Rightarrow> mapClaims option) \<Rightarrow> time \<Rightarrow> DevVerifier \<Rightarrow> string \<Rightarrow> token_error + Claims" where
  "Dev_Verify parse now d rawToken =
     (case parse (dv_secret d) DevIssuer now rawToken of
        None \<Rightarrow> Inl ErrInvalidToken
      | Some m \<Rightarrow>
          (let claims = \<lparr>cl_Subject = stringClaim m ''sub'', cl_Email = stringClaim m ''email'',
                 cl_DisplayName = stringClaim m ''name'', cl_Department = stringClaim m ''department'',
                 cl_Roles = ParseRoles (stringSliceClaim m ''roles''),
                 cl_IssuedAt = unixOrZero (int64Claim m ''iat''), cl_ExpiresAt = unixOrZero (int64Claim m ''exp'')\<rparr>;
               claims = (if cl_DisplayName claims = [] then claims\<lparr>cl_DisplayName := cl_Subject claims\<rparr> else claims)
           in case Claims_Validate claims of Some e \<Rightarrow> Inl e | None \<Rightarrow> Inr claims))"

subsection \<open>user.go\<close>

record User =
  us_ID :: uuid
  us_ExternalSubject :: string
  us_Email :: string
  us_DisplayName :: string
  us_Department :: string
  us_Role :: Role
  us_Disabled :: bool
  us_CreatedAt :: time
  us_UpdatedAt :: time

record user_row =
  ur_ID :: uuid
  ur_ExternalSubject :: string
  ur_Email :: string
  ur_DisplayName :: string
  ur_Department :: string
  ur_Role :: string
  ur_DisabledAt :: "time option"
  ur_CreatedAt :: time
  ur_UpdatedAt :: time

datatype user_error = ErrDisabled | ErrNoSubject | ErrUserDB string

definition scanUser :: "user_row \<Rightarrow> User" where
  "scanUser r =
     \<lparr>us_ID = ur_ID r, us_ExternalSubject = ur_ExternalSubject r, us_Email = ur_Email r,
      us_DisplayName = ur_DisplayName r, us_Department = ur_Department r,
      us_Role = (case ParseRole (ur_Role r) of Some parsed \<Rightarrow> parsed | None \<Rightarrow> RoleUser),
      us_Disabled = (ur_DisabledAt r \<noteq> None), us_CreatedAt = ur_CreatedAt r, us_UpdatedAt = ur_UpdatedAt r\<rparr>"

definition refresh_user :: "Claims \<Rightarrow> string \<Rightarrow> time \<Rightarrow> user_row \<Rightarrow> user_row" where
  "refresh_user c email now r =
     (if ur_ExternalSubject r = cl_Subject c
      then r\<lparr>ur_Email := email, ur_DisplayName := cl_DisplayName c, ur_Department := cl_Department c,
             ur_Role := Role_string (HighestRole c), ur_UpdatedAt := now\<rparr>
      else r)"

definition new_user :: "uuid \<Rightarrow> Claims \<Rightarrow> string \<Rightarrow> time \<Rightarrow> user_row" where
  "new_user ident c email now =
     \<lparr>ur_ID = ident, ur_ExternalSubject = cl_Subject c, ur_Email = email, ur_DisplayName = cl_DisplayName c,
      ur_Department = cl_Department c, ur_Role = Role_string (HighestRole c), ur_DisabledAt = None,
      ur_CreatedAt = now, ur_UpdatedAt = now\<rparr>"

text \<open>
  The upsert is on the subject; the table also has a unique index on the lower-case email, which
  another account may hold.
\<close>

definition ResolveFromClaims ::
  "uuid \<Rightarrow> time \<Rightarrow> faults \<Rightarrow> Claims \<Rightarrow> user_row list \<Rightarrow> (user_error + User) \<times> user_row list" where
  "ResolveFromClaims ident now fs c db =
     (if TrimSpace (cl_Subject c) = [] then (Inl ErrNoSubject, db)
      else
        (let email = (if cl_Email c = [] then cl_Subject c @ ''@unknown.invalid'' else cl_Email c);
             taken = list_ex (\<lambda>r. ur_ExternalSubject r \<noteq> cl_Subject c \<and> ToLower (ur_Email r) = ToLower email) db;
             existing = list_ex (\<lambda>r. ur_ExternalSubject r = cl_Subject c) db
         in if fault fs ''upsert user'' \<or> taken \<or> (\<not> existing \<and> ident \<in> set (map ur_ID db))
            then (Inl (ErrUserDB ''upsert user''), db)
            else
              (let db' = (if existing then map (refresh_user c email now) db else db @ [new_user ident c email now])
               in case find (\<lambda>r. ur_ExternalSubject r = cl_Subject c) db' of
                    None \<Rightarrow> (Inl (ErrUserDB ''upsert user''), db')
                  | Some r \<Rightarrow> if us_Disabled (scanUser r) then (Inl ErrDisabled, db') else (Inr (scanUser r), db'))))"

definition user_ByID :: "faults \<Rightarrow> uuid \<Rightarrow> user_row list \<Rightarrow> user_error + User" where
  "user_ByID fs ident db =
     (if fault fs ''load user'' then Inl (ErrUserDB ''load user'')
      else case find (\<lambda>r. ur_ID r = ident) db of
             None \<Rightarrow> Inl (ErrUserDB ''load user'') | Some r \<Rightarrow> Inr (scanUser r))"

subsection \<open>auth.go\<close>

record Principal =
  pl_UserID :: uuid
  pl_Subject :: string
  pl_Email :: string
  pl_DisplayName :: string
  pl_Department :: string
  pl_Roles :: "Role list"

definition HasRole :: "Principal \<Rightarrow> Role \<Rightarrow> bool" where
  "HasRole p role = holds_role (pl_Roles p) role"

fun HasAnyRole :: "Principal \<Rightarrow> Role list \<Rightarrow> bool" where
  "HasAnyRole p [] = False"
| "HasAnyRole p (role # roles) = (if HasRole p role then True else HasAnyRole p roles)"

definition bearerToken :: "string \<Rightarrow> string option" where
  "bearerToken header =
     (if header = [] then None
      else
        (let (scheme, token, found) = Cut header (CHR '' '')
         in if \<not> found \<or> \<not> EqualFold scheme ''bearer'' then None
            else (let token = TrimSpace token in if token \<noteq> [] then Some token else None)))"

definition roleNames :: "Role list \<Rightarrow> string list" where
  "roleNames roles = map Role_string roles"

definition auth_clientIP :: "string \<Rightarrow> string" where
  "auth_clientIP remoteAddr =
     (let (host, _, found) = Cut remoteAddr (CHR '':'') in if \<not> found then remoteAddr else host)"

text \<open>The values audit details are made of.\<close>

datatype dvalue = DStr string | DInt int | DStrs "string list"

type_synonym audit_store = "dvalue audit_db"
type_synonym recorder = "(dvalue audit_Entry \<Rightarrow> audit_store \<Rightarrow> audit_error option \<times> audit_store) option"

definition blank_entry :: "ActorType \<Rightarrow> string \<Rightarrow> string \<Rightarrow> audit_Result \<Rightarrow> string \<Rightarrow> dvalue audit_Entry" where
  "blank_entry actor actorID action result requestID =
     \<lparr>ae_At = zero_time, ae_ActorType = actor, ae_ActorID = actorID, ae_Action = action, ae_TargetType = [],
      ae_TargetID = [], ae_Result = result, ae_RequestID = requestID, ae_SourceIP = [], ae_Detail = None\<rparr>"

fun user_error_string :: "user_error \<Rightarrow> string" where
  "user_error_string ErrDisabled = ''user account is disabled''"
| "user_error_string ErrNoSubject = ''claims have no subject''"
| "user_error_string (ErrUserDB s) = s"

record auth_request =
  aq_Authorization :: string
  aq_Method :: string
  aq_Path :: string
  aq_RemoteAddr :: string
  aq_RequestID :: string

datatype auth_result = Unauthorized | Forbidden | Authenticated Principal

definition RequireAuth ::
  "(string \<Rightarrow> token_error + Claims) \<Rightarrow> recorder \<Rightarrow> uuid \<Rightarrow> time \<Rightarrow> faults \<Rightarrow> auth_request \<Rightarrow>
   user_row list \<times> audit_store \<Rightarrow> auth_result \<times> user_row list \<times> audit_store" where
  "RequireAuth verify recorder ident now fs r = (\<lambda>(users, audit).
     case bearerToken (aq_Authorization r) of
       None \<Rightarrow> (Unauthorized, users, audit)
     | Some raw \<Rightarrow>
         (case verify raw of
            Inl _ \<Rightarrow> (Unauthorized, users, audit)
          | Inr claims \<Rightarrow>
              if Claims_Validate claims \<noteq> None then (Unauthorized, users, audit)
              else
                (case ResolveFromClaims ident now fs claims users of
                   (Inl e, users') \<Rightarrow>
                     (Forbidden, users',
                      Log recorder ((blank_entry ActorUser (cl_Subject claims) ActionAuthenticate ResultDenied (aq_RequestID r))
                        \<lparr>ae_SourceIP := auth_clientIP (aq_RemoteAddr r),
                         ae_Detail := Some [(''reason'', DStr (user_error_string e))]\<rparr>) audit)
                 | (Inr u, users') \<Rightarrow>
                     (Authenticated \<lparr>pl_UserID = us_ID u, pl_Subject = cl_Subject claims, pl_Email = us_Email u,
                        pl_DisplayName = us_DisplayName u, pl_Department = us_Department u, pl_Roles = cl_Roles claims\<rparr>,
                      users', audit))))"

definition denial_entry :: "Role list \<Rightarrow> auth_request \<Rightarrow> Principal \<Rightarrow> dvalue audit_Entry" where
  "denial_entry roles r p =
     (blank_entry ActorUser (uuid_String (pl_UserID p)) ActionAuthorizationDeny ResultDenied (aq_RequestID r))
       \<lparr>ae_TargetType := ''endpoint'', ae_TargetID := aq_Method r @ '' '' @ aq_Path r,
        ae_SourceIP := auth_clientIP (aq_RemoteAddr r),
        ae_Detail := Some [(''required_roles'', DStrs (roleNames roles)), (''held_roles'', DStrs (roleNames (pl_Roles p)))]\<rparr>"

definition RequireRole ::
  "recorder \<Rightarrow> Role list \<Rightarrow> auth_request \<Rightarrow> Principal option \<Rightarrow> audit_store \<Rightarrow> auth_result \<times> audit_store" where
  "RequireRole recorder roles r caller audit =
     (case caller of
        None \<Rightarrow> (Unauthorized, audit)
      | Some p \<Rightarrow>
          if \<not> HasAnyRole p roles then (Forbidden, Log recorder (denial_entry roles r p) audit)
          else (Authenticated p, audit))"


subsection \<open>Roles\<close>

lemma ParseRole_string [simp]: "ParseRole (Role_string r) = Some r"
  by (cases r) (simp_all add: ParseRole_def knownRoles_def ToUpper_ascii TrimSpace_ascii is_space_def to_upper_char_def)

lemma ParseRole_iff: "ParseRole name = Some r \<longleftrightarrow> ToUpper (TrimSpace name) = Role_string r"
  by (cases r) (simp_all add: ParseRole_def knownRoles_def)

lemma holds_role_iff [simp]: "holds_role roles r \<longleftrightarrow> r \<in> set roles"
  by (induction roles) auto

lemma HasAnyRole_iff: "HasAnyRole p roles \<longleftrightarrow> (\<exists>r \<in> set roles. r \<in> set (pl_Roles p))"
  by (induction roles) (auto simp: HasRole_def)

lemma parse_roles_loop_spec:
  "distinct out \<Longrightarrow> distinct (parse_roles_loop out vs) \<and> (\<exists>ys. parse_roles_loop out vs = out @ ys) \<and>
     set (parse_roles_loop out vs) = set out \<union> {r. Some r \<in> ParseRole ` set vs}"
proof (induction vs arbitrary: out)
  case (Cons v vs)
  show ?case
  proof (cases "ParseRole v")
    case None
    then show ?thesis using Cons.IH [OF Cons.prems] by auto
  next
    case (Some r)
    show ?thesis
    proof (cases "r \<in> set out")
      case True
      then show ?thesis using Cons.IH [OF Cons.prems] Some by auto
    next
      case False
      then have d: "distinct (out @ [r])" using Cons.prems by simp
      show ?thesis using Cons.IH [OF d] Some False by auto
    qed
  qed
qed simp

lemma ParseRoles_spec:
  "distinct (ParseRoles raw)" "set (ParseRoles raw) = insert RoleUser {r. Some r \<in> ParseRole ` set raw}"
  "\<exists>ys. ParseRoles raw = RoleUser # ys"
  using parse_roles_loop_spec [of "[RoleUser]" raw] by (auto simp: ParseRoles_def)

lemma ParseRoles_nonempty [simp]: "ParseRoles raw \<noteq> []"
  using ParseRoles_spec(3) [of raw] by auto

lemma parse_roles_loop_map:
  "distinct (out @ rs) \<Longrightarrow> parse_roles_loop out (map Role_string rs) = out @ rs"
  by (induction rs arbitrary: out) auto

text \<open>The role names of a parsed list parse to the same list.\<close>

lemma ParseRoles_fixed: "ParseRoles (map Role_string (ParseRoles raw)) = ParseRoles raw"
proof -
  obtain ys where ys: "ParseRoles raw = RoleUser # ys" using ParseRoles_spec(3) by blast
  then have "distinct ([RoleUser] @ ys)" using ParseRoles_spec(1) [of raw] by simp
  moreover have "ParseRole ''USER'' = Some RoleUser" using ParseRole_string [of RoleUser] by simp
  ultimately show ?thesis
    using parse_roles_loop_map [of "[RoleUser]" ys] ys by (simp add: ParseRoles_def)
qed

lemma HighestRole_held: "r \<in> set (cl_Roles c) \<Longrightarrow> HighestRole c \<in> set (cl_Roles c)"
  by (induction r) (auto simp: HighestRole_def)

subsection \<open>Accounts\<close>

text \<open>The unique constraints of the table.\<close>

definition users_ok :: "user_row list \<Rightarrow> bool" where
  "users_ok db \<longleftrightarrow> distinct (map ur_ID db) \<and> distinct (map ur_ExternalSubject db) \<and>
     distinct (map (\<lambda>r. ToLower (ur_Email r)) db)"

text \<open>What of an account no login changes.\<close>

definition account_key :: "user_row \<Rightarrow> uuid \<times> string \<times> time option \<times> time" where
  "account_key r = (ur_ID r, ur_ExternalSubject r, ur_DisabledAt r, ur_CreatedAt r)"

lemma refresh_user_sel [simp]:
  "ur_ID (refresh_user c m now r) = ur_ID r" "ur_ExternalSubject (refresh_user c m now r) = ur_ExternalSubject r"
  "ur_DisabledAt (refresh_user c m now r) = ur_DisabledAt r" "ur_CreatedAt (refresh_user c m now r) = ur_CreatedAt r"
  "account_key (refresh_user c m now r) = account_key r"
  "ur_Email (refresh_user c m now r) = (if ur_ExternalSubject r = cl_Subject c then m else ur_Email r)"
  by (simp_all add: refresh_user_def account_key_def)

lemma new_user_sel [simp]:
  "ur_ID (new_user i c m now) = i" "ur_ExternalSubject (new_user i c m now) = cl_Subject c"
  "ur_Email (new_user i c m now) = m" "ur_DisabledAt (new_user i c m now) = None"
  by (simp_all add: new_user_def)

lemma refresh_emails_distinct:
  assumes "distinct (map ur_ExternalSubject db)" "distinct (map (\<lambda>r. ToLower (ur_Email r)) db)"
    "\<forall>r \<in> set db. ur_ExternalSubject r \<noteq> cl_Subject c \<longrightarrow> ToLower (ur_Email r) \<noteq> ToLower m"
  shows "distinct (map (\<lambda>r. ToLower (ur_Email (refresh_user c m now r))) db)"
  using assms by (induction db) (auto simp: image_iff)

text \<open>The login email, and when the upsert violates a unique constraint.\<close>

definition login_email :: "Claims \<Rightarrow> string" where
  "login_email c = (if cl_Email c = [] then cl_Subject c @ ''@unknown.invalid'' else cl_Email c)"

definition known_subject :: "Claims \<Rightarrow> user_row list \<Rightarrow> bool" where
  "known_subject c db \<longleftrightarrow> cl_Subject c \<in> ur_ExternalSubject ` set db"

definition upserted :: "uuid \<Rightarrow> time \<Rightarrow> Claims \<Rightarrow> user_row list \<Rightarrow> user_row list" where
  "upserted ident now c db =
     (if known_subject c db then map (refresh_user c (login_email c) now) db
      else db @ [new_user ident c (login_email c) now])"

definition upsert_conflict :: "uuid \<Rightarrow> Claims \<Rightarrow> user_row list \<Rightarrow> bool" where
  "upsert_conflict ident c db \<longleftrightarrow>
     list_ex (\<lambda>r. ur_ExternalSubject r \<noteq> cl_Subject c \<and> ToLower (ur_Email r) = ToLower (login_email c)) db \<or>
     (\<not> known_subject c db \<and> ident \<in> set (map ur_ID db))"

lemma ResolveFromClaims_eq:
  "ResolveFromClaims ident now fs c db =
     (if TrimSpace (cl_Subject c) = [] then (Inl ErrNoSubject, db)
      else if fault fs ''upsert user'' \<or> upsert_conflict ident c db then (Inl (ErrUserDB ''upsert user''), db)
      else case find (\<lambda>r. ur_ExternalSubject r = cl_Subject c) (upserted ident now c db) of
             None \<Rightarrow> (Inl (ErrUserDB ''upsert user''), upserted ident now c db)
           | Some r \<Rightarrow> (if us_Disabled (scanUser r) then Inl ErrDisabled else Inr (scanUser r), upserted ident now c db))"
proof -
  have known: "list_ex (\<lambda>r. ur_ExternalSubject r = cl_Subject c) db = known_subject c db"
    by (force simp: list_ex_iff known_subject_def)
  show ?thesis
    unfolding ResolveFromClaims_def Let_def known login_email_def [symmetric] upserted_def [symmetric]
      upsert_conflict_def by (simp split: option.split)
qed

lemma ResolveFromClaims_cases:
  obtains (refused) e where "ResolveFromClaims ident now fs c db = (Inl e, db)"
  | (stored) r where "r \<in> set (upserted ident now c db)" "ur_ExternalSubject r = cl_Subject c"
      "\<not> upsert_conflict ident c db"
      "ResolveFromClaims ident now fs c db =
         (if us_Disabled (scanUser r) then Inl ErrDisabled else Inr (scanUser r), upserted ident now c db)"
proof (cases "TrimSpace (cl_Subject c) = [] \<or> fault fs ''upsert user'' \<or> upsert_conflict ident c db")
  case True
  then have "snd (ResolveFromClaims ident now fs c db) = db \<and> isl (fst (ResolveFromClaims ident now fs c db))"
    by (auto simp: ResolveFromClaims_eq)
  then show ?thesis
    by (cases "ResolveFromClaims ident now fs c db") (auto simp: isl_def intro: refused)
next
  case False
  have "\<exists>r \<in> set (upserted ident now c db). ur_ExternalSubject r = cl_Subject c"
    by (auto simp: upserted_def known_subject_def)
  then obtain r where r: "find (\<lambda>r. ur_ExternalSubject r = cl_Subject c) (upserted ident now c db) = Some r"
    by (cases "find (\<lambda>r. ur_ExternalSubject r = cl_Subject c) (upserted ident now c db)") (auto simp: find_None_iff)
  then show ?thesis using find_SomeD [OF r] False by (intro stored [of r]) (simp_all add: ResolveFromClaims_eq)
qed

lemma users_ok_upserted:
  assumes "users_ok db" "\<not> upsert_conflict ident c db" shows "users_ok (upserted ident now c db)"
proof (cases "known_subject c db")
  case True
  then show ?thesis
    using assms refresh_emails_distinct [of db c "login_email c" now]
    by (auto simp: users_ok_def upserted_def upsert_conflict_def comp_def list_ex_iff)
next
  case False
  then show ?thesis
    using assms by (force simp: users_ok_def upserted_def upsert_conflict_def list_ex_iff known_subject_def)
qed

lemma upserted_keys: "prefix (map account_key db) (map account_key (upserted ident now c db))"
  by (simp add: upserted_def comp_def)

lemma ResolveFromClaims_users:
  assumes "users_ok db" "ResolveFromClaims ident now fs c db = (res, db')"
  shows "users_ok db' \<and> prefix (map account_key db) (map account_key db')"
  using assms users_ok_upserted upserted_keys
  by (cases rule: ResolveFromClaims_cases [of ident now fs c db]) (auto split: if_splits)

text \<open>A login succeeds only on an account that is not disabled.\<close>

lemma ResolveFromClaims_enabled:
  assumes "ResolveFromClaims ident now fs c db = (Inr u, db')"
  shows "\<exists>r \<in> set db'. ur_ExternalSubject r = cl_Subject c \<and> ur_DisabledAt r = None \<and> u = scanUser r"
  using assms
  by (cases rule: ResolveFromClaims_cases [of ident now fs c db]) (auto simp: scanUser_def split: if_splits)

subsection \<open>Sequences of requests\<close>

text \<open>
  \<open>auth_run\<close> authenticates requests one after the other; \<open>verify now\<close> is the verifier at that time.
\<close>

type_synonym auth_attempt = "uuid \<times> time \<times> faults \<times> auth_request"

fun auth_run ::
  "(time \<Rightarrow> string \<Rightarrow> token_error + Claims) \<Rightarrow> recorder \<Rightarrow> auth_attempt list \<Rightarrow> user_row list \<times> audit_store \<Rightarrow>
   auth_result list \<times> user_row list \<times> audit_store" where
  "auth_run verify recorder [] st = ([], st)"
| "auth_run verify recorder ((ident, now, fs, r) # rest) st =
     (let (res, st') = RequireAuth (verify now) recorder ident now fs r st;
          (ress, st'') = auth_run verify recorder rest st'
      in (res # ress, st''))"

lemma RequireAuth_users:
  assumes "users_ok db" "RequireAuth verify recorder ident now fs r (db, audit) = (res, db', audit')"
  shows "users_ok db'" "prefix (map account_key db) (map account_key db')"
  using assms
  by (auto simp: RequireAuth_def split: option.splits sum.splits if_splits prod.splits dest: ResolveFromClaims_users)

lemma RequireAuth_Authenticated:
  assumes "RequireAuth verify recorder ident now fs r (db, audit) = (Authenticated p, db', audit')"
  shows "\<exists>raw claims row. bearerToken (aq_Authorization r) = Some raw \<and> verify raw = Inr claims \<and>
    Claims_Validate claims = None \<and> row \<in> set db' \<and> ur_ExternalSubject row = cl_Subject claims \<and>
    ur_DisabledAt row = None \<and> pl_UserID p = ur_ID row \<and> pl_Subject p = cl_Subject claims \<and>
    pl_Roles p = cl_Roles claims"
proof -
  obtain raw claims u where raw: "bearerToken (aq_Authorization r) = Some raw" "verify raw = Inr claims"
      "Claims_Validate claims = None" and u: "ResolveFromClaims ident now fs claims db = (Inr u, db')"
      "pl_UserID p = us_ID u" "pl_Subject p = cl_Subject claims" "pl_Roles p = cl_Roles claims"
    using assms by (auto simp: RequireAuth_def split: option.splits sum.splits if_splits prod.splits)
  obtain row where "row \<in> set db'" "ur_ExternalSubject row = cl_Subject claims" "ur_DisabledAt row = None" "u = scanUser row"
    using ResolveFromClaims_enabled [OF u(1)] by blast
  then show ?thesis using raw u by (auto simp: scanUser_def)
qed

lemma account_key_eq:
  "account_key r = account_key r' \<longleftrightarrow> ur_ID r = ur_ID r' \<and> ur_ExternalSubject r = ur_ExternalSubject r' \<and>
     ur_DisabledAt r = ur_DisabledAt r' \<and> ur_CreatedAt r = ur_CreatedAt r'"
  by (auto simp: account_key_def)

lemma disabled_kept:
  assumes "users_ok db'" "prefix (map account_key db) (map account_key db')" "r \<in> set db" "ur_DisabledAt r \<noteq> None"
    "row \<in> set db'" "ur_DisabledAt row = None"
  shows "ur_ExternalSubject row \<noteq> ur_ExternalSubject r"
proof
  assume eq: "ur_ExternalSubject row = ur_ExternalSubject r"
  have "account_key r \<in> set (map account_key db')"
    using set_mono_prefix [OF assms(2)] assms(3) by auto
  then obtain r' where r': "r' \<in> set db'" "account_key r' = account_key r" by auto
  then have "r' = row"
    using eq assms(1,5) by (auto simp: users_ok_def account_key_eq distinct_map inj_on_def)
  then show False using r' assms(4,6) by (simp add: account_key_eq)
qed

lemma auth_run_keys:
  "users_ok db \<Longrightarrow> auth_run verify recorder reqs (db, audit) = (ress, db', audit') \<Longrightarrow>
     users_ok db' \<and> prefix (map account_key db) (map account_key db')"
proof (induction reqs arbitrary: db audit ress db' audit')
  case (Cons q reqs)
  obtain ident now fs r where q: "q = (ident, now, fs, r)" by (metis prod_cases4)
  obtain res db1 audit1 where one: "RequireAuth (verify now) recorder ident now fs r (db, audit) = (res, db1, audit1)"
    by (metis prod_cases3)
  obtain ress' where rest: "auth_run verify recorder reqs (db1, audit1) = (ress', db', audit')"
    using Cons.prems(2) q one by (auto split: prod.splits)
  note step = RequireAuth_users [OF Cons.prems(1) one]
  from Cons.IH [OF step(1) rest] show ?case using step(2) by (auto intro: prefix_order.trans)
qed auto

lemma auth_run_disabled:
  assumes "users_ok db" "auth_run verify recorder reqs (db, audit) = (ress, db', audit')"
    "r \<in> set db" "ur_DisabledAt r \<noteq> None" "Authenticated p \<in> set ress"
  shows "pl_Subject p \<noteq> ur_ExternalSubject r"
  using assms
proof (induction reqs arbitrary: db audit ress r)
  case (Cons q reqs)
  obtain ident now fs rq where q: "q = (ident, now, fs, rq)" by (metis prod_cases4)
  obtain res db1 audit1 where one: "RequireAuth (verify now) recorder ident now fs rq (db, audit) = (res, db1, audit1)"
    by (metis prod_cases3)
  obtain ress' where rest: "auth_run verify recorder reqs (db1, audit1) = (ress', db', audit')" "ress = res # ress'"
    using Cons.prems(2) q one by (auto split: prod.splits)
  note step = RequireAuth_users [OF Cons.prems(1) one]
  show ?case
  proof (cases "res = Authenticated p")
    case True
    then obtain row where "row \<in> set db1" "ur_DisabledAt row = None" "pl_Subject p = ur_ExternalSubject row"
      using RequireAuth_Authenticated [of "verify now" recorder ident now fs rq db audit p db1 audit1] one by auto
    then show ?thesis using disabled_kept [OF step Cons.prems(3,4)] by auto
  next
    case False
    have "account_key r \<in> set (map account_key db1)"
      using set_mono_prefix [OF step(2)] Cons.prems(3) by auto
    then obtain r1 where "r1 \<in> set db1" "account_key r1 = account_key r" by auto
    then show ?thesis
      using Cons.IH [OF step(1) rest(1), of r1] Cons.prems(4,5) rest(2) False by (auto simp: account_key_eq)
  qed
qed simp

subsection \<open>Recording\<close>

lemma audit_Normalize_sel [simp]:
  "ae_ActorType (Normalize e) = ae_ActorType e" "ae_ActorID (Normalize e) = ae_ActorID e"
  "ae_Action (Normalize e) = ae_Action e" "ae_TargetType (Normalize e) = ae_TargetType e"
  "ae_TargetID (Normalize e) = ae_TargetID e" "ae_RequestID (Normalize e) = ae_RequestID e"
  "ae_SourceIP (Normalize e) = ae_SourceIP e"
  "ae_Result e \<noteq> ResultOther [] \<Longrightarrow> ae_Result (Normalize e) = ae_Result e"
  by (simp_all add: Normalize_def Let_def)

text \<open>Who did what to which target, with which outcome.\<close>

definition entry_fact :: "'v audit_Entry \<Rightarrow> ActorType \<times> string \<times> string \<times> string \<times> string \<times> audit_Result" where
  "entry_fact e = (ae_ActorType e, ae_ActorID e, ae_Action e, ae_TargetType e, ae_TargetID e, ae_Result e)"

text \<open>An entry with a known actor, an action and an address the database accepts is recorded.\<close>

lemma Log_records:
  assumes "ae_Action e \<noteq> []" "actor_known (ae_ActorType e)" "ae_Result e \<noteq> ResultOther []"
    "\<forall>x. enc x \<noteq> None" "ae_SourceIP e = [] \<or> inet (ae_SourceIP e) \<noteq> None"
  shows "\<exists>rec. au_rows (Log (Some (audit_Record_op sha enc inet jsonb now [])) e db) = au_rows db @ [rec] \<and>
    entry_fact (ar_Entry rec) = entry_fact e"
proof -
  let ?e = "Normalize (if time_IsZero (ae_At e) then e\<lparr>ae_At := now\<rparr> else e)"
  have sel: "ae_Action ?e = ae_Action e" "ae_ActorType ?e = ae_ActorType e" "ae_SourceIP ?e = ae_SourceIP e"
      "entry_fact ?e = entry_fact e"
    using assms(3) by (simp_all add: entry_fact_def)
  obtain body where "enc (canonical_of (Normalize ?e)) = Some body" using assms(4) by blast
  then obtain hash where h: "ComputeHash sha enc (chain_head (au_rows db)) ?e = Some hash"
    unfolding ComputeHash_def CanonicalBytes_def by simp
  obtain ip where "(if ae_SourceIP e = [] then Some [] else inet (ae_SourceIP e)) = Some ip"
    using assms(5) by (cases "ae_SourceIP e = []") auto
  then have ip: "stored_entry inet jsonb ?e = Some (?e\<lparr>ae_SourceIP := ip, ae_Detail := map_option jsonb (ae_Detail ?e)\<rparr>)"
    using assms(2) unfolding stored_entry_def sel by simp
  have "ae_ActorType e \<noteq> ActorOther []" using assms(2) by (auto simp: actor_known_def)
  then have "au_rows (Log (Some (audit_Record_op sha enc inet jsonb now [])) e db) = au_rows db @
      [\<lparr>ar_Seq = au_next db, ar_Entry = ?e\<lparr>ae_SourceIP := ip, ae_Detail := map_option jsonb (ae_Detail ?e)\<rparr>,
        ar_PrevHash = chain_head (au_rows db), ar_Hash = hash\<rparr>]"
    using assms(1) by (simp add: Log_def audit_Record_op_def Let_def h ip sel)
  moreover have "entry_fact (?e\<lparr>ae_SourceIP := ip, ae_Detail := map_option jsonb (ae_Detail ?e)\<rparr>) = entry_fact e"
    using sel(4) by (simp add: entry_fact_def)
  ultimately show ?thesis by auto
qed

text \<open>
  What becomes of an entry given to \<^verbatim>\<open>audit.Log\<close>.  With the audit store as recorder, either one record with the
  facts of the entry is appended, or nothing is and there was a reason: a statement failed, the encoder
  failed, or the address of the peer is not one the table can store.
\<close>

definition given_to_log :: "recorder \<Rightarrow> dvalue audit_Entry \<Rightarrow> audit_store \<Rightarrow> audit_store \<Rightarrow> bool" where
  "given_to_log recorder e audit audit' \<longleftrightarrow>
     audit' = Log recorder e audit \<and>
     (\<forall>sha enc inet jsonb now fs. recorder = Some (audit_Record_op sha enc inet jsonb now fs) \<longrightarrow>
        (\<exists>rec. au_rows audit' = au_rows audit @ [rec] \<and> entry_fact (ar_Entry rec) = entry_fact e) \<or>
        au_rows audit' = au_rows audit \<and>
          (fs \<noteq> [] \<or> (\<exists>x. enc x = None) \<or> ae_SourceIP e \<noteq> [] \<and> inet (ae_SourceIP e) = None))"

lemma stored_entry_fact: "stored_entry inet jsonb e = Some e' \<Longrightarrow> entry_fact e' = entry_fact e"
  by (auto simp: stored_entry_def entry_fact_def split: if_splits option.splits)

lemma Log_given:
  assumes "ae_Action e \<noteq> []" "actor_known (ae_ActorType e)" "ae_Result e \<noteq> ResultOther []"
  shows "given_to_log recorder e audit (Log recorder e audit)"
  unfolding given_to_log_def
proof (intro conjI refl allI impI)
  fix sha enc inet jsonb now fs assume r: "recorder = Some (audit_Record_op sha enc inet jsonb now fs)"
  let ?rec = "\<exists>rec. au_rows (Log recorder e audit) = au_rows audit @ [rec] \<and> entry_fact (ar_Entry rec) = entry_fact e"
  let ?lost = "fs \<noteq> [] \<or> (\<exists>x. enc x = None) \<or> ae_SourceIP e \<noteq> [] \<and> inet (ae_SourceIP e) = None"
  obtain res db where op: "audit_Record_op sha enc inet jsonb now fs e audit = (res, db)" by fastforce
  have "entry_fact (effective now e) = entry_fact e" using assms(3) by (simp add: effective_def entry_fact_def)
  then have "?rec \<or> au_rows (Log recorder e audit) = au_rows audit"
    using audit_Record_cases [OF op] op by (auto simp: r Log_def dest: stored_entry_fact)
  moreover have "?rec" if "\<not> ?lost"
    unfolding r using that assms Log_records [of e enc inet sha jsonb now audit] by auto
  ultimately show "?rec \<or> au_rows (Log recorder e audit) = au_rows audit \<and> ?lost" by blast
qed

text \<open>An address the database rejects loses the entry.\<close>

lemma Log_loses:
  assumes "inet (ae_SourceIP e) = None" "ae_SourceIP e \<noteq> []"
  shows "au_rows (Log (Some (audit_Record_op sha enc inet jsonb now fs)) e db) = au_rows db"
proof -
  let ?e = "Normalize (if time_IsZero (ae_At e) then e\<lparr>ae_At := now\<rparr> else e)"
  have "ae_SourceIP ?e = ae_SourceIP e" by simp
  then have none: "stored_entry inet jsonb ?e = None" using assms by (simp add: stored_entry_def)
  show ?thesis
    unfolding Log_def audit_Record_op_def Let_def none option.simps by (auto split: option.split)
qed

subsection \<open>Development tokens\<close>

text \<open>What a claim set looks like after JSON: every number is a \<^verbatim>\<open>float64\<close>.\<close>

fun json_back :: "jvalue \<Rightarrow> jvalue" where
  "json_back (JInt n) = JNum (f64_of_int n)"
| "json_back (JArr vs) = JArr (map json_back vs)"
| "json_back v = v"

text \<open>
  The contract of \<^verbatim>\<open>golang-jwt\<close> on one claim set: the text signed with a key parses under that key,
  for the issuer it carries, until it expires.
\<close>

definition jwt_faithful ::
  "(string \<Rightarrow> mapClaims \<Rightarrow> string option) \<Rightarrow> (string \<Rightarrow> string \<Rightarrow> time \<Rightarrow> string \<Rightarrow> mapClaims option) \<Rightarrow> string \<Rightarrow> mapClaims \<Rightarrow> bool"
where
  "jwt_faithful sign parse k m \<longleftrightarrow>
     (\<forall>tok iss e t. sign k m = Some tok \<and> m ''iss'' = Some (JStr iss) \<and> m ''exp'' = Some (JInt e) \<and> t < time_of_Unix e \<longrightarrow>
        parse k iss t tok = Some (\<lambda>key. map_option json_back (m key)))"

lemma f64_to_int_of_int: "\<bar>n\<bar> < 2 ^ 53 \<Longrightarrow> f64_to_int (f64_of_int n) = n"
proof -
  assume a: "\<bar>n\<bar> < 2 ^ 53"
  then have "fits64 n" by (auto simp: fits64_def abs_less_iff)
  then show ?thesis using a by (simp add: f64_of_int_small f64_to_int_def)
qed

subsection \<open>Properties\<close>

text \<open>
  C21: the roles a token grants are exactly those on the allowlist that it names, each once, after the
  baseline role: an unrecognised name grants nothing.  A name is that of a role when its runes, white
  space around it aside, are the letters of the role in either case; the folding of Unicode also takes
  a dotless i for an I and a long s for an S.
\<close>

theorem roles_are_allowlisted:
  "distinct (ParseRoles raw) \<and> hd (ParseRoles raw) = RoleUser \<and>
   set (ParseRoles raw) = insert RoleUser {r. \<exists>name \<in> set raw. list_all2 spells (decode_runes (TrimSpace name)) (Role_string r)}"
proof -
  have "capitals (Role_string r)" for r by (cases r) (simp_all add: capitals_def)
  then have "ParseRole name = Some r \<longleftrightarrow> list_all2 spells (decode_runes (TrimSpace name)) (Role_string r)" for name r
    unfolding ParseRole_iff by (rule ToUpper_capitals)
  then have "Some r \<in> ParseRole ` set raw \<longleftrightarrow> (\<exists>name \<in> set raw. list_all2 spells (decode_runes (TrimSpace name)) (Role_string r))" for r
    by (simp add: image_iff eq_commute)
  then show ?thesis using ParseRoles_spec [of raw] by auto
qed

text \<open>A claim spelt with a dotless i makes an administrator.\<close>

theorem dotless_role_accepted:
  "ParseRole [CHR ''a'', CHR ''d'', CHR ''m'', CHR 0xC4, CHR 0xB1, CHR ''n''] = Some RoleAdmin"
  by code_simp

text \<open>
  C15: over any sequence of requests, a subject whose account was disabled is not authenticated, however
  valid its token; logins never change an account's identifier, subject, creation or disabling, and keep
  the table's uniqueness.
\<close>

theorem disabled_locked_out:
  assumes "users_ok db" "auth_run verify recorder reqs (db, audit) = (ress, db', audit')"
  shows "(\<forall>r \<in> set db. ur_DisabledAt r \<noteq> None \<longrightarrow>
      (\<forall>p. Authenticated p \<in> set ress \<longrightarrow> pl_Subject p \<noteq> ur_ExternalSubject r)) \<and>
    users_ok db' \<and> prefix (map account_key db) (map account_key db')"
  using auth_run_keys [OF assms] auth_run_disabled [OF assms] by blast

definition sample_claims :: "string \<Rightarrow> Claims" where
  "sample_claims subject = \<lparr>cl_Subject = subject, cl_Email = subject, cl_DisplayName = subject, cl_Department = [],
     cl_Roles = [RoleUser, RoleAdmin], cl_IssuedAt = 0, cl_ExpiresAt = 0\<rparr>"

definition sample_account :: user_row where
  "sample_account = \<lparr>ur_ID = 7, ur_ExternalSubject = ''eve'', ur_Email = ''eve'', ur_DisplayName = ''eve'',
     ur_Department = [], ur_Role = ''ADMIN'', ur_DisabledAt = Some 5, ur_CreatedAt = 0, ur_UpdatedAt = 0\<rparr>"

definition sample_request :: "string \<Rightarrow> auth_request" where
  "sample_request subject = \<lparr>aq_Authorization = ''Bearer '' @ subject, aq_Method = ''GET'', aq_Path = ''/me'',
     aq_RemoteAddr = ''10.0.0.1:5000'', aq_RequestID = ''r''\<rparr>"

theorem disabled_locked_out_witness:
  "\<exists>ress db' audit'. auth_run (\<lambda>_ raw. Inr (sample_claims raw)) None
       [(8, 10, [], sample_request ''bob''), (9, 11, [], sample_request ''eve'')]
       ([sample_account], \<lparr>au_rows = [], au_next = 1\<rparr>) = (ress, db', audit') \<and>
     (\<exists>p. ress = [Authenticated p, Forbidden] \<and> pl_Subject p \<noteq> ''eve'') \<and> users_ok db' \<and> length db' = 2"
proof -
  let ?run = "auth_run (\<lambda>_ raw. Inr (sample_claims raw)) None
       [(8, 10, [], sample_request ''bob''), (9, 11, [], sample_request ''eve'')]
       ([sample_account], \<lparr>au_rows = [], au_next = 1\<rparr>)"
  obtain ress db' audit' where run: "?run = (ress, db', audit')" by (metis prod_cases3)
  have ok: "users_ok [sample_account]" by (simp add: users_ok_def)
  have "fst ?run = [Authenticated \<lparr>pl_UserID = 8, pl_Subject = ''bob'', pl_Email = ''bob'', pl_DisplayName = ''bob'',
      pl_Department = [], pl_Roles = [RoleUser, RoleAdmin]\<rparr>, Forbidden] \<and> length (fst (snd ?run)) = 2"
    by code_simp
  then have "(\<exists>p. ress = [Authenticated p, Forbidden]) \<and> length db' = 2" using run by simp
  moreover have "sample_account \<in> set [sample_account]" "ur_DisabledAt sample_account \<noteq> None"
      "ur_ExternalSubject sample_account = ''eve''"
    by (simp_all add: sample_account_def)
  ultimately show ?thesis using disabled_locked_out [OF ok run] run by fastforce
qed

text \<open>
  C18: the role gate lets a principal through exactly when it holds one of the roles the route asks
  for, and then touches nothing.  Every denial gives the audit log one entry that names who asked for
  what, from which address; with the audit store as recorder the entry becomes one record, unless a
  statement fails, the encoder fails or the address is not one the table can store, and then no
  record is written although the request is denied.
\<close>

theorem role_gate:
  assumes "RequireRole recorder roles r (Some p) audit = (res, audit')"
  shows "(res = Authenticated p \<longleftrightarrow> set roles \<inter> set (pl_Roles p) \<noteq> {}) \<and>
    (if res = Authenticated p then audit' = audit
     else res = Forbidden \<and> (\<exists>e. given_to_log recorder e audit audit' \<and>
       entry_fact e = (ActorUser, uuid_String (pl_UserID p), ActionAuthorizationDeny, ''endpoint'', aq_Method r @ '' '' @ aq_Path r, ResultDenied) \<and>
       ae_SourceIP e = auth_clientIP (aq_RemoteAddr r)))"
proof (cases "HasAnyRole p roles")
  case True
  then show ?thesis using assms by (auto simp: RequireRole_def HasAnyRole_iff)
next
  case False
  let ?e = "denial_entry roles r p"
  have "given_to_log recorder ?e audit (Log recorder ?e audit)"
    by (rule Log_given) (simp_all add: denial_entry_def blank_entry_def actor_known_def ActionAuthorizationDeny_def)
  moreover have "res = Forbidden" "audit' = Log recorder ?e audit" using False assms by (simp_all add: RequireRole_def)
  moreover have "entry_fact ?e = (ActorUser, uuid_String (pl_UserID p), ActionAuthorizationDeny, ''endpoint'', aq_Method r @ '' '' @ aq_Path r, ResultDenied)"
      "ae_SourceIP ?e = auth_clientIP (aq_RemoteAddr r)"
    by (simp_all add: entry_fact_def denial_entry_def blank_entry_def)
  moreover have "set roles \<inter> set (pl_Roles p) = {}" using False by (auto simp: HasAnyRole_iff)
  ultimately show ?thesis by auto
qed

definition sample_user :: Principal where
  "sample_user = \<lparr>pl_UserID = 7, pl_Subject = ''u'', pl_Email = [], pl_DisplayName = [], pl_Department = [],
     pl_Roles = [RoleUser]\<rparr>"

theorem role_gate_witness:
  "\<exists>audit' rec. RequireRole (Some (audit_Record_op (\<lambda>_. ''h'') (\<lambda>_. Some []) Some id 5 [])) [RoleAdmin]
       (sample_request ''u'') (Some sample_user) \<lparr>au_rows = [], au_next = 1\<rparr> = (Forbidden, audit') \<and>
     au_rows audit' = [rec] \<and> entry_fact (ar_Entry rec) =
       (ActorUser, uuid_String 7, ActionAuthorizationDeny, ''endpoint'', ''GET /me'', ResultDenied)"
proof -
  let ?rec = "Some (audit_Record_op (\<lambda>_. ''h'') (\<lambda>_. Some []) Some id 5 [])"
  obtain res audit' where run: "RequireRole ?rec [RoleAdmin] (sample_request ''u'') (Some sample_user)
      \<lparr>au_rows = [], au_next = 1\<rparr> = (res, audit')" by fastforce
  have "set [RoleAdmin] \<inter> set (pl_Roles sample_user) = {}" by (simp add: sample_user_def)
  then obtain e where "res = Forbidden" "given_to_log ?rec e \<lparr>au_rows = [], au_next = 1\<rparr> audit'"
      "entry_fact e = (ActorUser, uuid_String 7, ActionAuthorizationDeny, ''endpoint'', ''GET /me'', ResultDenied)"
    using role_gate [OF run] by (auto simp: sample_user_def sample_request_def split: if_splits)
  then show ?thesis using run unfolding given_to_log_def by fastforce
qed

text \<open>
  A denial of a peer with an IPv6 address leaves no record when the audit table rejects what is
  left of the address before its first colon.
\<close>

theorem ipv6_denial_unrecorded:
  assumes "inet ''[2001'' = None" "aq_RemoteAddr r = ''[2001:db8::1]:4000''" "set roles \<inter> set (pl_Roles p) = {}"
  shows "fst (RequireRole (Some (audit_Record_op sha enc inet jsonb now fs)) roles r (Some p) audit) = Forbidden \<and>
    au_rows (snd (RequireRole (Some (audit_Record_op sha enc inet jsonb now fs)) roles r (Some p) audit)) = au_rows audit"
proof -
  have "\<not> HasAnyRole p roles" using assms(3) by (auto simp: HasAnyRole_iff)
  moreover have "ae_SourceIP (denial_entry roles r p) = ''[2001''"
    by (simp add: denial_entry_def auth_clientIP_def assms(2) Cut_def)
  ultimately show ?thesis using assms(1) Log_loses [of inet "denial_entry roles r p"] by (simp add: RequireRole_def)
qed

theorem ipv6_denial_unrecorded_witness:
  "au_rows (snd (RequireRole (Some (audit_Record_op (\<lambda>_. ''h'') (\<lambda>_. Some []) (\<lambda>s. if s = ''[2001'' then None else Some s) id 5 []))
     [RoleAdmin] ((sample_request ''u'')\<lparr>aq_RemoteAddr := ''[2001:db8::1]:4000''\<rparr>) (Some sample_user)
     \<lparr>au_rows = [], au_next = 1\<rparr>)) = []"
proof -
  let ?inet = "\<lambda>s. if s = ''[2001'' then None else Some s"
  have "?inet ''[2001'' = None" by simp
  moreover have "aq_RemoteAddr ((sample_request ''u'')\<lparr>aq_RemoteAddr := ''[2001:db8::1]:4000''\<rparr>) = ''[2001:db8::1]:4000''"
    by simp
  moreover have "set [RoleAdmin] \<inter> set (pl_Roles sample_user) = {}" by (simp add: sample_user_def)
  ultimately show ?thesis
    using ipv6_denial_unrecorded [of ?inet "(sample_request ''u'')\<lparr>aq_RemoteAddr := ''[2001:db8::1]:4000''\<rparr>" "[RoleAdmin]"
        sample_user "\<lambda>_. ''h''" "\<lambda>_. Some []" id 5 "[]" "\<lparr>au_rows = [], au_next = 1\<rparr>"]
    by simp
qed

text \<open>
  C33: a development token verifies until it expires, and carries the identity it was minted for, with
  the roles of the allowlist and times rounded to seconds.
\<close>

theorem dev_token_round_trip:
  assumes "jwt_faithful sign parse (dv_secret d) (minted_claims d now subject email name department roles)"
    "Mint sign d now subject email name department roles = Some tok" "TrimSpace subject \<noteq> []"
    "0 < time_Unix now" "time_Unix now < 2 ^ 53"
    "0 < time_Unix (time_Add now (dv_ttl d))" "time_Unix (time_Add now (dv_ttl d)) < 2 ^ 53"
    "later < time_of_Unix (time_Unix (time_Add now (dv_ttl d)))"
  shows "Dev_Verify parse later d tok =
    Inr \<lparr>cl_Subject = subject, cl_Email = email, cl_DisplayName = (if name = [] then subject else name),
      cl_Department = department, cl_Roles = ParseRoles (toStrings roles),
      cl_IssuedAt = time_of_Unix (time_Unix now), cl_ExpiresAt = time_of_Unix (time_Unix (time_Add now (dv_ttl d)))\<rparr>"
proof -
  let ?m = "minted_claims d now subject email name department roles"
  have ne: "subject \<noteq> []" using assms(3) by auto
  have "sign (dv_secret d) ?m = Some tok" using assms(2) ne by (simp add: Mint_def)
  then have p: "parse (dv_secret d) DevIssuer later tok = Some (\<lambda>key. map_option json_back (?m key))"
    using assms(1,8) unfolding jwt_faithful_def by (auto simp: minted_claims_def)
  have ints: "f64_to_int (f64_of_int (time_Unix now)) = time_Unix now"
      "f64_to_int (f64_of_int (time_Unix (time_Add now (dv_ttl d)))) = time_Unix (time_Add now (dv_ttl d))"
    using assms(4-7) by (intro f64_to_int_of_int, linarith)+
  have roles: "List.map_filter (\<lambda>item. case item of JStr s \<Rightarrow> Some s | _ \<Rightarrow> None) (map (json_back \<circ> (\<lambda>r. JStr (Role_string r))) rs)
      = map Role_string rs" for rs
    by (induction rs) (simp_all add: List.map_filter_simps)
  show ?thesis
    using assms(3,4,6) ne
    by (simp add: Dev_Verify_def p minted_claims_def stringClaim_def int64Claim_def ints stringSliceClaim_def roles
        ParseRoles_fixed unixOrZero_def Claims_Validate_def)
qed


definition sample_dev :: DevVerifier where
  "sample_dev = \<lparr>dv_secret = ''k'', dv_ttl = hour\<rparr>"

definition sample_minted :: mapClaims where
  "sample_minted = minted_claims sample_dev (1700000000 * second) ''ada'' ''ada@bank'' [] [] [RoleAdmin]"

theorem dev_token_round_trip_witness:
  "Dev_Verify (\<lambda>k iss t tok. if tok = ''tok'' \<and> t < 1700003600 * second then Some (\<lambda>key. map_option json_back (sample_minted key)) else None)
     (1700000100 * second) sample_dev ''tok'' =
   Inr \<lparr>cl_Subject = ''ada'', cl_Email = ''ada@bank'', cl_DisplayName = ''ada'', cl_Department = [],
     cl_Roles = [RoleUser, RoleAdmin], cl_IssuedAt = 1700000000 * second, cl_ExpiresAt = 1700003600 * second\<rparr>"
proof -
  let ?parse = "\<lambda>k iss t tok. if tok = ''tok'' \<and> t < 1700003600 * second
      then Some (\<lambda>key. map_option json_back (sample_minted key)) else None"
  let ?now = "1700000000 * second"
  have u: "time_Unix ?now = 1700000000" "time_Unix (time_Add ?now (dv_ttl sample_dev)) = 1700003600"
      "time_of_Unix 1700000000 = 1700000000 * second" "time_of_Unix 1700003600 = 1700003600 * second"
    by (simp_all add: time_Unix_def time_Add_def time_of_Unix_def sample_dev_def go_consts wrap64_def)
  have "jwt_faithful (\<lambda>_ _. Some ''tok'') ?parse (dv_secret sample_dev) sample_minted"
    unfolding jwt_faithful_def sample_minted_def minted_claims_def using u by auto
  then have "Dev_Verify ?parse (1700000100 * second) sample_dev ''tok'' =
    Inr \<lparr>cl_Subject = ''ada'', cl_Email = ''ada@bank'', cl_DisplayName = (if [] = ([] :: string) then ''ada'' else []),
      cl_Department = [], cl_Roles = ParseRoles (toStrings [RoleAdmin]),
      cl_IssuedAt = time_of_Unix (time_Unix ?now),
      cl_ExpiresAt = time_of_Unix (time_Unix (time_Add ?now (dv_ttl sample_dev)))\<rparr>"
    unfolding sample_minted_def
    by (rule dev_token_round_trip, unfold u)
      (simp_all add: Mint_def second_def TrimSpace_ascii is_space_def)
  moreover have "ParseRoles (toStrings [RoleAdmin]) = [RoleUser, RoleAdmin]" by code_simp
  ultimately show ?thesis by (simp add: u)
qed

end
