(* ===== verification/Simulator.thy ===== *)
theory Simulator
  imports Trust Identity
begin

section \<open>Simulator: demonstration scenarios on the live tables\<close>

text \<open>
  Package \<^verbatim>\<open>internal/simulator\<close>: \<^verbatim>\<open>scenario.go\<close> and \<^verbatim>\<open>scenarios.go\<close> (the catalogue), \<^verbatim>\<open>runner.go\<close> (its execution
  against the tables of users, devices, sessions, postures, profiles and events, with an evaluation
  of trust after every step).  The closure a step runs is the list of primitives it calls; it stops at
  the first that fails.

  A run makes hundreds of calls.  \<open>sim_env\<close> gives each its own identifier, clock reading and faults by
  the number of calls before it, \<open>rn_tick\<close>.  \<open>sv_resources\<close> is the table of resources joined with
  that of applications, which the program only reads.
\<close>

subsection \<open>scenario.go and scenarios.go\<close>

definition habitualHour :: int where "habitualHour = 9"
definition habitualMinute :: int where "habitualMinute = 12"

record sessionOptions =
  so_Familiar :: bool
  so_AtHour :: int
  so_AtMinute :: int
  so_SourceIP :: string

definition no_options :: sessionOptions where
  "no_options = \<lparr>so_Familiar = False, so_AtHour = 0, so_AtMinute = 0, so_SourceIP = []\<rparr>"

text \<open>\<^verbatim>\<open>time.Date\<close> on the UTC day of \<open>now\<close>.\<close>

definition on_day_of :: "time \<Rightarrow> int \<Rightarrow> int \<Rightarrow> time" where
  "on_day_of now h m = (now div day) * day + h * hour + m * minute"

definition startedAt :: "sessionOptions \<Rightarrow> time \<Rightarrow> time" where
  "startedAt opts now =
     (let (h, m) = (if so_AtHour opts = 0 \<and> so_AtMinute opts = 0 then (habitualHour, habitualMinute)
                    else (so_AtHour opts, so_AtMinute opts))
      in on_day_of now h m)"

datatype primitive =
  EnrolDevice string
| StartSession sessionOptions
| AccessResource string string
| BulkAccess string string nat
| NetworkEvent string

record step =
  sp_label :: string
  sp_run :: "primitive list"

record Scenario =
  scn_Name :: string
  scn_Title :: string
  scn_Description :: string
  scn_Expectation :: string
  scn_steps :: "step list"

definition familiar :: sessionOptions where
  "familiar = no_options\<lparr>so_Familiar := True\<rparr>"

definition normalSession :: Scenario where
  "normalSession =
     \<lparr>scn_Name = ''normal-session'', scn_Title = ''Normal session'',
      scn_Description = ''A known user signs in from their usual device during working hours and opens internal applications.'',
      scn_Expectation = ''Risk stays in the LOW band and access is allowed.'',
      scn_steps =
        [\<lparr>sp_label = ''Sign in from the usual device'', sp_run = [StartSession familiar]\<rparr>,
         \<lparr>sp_label = ''Open mail'', sp_run = [AccessResource ''mail'' ''inbox'']\<rparr>,
         \<lparr>sp_label = ''Open the internal portal'', sp_run = [AccessResource ''portal'' ''policies'']\<rparr>]\<rparr>"

definition newDevice :: Scenario where
  "newDevice =
     \<lparr>scn_Name = ''new-device'', scn_Title = ''New device'',
      scn_Description = ''The same user signs in from a device they have never used before.'',
      scn_Expectation = ''The NEW_DEVICE factor appears and risk rises.'',
      scn_steps =
        [\<lparr>sp_label = ''Enrol an unfamiliar device'', sp_run = [EnrolDevice ''SIM-LAPTOP-NEW'']\<rparr>,
         \<lparr>sp_label = ''Sign in from the unfamiliar device'', sp_run = [StartSession no_options]\<rparr>,
         \<lparr>sp_label = ''Open mail'', sp_run = [AccessResource ''mail'' ''inbox'']\<rparr>]\<rparr>"

definition unusualLoginTime :: Scenario where
  "unusualLoginTime =
     \<lparr>scn_Name = ''unusual-login-time'', scn_Title = ''Unusual sign-in time'',
      scn_Description = ''The user signs in at 01:47, far outside the hours their own history shows.'',
      scn_Expectation = ''UNUSUAL_LOGIN_TIME appears, judged against this user's baseline rather than an office norm.'',
      scn_steps =
        [\<lparr>sp_label = ''Sign in at 01:47'', sp_run = [StartSession (familiar\<lparr>so_AtHour := 1, so_AtMinute := 47\<rparr>)]\<rparr>,
         \<lparr>sp_label = ''Open the operations portal'', sp_run = [AccessResource ''operations'' ''field-reports'']\<rparr>]\<rparr>"

definition sensitiveAccess :: Scenario where
  "sensitiveAccess =
     \<lparr>scn_Name = ''sensitive-resource'', scn_Title = ''Sensitive resource access'',
      scn_Description = ''The same session reaches a CRITICAL resource instead of an internal one.'',
      scn_Expectation = ''CRITICAL_RESOURCE contributes and the policy answer becomes stricter for identical behaviour.'',
      scn_steps =
        [\<lparr>sp_label = ''Sign in normally'', sp_run = [StartSession familiar]\<rparr>,
         \<lparr>sp_label = ''Open an internal resource'', sp_run = [AccessResource ''portal'' ''policies'']\<rparr>,
         \<lparr>sp_label = ''Open the classified operations database'', sp_run = [AccessResource ''critical'' ''operations-db'']\<rparr>]\<rparr>"

definition abnormalVolume :: Scenario where
  "abnormalVolume =
     \<lparr>scn_Name = ''abnormal-volume'', scn_Title = ''Abnormal access volume'',
      scn_Description = ''The session reads far more than this user's history shows they ever do.'',
      scn_Expectation = ''ABNORMAL_ACCESS_VOLUME appears once the z-score exceeds three.'',
      scn_steps =
        [\<lparr>sp_label = ''Sign in normally'', sp_run = [StartSession familiar]\<rparr>,
         \<lparr>sp_label = ''Read 120 records in quick succession'', sp_run = [BulkAccess ''operations'' ''field-reports'' 120]\<rparr>]\<rparr>"

definition networkAnomaly :: Scenario where
  "networkAnomaly =
     \<lparr>scn_Name = ''network-anomaly'', scn_Title = ''Unusual network'',
      scn_Description = ''The session connects from a network this user has never used, and reaches an unfamiliar destination.'',
      scn_Expectation = ''UNUSUAL_NETWORK contributes to the score.'',
      scn_steps =
        [\<lparr>sp_label = ''Sign in from an unfamiliar network'', sp_run = [StartSession (no_options\<lparr>so_SourceIP := ''203.0.113.77''\<rparr>)]\<rparr>,
         \<lparr>sp_label = ''Connect to an unfamiliar destination'', sp_run = [NetworkEvent ''198.51.100.42:8443'']\<rparr>]\<rparr>"

definition compromisedSession :: Scenario where
  "compromisedSession =
     \<lparr>scn_Name = ''compromised-session'', scn_Title = ''Compromised employee session'',
      scn_Description = ''A credential is used from an unfamiliar device at 01:47, reaches classified '' @
        ''material, reads at a volume the user has never reached, and connects to an unfamiliar destination.'',
      scn_Expectation = ''Risk escalates step by step until policy isolates the session and opens one incident.'',
      scn_steps =
        [\<lparr>sp_label = ''Normal sign-in, usual device'', sp_run = [StartSession familiar, AccessResource ''mail'' ''inbox'']\<rparr>,
         \<lparr>sp_label = ''Credential used from a new device'', sp_run = [EnrolDevice ''SIM-LAPTOP-UNKNOWN'', StartSession no_options]\<rparr>,
         \<lparr>sp_label = ''Sign-in at 01:47 from an unfamiliar network'',
          sp_run = [StartSession (no_options\<lparr>so_AtHour := 1, so_AtMinute := 47, so_SourceIP := ''203.0.113.77''\<rparr>),
                    NetworkEvent ''198.51.100.42:8443'']\<rparr>,
         \<lparr>sp_label = ''Classified resource reached'', sp_run = [AccessResource ''critical'' ''deployment-plans'']\<rparr>,
         \<lparr>sp_label = ''Abnormal read volume'', sp_run = [BulkAccess ''critical'' ''operations-db'' 140]\<rparr>]\<rparr>"

definition Catalogue :: "Scenario list" where
  "Catalogue = [normalSession, newDevice, unusualLoginTime, sensitiveAccess, abnormalVolume, networkAnomaly,
     compromisedSession]"

definition Find :: "string \<Rightarrow> Scenario option" where
  "Find name = find (\<lambda>candidate. scn_Name candidate = name) Catalogue"

record StepResult =
  st_Step :: string
  st_At :: time
  st_EventsAdded :: nat
  st_Score :: "int option"
  st_Level :: string
  st_Decision :: string
  st_Factors :: "string list"
  st_IncidentID :: string

record sim_Result =
  sl_Scenario :: string
  sl_SessionID :: string
  sl_UserName :: string
  sl_DeviceName :: string
  sl_StartedAt :: time
  sl_Steps :: "StepResult list"
  sl_FinalScore :: int
  sl_FinalLevel :: string
  sl_Decision :: string
  sl_IncidentID :: string

text \<open>\<^verbatim>\<open>%-ns\<close> pads to \<open>n\<close> runes: the bytes that do not continue a UTF-8 sequence.\<close>

definition rune_count :: "string \<Rightarrow> nat" where
  "rune_count s = length (filter (\<lambda>c. \<not> (128 \<le> (of_char c :: nat) \<and> (of_char c :: nat) < 192)) s)"

definition pad_right :: "nat \<Rightarrow> string \<Rightarrow> string" where
  "pad_right n s = s @ replicate (n - rune_count s) (CHR '' '')"

definition em_dash :: string where
  "em_dash = [CHR 0xE2, CHR 0x80, CHR 0x94]"

definition Summary :: "sim_Result \<Rightarrow> string" where
  "Summary r =
     foldl (\<lambda>out step. out @ ''  '' @ pad_right 34 (st_Step step) @ '' risk '' @
         pad_right 4 (case st_Score step of None \<Rightarrow> em_dash | Some n \<Rightarrow> show_int n) @ '' '' @
         pad_right 9 (st_Level step) @ '' '' @ st_Decision step @ [newline])
       (sl_Scenario r @ '' '' @ em_dash @ '' '' @ sl_UserName r @ '' on '' @ sl_DeviceName r @ [newline])
       (sl_Steps r)"

subsection \<open>runner.go: state\<close>

record sim_env =
  sv_now :: "nat \<Rightarrow> time"
  sv_id :: "nat \<Rightarrow> uuid"
  sv_faults :: "nat \<Rightarrow> faults"
  sv_random :: "nat \<Rightarrow> string option"
  sv_encodes :: "metadata \<Rightarrow> bool"
  sv_resources :: "string \<Rightarrow> string \<Rightarrow> (uuid \<times> Sensitivity) option"
  sv_eval :: "nat \<Rightarrow> trust_env"

text \<open>The fields of \<^verbatim>\<open>run\<close>, then the tables it works on and the number of calls made.\<close>

record run =
  rn_now :: time
  rn_userID :: uuid
  rn_homeDevice :: uuid
  rn_currentDevice :: uuid
  rn_sessionID :: uuid
  rn_added :: nat
  rn_trust :: trust_state
  rn_users :: "user_row list"
  rn_tick :: nat

datatype sim_error = ErrSim string | ErrSimStep string sim_error | ErrSimEvaluate string trust_error

definition called :: "run \<Rightarrow> run" where
  "called r = r\<lparr>rn_tick := Suc (rn_tick r)\<rparr>"

definition sim_fails :: "sim_env \<Rightarrow> run \<Rightarrow> string \<Rightarrow> bool" where
  "sim_fails env r stmt = fault (sv_faults env (rn_tick r)) stmt"

subsection \<open>runner.go: events\<close>

definition eventFor :: "event_Type \<Rightarrow> Severity \<Rightarrow> metadata \<Rightarrow> Event" where
  "eventFor eventType sev metadata =
     \<lparr>ev_ID = uuid_Nil, ev_AgentEventID = [], ev_OccurredAt = zero_time, ev_ReceivedAt = zero_time,
      ev_DeviceID = None, ev_UserID = None, ev_SessionID = None, ev_Type = eventType, ev_Severity = sev,
      ev_Source = SourceSimulator, ev_Metadata = metadata, ev_DeviceHostname = [], ev_UserName = []\<rparr>"

definition simulated_row :: "uuid \<Rightarrow> time \<Rightarrow> Event \<Rightarrow> uuid \<Rightarrow> event_row" where
  "simulated_row ident now e resourceID =
     \<lparr>er_ID = ident, er_OccurredAt = time_Truncate_us (if time_IsZero (ev_OccurredAt e) then now else ev_OccurredAt e),
      er_ReceivedAt = time_Truncate_us now, er_DeviceID = ev_DeviceID e, er_UserID = ev_UserID e,
      er_SessionID = ev_SessionID e, er_Type = ev_Type e,
      er_ResourceID = (if resourceID \<noteq> uuid_Nil then Some resourceID else None), er_Severity = ev_Severity e,
      er_Source = ev_Source e, er_Metadata = ev_Metadata e, er_AgentEventID = None, er_BatchID = None\<rparr>"

definition recordWithResource :: "sim_env \<Rightarrow> Event \<Rightarrow> uuid \<Rightarrow> run \<Rightarrow> sim_error option \<times> run" where
  "recordWithResource env e resourceID r =
     (let ident = sv_id env (rn_tick r); now = sv_now env (rn_tick r); db = ts_events (rn_trust r)
      in if \<not> sv_encodes env (ev_Metadata e) then (Some (ErrSim ''encode simulated metadata''), r)
         else if sim_fails env r ''record simulated event'' \<or> \<not> knownTypes (ev_Type e) \<or>
                 \<not> knownSeverities (ev_Severity e) \<or> \<not> pg_json (ev_Metadata e) \<or> ident \<in> set (map er_ID db)
         then (Some (ErrSim ''record simulated event''), called r)
         else (None, called (r\<lparr>rn_trust := (rn_trust r)\<lparr>ts_events := db @ [simulated_row ident now e resourceID]\<rparr>\<rparr>)))"

definition recordResource ::
  "sim_env \<Rightarrow> event_Type \<Rightarrow> Severity \<Rightarrow> uuid \<Rightarrow> metadata \<Rightarrow> run \<Rightarrow> sim_error option \<times> run" where
  "recordResource env eventType sev resourceID metadata r =
     (let event = (eventFor eventType sev metadata)
            \<lparr>ev_DeviceID := Some (rn_currentDevice r), ev_UserID := Some (rn_userID r)\<rparr>;
          event = (if rn_sessionID r \<noteq> uuid_Nil then event\<lparr>ev_SessionID := Some (rn_sessionID r)\<rparr> else event)
      in case recordWithResource env event resourceID r of
           (Some e, r) \<Rightarrow> (Some e, r)
         | (None, r) \<Rightarrow> (None, r\<lparr>rn_added := Suc (rn_added r)\<rparr>))"

definition record_event :: "sim_env \<Rightarrow> event_Type \<Rightarrow> Severity \<Rightarrow> metadata \<Rightarrow> run \<Rightarrow> sim_error option \<times> run" where
  "record_event env eventType sev metadata r = recordResource env eventType sev uuid_Nil metadata r"

subsection \<open>runner.go: devices\<close>

definition simulated_signals :: Signals where
  "simulated_signals = \<lparr>DiskEncryption = Some True, SecureBoot = Some True, Firewall = Some True, ScreenLock = Some True,
     AntiMalware = Some True, OSName = ''windows'', OSVersion = ''11'', CollectionErrors = []\<rparr>"

definition seedPosture :: "sim_env \<Rightarrow> uuid \<Rightarrow> run \<Rightarrow> sim_error option \<times> run" where
  "seedPosture env device r =
     (if sim_fails env r ''count simulated posture'' then (Some (ErrSim ''count simulated posture''), called r)
      else if filter (\<lambda>p. pr_DeviceID p = device) (ts_postures (rn_trust r)) \<noteq> [] then (None, called r)
      else
        (let r = called r;
             now = sv_now env (rn_tick r);
             assessment = posture_Evaluate simulated_signals
               \<lparr>dc_Active = True, dc_KeyProtection = ''software'', dc_AgentVersion = ''0.1.0'', dc_ExpectedAgent = ''0.1.0'',
                dc_LastHeartbeatAt = Some now, dc_Now = now\<rparr> posture_DefaultWeights
         in case posture_Record_op (sv_id env (rn_tick r)) now (sv_faults env (rn_tick r)) device simulated_signals
                   assessment (ts_postures (rn_trust r)) of
              (res, db) \<Rightarrow>
                ((case res of Inl _ \<Rightarrow> Some (ErrSim ''record simulated posture'') | Inr _ \<Rightarrow> None),
                 called (r\<lparr>rn_trust := (rn_trust r)\<lparr>ts_postures := db\<rparr>\<rparr>))))"

definition simulated_device :: "uuid \<Rightarrow> time \<Rightarrow> string \<Rightarrow> string \<Rightarrow> string \<Rightarrow> Device" where
  "simulated_device ident now uid hostname publicKey =
     \<lparr>d_ID = ident, d_DeviceUID = uid, d_Hostname = hostname, d_OSName = ''windows'', d_OSVersion = ''11'',
      d_AgentVersion = ''0.1.0'', d_PublicKey = publicKey, d_KeyAlgorithm = ''ed25519'', d_KeyProtection = ''software'',
      d_State = StateActive, d_EnrolledAt = Some now, d_LastHeartbeatAt = Some now, d_RevokedAt = None,
      d_RevokedReason = [], d_CreatedAt = now\<rparr>"

definition revive :: "string \<Rightarrow> time \<Rightarrow> Device \<Rightarrow> Device" where
  "revive uid now d = (if d_DeviceUID d = uid then d\<lparr>d_LastHeartbeatAt := Some now\<rparr> else d)"

definition ensureDevice :: "sim_env \<Rightarrow> string \<Rightarrow> string \<Rightarrow> run \<Rightarrow> (sim_error + uuid) \<times> run" where
  "ensureDevice env key hostname r =
     (case sv_random env (rn_tick r) of
        None \<Rightarrow> (Inl (ErrSim ''generate simulated device key''), called r)
      | Some publicKey \<Rightarrow>
          (let r = called r;
               uid = ''netra-sim-'' @ key;
               ident = sv_id env (rn_tick r);
               now = sv_now env (rn_tick r);
               db = ts_devices (rn_trust r);
               known = find (\<lambda>d. d_DeviceUID d = uid) (dd_devices db)
           in if sim_fails env r ''prepare simulated device'' \<or> (known = None \<and> ident \<in> set (map d_ID (dd_devices db)))
              then (Inl (ErrSim ''prepare simulated device''), called r)
              else
                (let (device, devices) =
                       (case known of
                          Some d \<Rightarrow> (d_ID d, map (revive uid now) (dd_devices db))
                        | None \<Rightarrow> (ident, dd_devices db @ [simulated_device ident now uid hostname publicKey]));
                     r = called (r\<lparr>rn_trust := (rn_trust r)\<lparr>ts_devices := db\<lparr>dd_devices := devices\<rparr>\<rparr>\<rparr>)
                 in case seedPosture env device r of
                      (Some e, r) \<Rightarrow> (Inl e, r)
                    | (None, r) \<Rightarrow> (Inr device, r))))"

definition enrolDevice :: "sim_env \<Rightarrow> string \<Rightarrow> run \<Rightarrow> sim_error option \<times> run" where
  "enrolDevice env hostname r =
     (case sv_random env (rn_tick r) of
        None \<Rightarrow> (Some (ErrSim ''random''), called r)
      | Some tail \<Rightarrow>
          (case ensureDevice env (hex_encode tail) hostname (called r) of
             (Inl e, r) \<Rightarrow> (Some e, r)
           | (Inr device, r) \<Rightarrow>
               record_event env TypeDeviceEnrollment SeverityMedium [(''hostname'', hostname), (''simulated'', ''true'')]
                 (r\<lparr>rn_currentDevice := device\<rparr>)))"

subsection \<open>runner.go: sessions and resources\<close>

definition simulated_session :: "uuid \<Rightarrow> uuid \<Rightarrow> uuid \<Rightarrow> Status \<Rightarrow> string \<Rightarrow> time \<Rightarrow> time \<Rightarrow> time option \<Rightarrow> Session" where
  "simulated_session ident user device status sourceIP started seen ended_at =
     \<lparr>s_ID = ident, s_UserID = user, s_DeviceID = device, s_Status = status, s_AuthMethod = ''oidc'',
      s_Attestation = AttestationDeviceSignature, s_SourceIP = sourceIP, s_CurrentRisk = None, s_CurrentLevel = [],
      s_StartedAt = started, s_LastSeenAt = seen, s_EndedAt = ended_at, s_UserDisplayName = [], s_UserEmail = [],
      s_DeviceHostname = [], s_DeviceUID = []\<rparr>"

definition insert_session :: "sim_env \<Rightarrow> string \<Rightarrow> (uuid \<Rightarrow> Session) \<Rightarrow> run \<Rightarrow> (sim_error + uuid) \<times> run" where
  "insert_session env stmt row r =
     (let ident = sv_id env (rn_tick r); db = ts_sessions (rn_trust r)
      in if sim_fails env r stmt \<or> ident \<in> set (map s_ID (sd_sessions db)) then (Inl (ErrSim stmt), called r)
         else (Inr ident, called (r\<lparr>rn_trust := (rn_trust r)\<lparr>ts_sessions := db\<lparr>sd_sessions := sd_sessions db @ [row ident]\<rparr>\<rparr>\<rparr>)))"

definition clock_label :: "time \<Rightarrow> string" where
  "clock_label t = pad 2 (int (time_Hour t)) @ '':'' @ pad 2 ((t div minute) mod 60)"

definition startSession :: "sim_env \<Rightarrow> sessionOptions \<Rightarrow> run \<Rightarrow> sim_error option \<times> run" where
  "startSession env opts r =
     (let r = (if so_Familiar opts then r\<lparr>rn_currentDevice := rn_homeDevice r\<rparr> else r);
          device = rn_currentDevice r;
          sourceIP = (if so_SourceIP opts = [] then ''10.10.4.21'' else so_SourceIP opts);
          started = startedAt opts (rn_now r);
          now = sv_now env (rn_tick r)
      in case insert_session env ''open simulated session''
                (\<lambda>ident. simulated_session ident (rn_userID r) device StatusActive sourceIP started now None) r of
           (Inl e, r) \<Rightarrow> (Some e, r)
         | (Inr sid, r) \<Rightarrow>
             record_event env TypeAuthLogin SeverityInfo [(''source_ip'', sourceIP), (''hour'', clock_label started)]
               (r\<lparr>rn_sessionID := sid\<rparr>))"

definition resolveResource :: "sim_env \<Rightarrow> string \<Rightarrow> string \<Rightarrow> run \<Rightarrow> (sim_error + uuid \<times> Sensitivity) \<times> run" where
  "resolveResource env applicationKey resourceKey r =
     (if sim_fails env r ''resolve resource'' then (Inl (ErrSim ''resolve resource''), called r)
      else case sv_resources env applicationKey resourceKey of
             None \<Rightarrow> (Inl (ErrSim ''resolve resource''), called r)
           | Some found \<Rightarrow> (Inr found, called r))"

definition accessResource :: "sim_env \<Rightarrow> string \<Rightarrow> string \<Rightarrow> run \<Rightarrow> sim_error option \<times> run" where
  "accessResource env applicationKey resourceKey r =
     (case resolveResource env applicationKey resourceKey r of
        (Inl e, r) \<Rightarrow> (Some e, r)
      | (Inr (resourceID, sensitivity), r) \<Rightarrow>
          (let sev = (if Sensitivity_string sensitivity = ''CRITICAL'' then SeverityMedium else SeverityInfo)
           in recordResource env TypeResourceAccess sev resourceID
                [(''application'', applicationKey), (''resource'', resourceKey), (''sensitivity'', Sensitivity_string sensitivity)] r))"

fun bulk_loop :: "sim_env \<Rightarrow> string \<Rightarrow> string \<Rightarrow> uuid \<Rightarrow> Sensitivity \<Rightarrow> nat list \<Rightarrow> run \<Rightarrow> sim_error option \<times> run" where
  "bulk_loop env app res resourceID sensitivity [] r = (None, r)"
| "bulk_loop env app res resourceID sensitivity (i # rest) r =
     (case recordResource env TypeResourceAccess SeverityInfo resourceID
             [(''application'', app), (''resource'', res), (''sensitivity'', Sensitivity_string sensitivity),
              (''sequence'', show_int (int i))] r of
        (Some e, r) \<Rightarrow> (Some e, r)
      | (None, r) \<Rightarrow> bulk_loop env app res resourceID sensitivity rest r)"

definition bulkAccess :: "sim_env \<Rightarrow> string \<Rightarrow> string \<Rightarrow> nat \<Rightarrow> run \<Rightarrow> sim_error option \<times> run" where
  "bulkAccess env applicationKey resourceKey n r =
     (case resolveResource env applicationKey resourceKey r of
        (Inl e, r) \<Rightarrow> (Some e, r)
      | (Inr (resourceID, sensitivity), r) \<Rightarrow> bulk_loop env applicationKey resourceKey resourceID sensitivity [0..<n] r)"

definition networkEvent :: "sim_env \<Rightarrow> string \<Rightarrow> run \<Rightarrow> sim_error option \<times> run" where
  "networkEvent env destination r =
     record_event env TypeNetworkEvent SeverityLow [(''destination'', destination)] r"

subsection \<open>runner.go: preparation\<close>

definition seeded_event :: "uuid \<Rightarrow> uuid \<Rightarrow> uuid \<Rightarrow> time \<Rightarrow> Event" where
  "seeded_event device user session occurred =
     (eventFor TypeResourceAccess SeverityInfo [(''application'', ''mail''), (''seeded'', ''true'')])
       \<lparr>ev_OccurredAt := occurred, ev_DeviceID := Some device, ev_UserID := Some user, ev_SessionID := Some session\<rparr>"

fun seed_events :: "sim_env \<Rightarrow> uuid \<Rightarrow> uuid \<Rightarrow> uuid \<Rightarrow> time \<Rightarrow> nat list \<Rightarrow> run \<Rightarrow> sim_error option \<times> run" where
  "seed_events env device user session started [] r = (None, r)"
| "seed_events env device user session started (i # rest) r =
     (case RecordBackendEvent (sv_encodes env) (sv_id env (rn_tick r)) (sv_now env (rn_tick r)) (sv_faults env (rn_tick r))
             (seeded_event device user session (time_Add started (int i * minute))) (ts_events (rn_trust r)) of
        (Some e, db) \<Rightarrow> (Some (ErrSim ''seed event''), called (r\<lparr>rn_trust := (rn_trust r)\<lparr>ts_events := db\<rparr>\<rparr>))
      | (None, db) \<Rightarrow> seed_events env device user session started rest (called (r\<lparr>rn_trust := (rn_trust r)\<lparr>ts_events := db\<rparr>\<rparr>)))"

text \<open>\<open>days\<close> are the values the loop variable still takes.\<close>

fun seed_days :: "sim_env \<Rightarrow> uuid \<Rightarrow> uuid \<Rightarrow> time \<Rightarrow> nat list \<Rightarrow> run \<Rightarrow> sim_error option \<times> run" where
  "seed_days env user device now [] r = (None, r)"
| "seed_days env user device now (d # days) r =
     (let started = time_AddDays (on_day_of now 9 12) (- int d)
      in case insert_session env ''seed session''
                (\<lambda>ident. simulated_session ident user device StatusEnded ''10.10.4.21'' started started (Some started)) r of
           (Inl e, r) \<Rightarrow> (Some e, r)
         | (Inr sid, r) \<Rightarrow>
             (case seed_events env device user sid started [0..<18 + d mod 7] r of
                (Some e, r) \<Rightarrow> (Some e, r)
              | (None, r) \<Rightarrow> seed_days env user device now days r))"

definition seedHistory :: "sim_env \<Rightarrow> uuid \<Rightarrow> uuid \<Rightarrow> run \<Rightarrow> sim_error option \<times> run" where
  "seedHistory env user device r =
     (let existing = int (length (filter (\<lambda>s. s_UserID s = user) (sd_sessions (ts_sessions (rn_trust r)))))
      in if sim_fails env r ''count seeded sessions'' then (Some (ErrSim ''count seeded sessions''), called r)
         else if existing \<ge> MinimumObservations then (None, called r)
         else case seed_days env user device (sv_now env (rn_tick r)) (rev [1..<31]) (called r) of
                (Some e, r) \<Rightarrow> (Some e, r)
              | (None, r) \<Rightarrow>
                  (case Rebuild (sv_now env (rn_tick r)) (sv_now env (Suc (rn_tick r))) (sv_faults env (rn_tick r))
                          (ts_sessions (rn_trust r)) (ts_events (rn_trust r)) user DefaultWindowDays
                          (ts_profiles (rn_trust r)) of
                     (res, db) \<Rightarrow>
                       ((case res of Inl _ \<Rightarrow> Some (ErrSim ''build seeded baseline'') | Inr _ \<Rightarrow> None),
                        called (called (r\<lparr>rn_trust := (rn_trust r)\<lparr>ts_profiles := db\<rparr>\<rparr>)))))"

definition sim_subject :: string where "sim_subject = ''sim-alice''"
definition sim_email :: string where "sim_email = ''alice.sharma@example.gov''"

definition simulated_user :: "uuid \<Rightarrow> time \<Rightarrow> user_row" where
  "simulated_user ident now =
     \<lparr>ur_ID = ident, ur_ExternalSubject = sim_subject, ur_Email = sim_email, ur_DisplayName = ''Alice Sharma'',
      ur_Department = ''Operations'', ur_Role = ''USER'', ur_DisabledAt = None, ur_CreatedAt = now, ur_UpdatedAt = now\<rparr>"

definition prepare_user :: "sim_env \<Rightarrow> run \<Rightarrow> (sim_error + uuid) \<times> run" where
  "prepare_user env r =
     (let ident = sv_id env (rn_tick r);
          now = sv_now env (rn_tick r);
          users = rn_users r;
          taken = list_ex (\<lambda>u. ur_ExternalSubject u \<noteq> sim_subject \<and> ToLower (ur_Email u) = sim_email) users
      in if sim_fails env r ''prepare simulated user'' then (Inl (ErrSim ''prepare simulated user''), called r)
         else case find (\<lambda>u. ur_ExternalSubject u = sim_subject) users of
                Some u \<Rightarrow>
                  (Inr (ur_ID u), called (r\<lparr>rn_users :=
                     map (\<lambda>u. if ur_ExternalSubject u = sim_subject then u\<lparr>ur_UpdatedAt := now\<rparr> else u) users\<rparr>))
              | None \<Rightarrow>
                  if taken \<or> ident \<in> set (map ur_ID users) then (Inl (ErrSim ''prepare simulated user''), called r)
                  else (Inr ident, called (r\<lparr>rn_users := users @ [simulated_user ident now]\<rparr>)))"

definition prepare :: "sim_env \<Rightarrow> trust_state \<Rightarrow> user_row list \<Rightarrow> sim_error option \<times> run" where
  "prepare env st users =
     (let r = \<lparr>rn_now = sv_now env 0, rn_userID = uuid_Nil, rn_homeDevice = uuid_Nil, rn_currentDevice = uuid_Nil,
               rn_sessionID = uuid_Nil, rn_added = 0, rn_trust = st, rn_users = users, rn_tick = 1\<rparr>
      in case prepare_user env r of
           (Inl e, r) \<Rightarrow> (Some e, r)
         | (Inr user, r) \<Rightarrow>
             (case ensureDevice env ''sim-home'' ''SIM-LAPTOP-01'' (r\<lparr>rn_userID := user\<rparr>) of
                (Inl e, r) \<Rightarrow> (Some e, r)
              | (Inr device, r) \<Rightarrow>
                  seedHistory env user device (r\<lparr>rn_homeDevice := device, rn_currentDevice := device\<rparr>)))"

subsection \<open>runner.go: running a scenario\<close>

fun run_primitive :: "sim_env \<Rightarrow> primitive \<Rightarrow> run \<Rightarrow> sim_error option \<times> run" where
  "run_primitive env (EnrolDevice hostname) r = enrolDevice env hostname r"
| "run_primitive env (StartSession opts) r = startSession env opts r"
| "run_primitive env (AccessResource app res) r = accessResource env app res r"
| "run_primitive env (BulkAccess app res n) r = bulkAccess env app res n r"
| "run_primitive env (NetworkEvent destination) r = networkEvent env destination r"

fun run_primitives :: "sim_env \<Rightarrow> primitive list \<Rightarrow> run \<Rightarrow> sim_error option \<times> run" where
  "run_primitives env [] r = (None, r)"
| "run_primitives env (p # ps) r =
     (case run_primitive env p r of (Some e, r) \<Rightarrow> (Some e, r) | (None, r) \<Rightarrow> run_primitives env ps r)"

definition blank_step :: "string \<Rightarrow> time \<Rightarrow> nat \<Rightarrow> StepResult" where
  "blank_step label now added =
     \<lparr>st_Step = label, st_At = now, st_EventsAdded = added, st_Score = None, st_Level = [], st_Decision = [],
      st_Factors = [], st_IncidentID = []\<rparr>"

definition scored_step :: "Outcome \<Rightarrow> StepResult \<Rightarrow> StepResult" where
  "scored_step out sr =
     sr\<lparr>st_Score := Some (ra_Score (oc_Assessment out)), st_Level := Level_string (ra_Level (oc_Assessment out)),
        st_Decision := Decision_string (rs_Decision (oc_Decision out)), st_Factors := Codes (oc_Assessment out),
        st_IncidentID := (case oc_IncidentID out of None \<Rightarrow> [] | Some i \<Rightarrow> uuid_String i)\<rparr>"

definition scored_result :: "Outcome \<Rightarrow> uuid \<Rightarrow> sim_Result \<Rightarrow> sim_Result" where
  "scored_result out sid res =
     res\<lparr>sl_IncidentID := (case oc_IncidentID out of None \<Rightarrow> sl_IncidentID res | Some i \<Rightarrow> uuid_String i),
         sl_FinalScore := ra_Score (oc_Assessment out), sl_FinalLevel := Level_string (ra_Level (oc_Assessment out)),
         sl_Decision := Decision_string (rs_Decision (oc_Decision out)), sl_SessionID := uuid_String sid\<rparr>"

fun run_steps :: "sim_env \<Rightarrow> string \<Rightarrow> step list \<Rightarrow> sim_Result \<Rightarrow> run \<Rightarrow> (sim_error + sim_Result) \<times> run" where
  "run_steps env name [] res r = (Inr res, r)"
| "run_steps env name (s # rest) res r =
     (case run_primitives env (sp_run s) (r\<lparr>rn_added := 0\<rparr>) of
        (Some e, r) \<Rightarrow> (Inl (ErrSimStep (sp_label s) e), r)
      | (None, r) \<Rightarrow>
          (let sr = blank_step (sp_label s) (sv_now env (rn_tick r)) (rn_added r); r = called r
           in if rn_sessionID r = uuid_Nil then run_steps env name rest (res\<lparr>sl_Steps := sl_Steps res @ [sr]\<rparr>) r
              else
                (case trust_Evaluate (sv_eval env (rn_tick r)) (rn_sessionID r) (''simulator:'' @ name) (rn_trust r) of
                   (Inl e, st) \<Rightarrow> (Inl (ErrSimEvaluate (sp_label s) e), called (r\<lparr>rn_trust := st\<rparr>))
                 | (Inr out, st) \<Rightarrow>
                     (let res = scored_result out (rn_sessionID r) res
                      in run_steps env name rest (res\<lparr>sl_Steps := sl_Steps res @ [scored_step out sr]\<rparr>)
                           (called (r\<lparr>rn_trust := st\<rparr>))))))"

definition blank_result :: "string \<Rightarrow> time \<Rightarrow> sim_Result" where
  "blank_result name started =
     \<lparr>sl_Scenario = name, sl_SessionID = [], sl_UserName = [], sl_DeviceName = [], sl_StartedAt = started, sl_Steps = [],
      sl_FinalScore = 0, sl_FinalLevel = [], sl_Decision = [], sl_IncidentID = []\<rparr>"

definition label_result :: "sim_env \<Rightarrow> run \<Rightarrow> sim_Result \<Rightarrow> sim_Result" where
  "label_result env r res =
     (case (find (\<lambda>u. ur_ID u = rn_userID r) (rn_users r),
            find (\<lambda>d. d_ID d = rn_currentDevice r) (dd_devices (ts_devices (rn_trust r)))) of
        (Some u, Some d) \<Rightarrow>
          if sim_fails env r ''label simulation'' then res
          else res\<lparr>sl_UserName := ur_DisplayName u, sl_DeviceName := d_Hostname d\<rparr>
      | _ \<Rightarrow> res)"

definition Run :: "sim_env \<Rightarrow> Scenario \<Rightarrow> trust_state \<Rightarrow> user_row list \<Rightarrow> (sim_error + sim_Result) \<times> trust_state \<times> user_row list" where
  "Run env scenario st users =
     (case prepare env st users of
        (Some e, r) \<Rightarrow> (Inl e, rn_trust r, rn_users r)
      | (None, r) \<Rightarrow>
          (case run_steps env (scn_Name scenario) (scn_steps scenario) (blank_result (scn_Name scenario) (rn_now r)) r of
             (Inl e, r) \<Rightarrow> (Inl e, rn_trust r, rn_users r)
           | (Inr res, r) \<Rightarrow> (Inr (label_result env r res), rn_trust r, rn_users r)))"

subsection \<open>What the primitives of a scenario may do\<close>

text \<open>
  \<open>sim_adds r r'\<close>: nothing that judges a session or that only an administrator decides is touched,
  sessions and events are only added, the sessions without a score and the events marked as simulated.
\<close>

text \<open>
  Every enrollment token as it was issued, that is all of its row but the columns that say it was spent,
  and every revocation with its time and reason.
\<close>

type_synonym administered = "(uuid \<times> string \<times> string \<times> uuid option \<times> time) list \<times> (uuid \<times> time option \<times> string) list"

definition issued_token :: "enrollment_token \<Rightarrow> uuid \<times> string \<times> string \<times> uuid option \<times> time" where
  "issued_token t = (et_ID t, et_TokenHash t, et_Label t, et_CreatedBy t, et_ExpiresAt t)"

definition revocation :: "Device \<Rightarrow> uuid \<times> time option \<times> string" where
  "revocation d = (d_ID d, d_RevokedAt d, d_RevokedReason d)"

definition administered :: "device_db \<Rightarrow> administered" where
  "administered db = (map issued_token (dd_tokens db), map revocation (filter (\<lambda>d. d_State d = StateRevoked) (dd_devices db)))"

definition judged ::
  "trust_state \<Rightarrow> risk_db \<times> policy_decision_row list \<times> incident_db \<times> Policy list \<times> administered" where
  "judged st = (ts_risks st, ts_decisions st, ts_incidents st, ts_policies st, administered (ts_devices st))"

definition sim_adds :: "run \<Rightarrow> run \<Rightarrow> bool" where
  "sim_adds r r' \<longleftrightarrow>
     judged (rn_trust r') = judged (rn_trust r) \<and>
     (\<exists>ss. sd_sessions (ts_sessions (rn_trust r')) = sd_sessions (ts_sessions (rn_trust r)) @ ss \<and>
        (\<forall>s \<in> set ss. s_CurrentRisk s = None)) \<and>
     (\<exists>es. ts_events (rn_trust r') = ts_events (rn_trust r) @ es \<and> (\<forall>e \<in> set es. er_Source e = SourceSimulator)) \<and>
     (distinct (map s_ID (sd_sessions (ts_sessions (rn_trust r)))) \<longrightarrow>
        distinct (map s_ID (sd_sessions (ts_sessions (rn_trust r'))))) \<and>
     (postures_ok (ts_postures (rn_trust r)) \<longrightarrow> postures_ok (ts_postures (rn_trust r')))"

lemma sim_adds_same [intro]: "rn_trust r' = rn_trust r \<Longrightarrow> sim_adds r r'"
  by (simp add: sim_adds_def)

lemma sim_adds_trans [trans]:
  assumes "sim_adds r r'" "sim_adds r' r''" shows "sim_adds r r''"
  using assms unfolding sim_adds_def by (elim conjE exE, intro conjI) auto

lemma called_sel [simp]:
  "rn_trust (called r) = rn_trust r" "rn_users (called r) = rn_users r" "rn_sessionID (called r) = rn_sessionID r"
  "rn_userID (called r) = rn_userID r" "rn_currentDevice (called r) = rn_currentDevice r" "rn_added (called r) = rn_added r"
  by (simp_all add: called_def)

lemma sim_adds_event:
  assumes "ts_sessions st = ts_sessions (rn_trust r)" "judged st = judged (rn_trust r)" "ts_postures st = ts_postures (rn_trust r)"
    "ts_events st = ts_events (rn_trust r) @ [e]" "er_Source e = SourceSimulator" "rn_trust r' = st"
  shows "sim_adds r r'"
  using assms by (simp add: sim_adds_def)

lemma recordWithResource_adds:
  assumes "recordWithResource env e res r = (x, r')" "ev_Source e = SourceSimulator" shows "sim_adds r r'"
proof (cases "rn_trust r' = rn_trust r")
  case False
  then have "rn_trust r' = (rn_trust r)\<lparr>ts_events := ts_events (rn_trust r) @
      [simulated_row (sv_id env (rn_tick r)) (sv_now env (rn_tick r)) e res]\<rparr>"
    using assms(1) by (auto simp: recordWithResource_def Let_def split: if_splits)
  then show ?thesis using assms(2) by (auto simp: sim_adds_def judged_def simulated_row_def)
qed auto

lemma recordResource_adds:
  assumes "recordResource env t sev res m r = (x, r')" shows "sim_adds r r'"
proof -
  let ?e = "(eventFor t sev m)\<lparr>ev_DeviceID := Some (rn_currentDevice r), ev_UserID := Some (rn_userID r)\<rparr>"
  let ?f = "if rn_sessionID r \<noteq> uuid_Nil then ?e\<lparr>ev_SessionID := Some (rn_sessionID r)\<rparr> else ?e"
  obtain y r1 where w: "recordWithResource env ?f res r = (y, r1)" by fastforce
  have "ev_Source ?f = SourceSimulator" by (simp add: eventFor_def)
  from recordWithResource_adds [OF w this] have "sim_adds r r1" .
  moreover have "rn_trust r' = rn_trust r1"
    using assms w unfolding recordResource_def Let_def by (cases y) auto
  ultimately show ?thesis by (auto intro: sim_adds_trans)
qed

lemma insert_session_adds:
  assumes "insert_session env stmt row r = (x, r')" "\<And>i. s_ID (row i) = i \<and> s_CurrentRisk (row i) = None"
  shows "sim_adds r r'"
proof (cases "rn_trust r' = rn_trust r")
  case False
  let ?i = "sv_id env (rn_tick r)" and ?db = "ts_sessions (rn_trust r)"
  have "?i \<notin> set (map s_ID (sd_sessions ?db))"
      "rn_trust r' = (rn_trust r)\<lparr>ts_sessions := ?db\<lparr>sd_sessions := sd_sessions ?db @ [row ?i]\<rparr>\<rparr>"
    using assms(1) False by (auto simp: insert_session_def Let_def split: if_splits)
  then show ?thesis using assms(2) by (auto simp: sim_adds_def judged_def)
qed auto

lemma simulated_session_sel [simp]:
  "s_ID (simulated_session i u d st ip a b c) = i" "s_CurrentRisk (simulated_session i u d st ip a b c) = None"
  by (simp_all add: simulated_session_def)

lemma seedPosture_adds:
  assumes "seedPosture env device r = (x, r')" shows "sim_adds r r'"
proof (cases "rn_trust r' = rn_trust r")
  case False
  then obtain ident now fs a res db where
    "posture_Record_op ident now fs device simulated_signals a (ts_postures (rn_trust r)) = (res, db)"
    "rn_trust r' = (rn_trust r)\<lparr>ts_postures := db\<rparr>"
    using assms by (auto simp: seedPosture_def Let_def split: if_splits prod.splits)
  then show ?thesis using postures_ok_Record by (auto simp: sim_adds_def judged_def)
qed auto

lemma administered_append [simp]:
  "d_State d \<noteq> StateRevoked \<Longrightarrow> administered (db\<lparr>dd_devices := dd_devices db @ [d]\<rparr>) = administered db"
  by (simp add: administered_def)

lemma administered_map [simp]:
  assumes "\<And>d. revocation (f d) = revocation d \<and> (d_State (f d) = StateRevoked \<longleftrightarrow> d_State d = StateRevoked)"
  shows "administered (db\<lparr>dd_devices := map f (dd_devices db)\<rparr>) = administered db"
  using assms by (simp add: administered_def filter_map comp_def)

lemma revive_sel [simp]: "revocation (revive uid now d) = revocation d" "d_State (revive uid now d) = d_State d"
  by (simp_all add: revive_def revocation_def)

lemma simulated_device_State [simp]: "d_State (simulated_device ident now uid hostname publicKey) = StateActive"
  by (simp add: simulated_device_def)

lemma sim_adds_devices:
  "sim_adds r1 r' \<Longrightarrow> rn_trust r1 = (rn_trust r)\<lparr>ts_devices := ds\<rparr> \<Longrightarrow> administered ds = administered (ts_devices (rn_trust r)) \<Longrightarrow>
   sim_adds r r'"
  by (simp add: sim_adds_def judged_def)

lemma ensureDevice_adds:
  assumes "ensureDevice env key host r = (x, r')" shows "sim_adds r r'"
  using assms unfolding ensureDevice_def Let_def
  by (auto split: option.splits if_splits prod.splits dest!: seedPosture_adds elim: sim_adds_devices)

lemma step_adds [trans]: "rn_trust r1 = rn_trust r \<Longrightarrow> sim_adds r1 r' \<Longrightarrow> sim_adds r r'"
  by (simp add: sim_adds_def)

lemma enrolDevice_adds:
  assumes "enrolDevice env host r = (x, r')" shows "sim_adds r r'"
proof (cases "sv_random env (rn_tick r)")
  case (Some bytes)
  obtain y r1 where e: "ensureDevice env (hex_encode bytes) host (called r) = (y, r1)" by fastforce
  have "sim_adds r r1" by (rule step_adds [OF _ ensureDevice_adds [OF e]]) simp
  moreover have "sim_adds r1 r'"
    using assms Some e
    by (cases y) (auto simp: enrolDevice_def record_event_def dest!: recordResource_adds elim: step_adds [rotated])
  ultimately show ?thesis by (rule sim_adds_trans)
qed (use assms in \<open>auto simp: enrolDevice_def\<close>)

lemma startSession_adds:
  assumes "startSession env opts r = (x, r')" shows "sim_adds r r'"
proof -
  define r0 where "r0 = (if so_Familiar opts then r\<lparr>rn_currentDevice := rn_homeDevice r\<rparr> else r)"
  define row where "row = (\<lambda>ident. simulated_session ident (rn_userID r0) (rn_currentDevice r0) StatusActive
    (if so_SourceIP opts = [] then ''10.10.4.21'' else so_SourceIP opts) (startedAt opts (rn_now r0)) (sv_now env (rn_tick r0)) None)"
  obtain y r1 where i: "insert_session env ''open simulated session'' row r0 = (y, r1)" by fastforce
  have "sim_adds r0 r1" by (rule insert_session_adds [OF i]) (simp add: row_def)
  then have "sim_adds r r1" by (rule step_adds [rotated]) (simp add: r0_def)
  moreover have "sim_adds r1 r'"
    using assms i unfolding startSession_def Let_def r0_def [symmetric] row_def [symmetric]
    by (cases y) (auto simp: record_event_def dest!: recordResource_adds elim: step_adds [rotated])
  ultimately show ?thesis by (rule sim_adds_trans)
qed

lemma resolveResource_same: "resolveResource env a k r = (x, r') \<Longrightarrow> rn_trust r' = rn_trust r"
  by (auto simp: resolveResource_def split: if_splits option.splits)

lemma bulk_loop_adds: "bulk_loop env app res i sens ns r = (x, r') \<Longrightarrow> sim_adds r r'"
  by (induction env app res i sens ns r arbitrary: x r' rule: bulk_loop.induct)
    (auto split: prod.splits option.splits intro: sim_adds_trans dest!: recordResource_adds)

lemma access_adds:
  assumes "accessResource env a k r = (x, r')" shows "sim_adds r r'"
  using assms
  by (auto simp: accessResource_def Let_def split: prod.splits sum.splits dest!: resolveResource_same recordResource_adds
      elim: step_adds [rotated])

lemma bulkAccess_adds:
  assumes "bulkAccess env a k n r = (x, r')" shows "sim_adds r r'"
  using assms
  by (auto simp: bulkAccess_def Let_def split: prod.splits sum.splits dest!: resolveResource_same bulk_loop_adds
      elim: step_adds [rotated])

lemma run_primitive_adds: "run_primitive env p r = (x, r') \<Longrightarrow> sim_adds r r'"
  by (cases p)
    (auto simp: networkEvent_def record_event_def
      dest: enrolDevice_adds startSession_adds access_adds bulkAccess_adds recordResource_adds)

lemma run_primitives_adds: "run_primitives env ps r = (x, r') \<Longrightarrow> sim_adds r r'"
  by (induction env ps r arbitrary: x r' rule: run_primitives.induct)
    (auto split: prod.splits option.splits intro: sim_adds_trans dest!: run_primitive_adds)

lemma seed_events_adds: "seed_events env d u sid st ns r = (x, r') \<Longrightarrow> sim_adds r r'"
proof (induction env d u sid st ns r arbitrary: x r' rule: seed_events.induct)
  case (2 env d u sid st i rest r)
  obtain y db where b: "RecordBackendEvent (sv_encodes env) (sv_id env (rn_tick r)) (sv_now env (rn_tick r)) (sv_faults env (rn_tick r))
      (seeded_event d u sid (time_Add st (int i * minute))) (ts_events (rn_trust r)) = (y, db)" by fastforce
  define r1 where "r1 = called (r\<lparr>rn_trust := (rn_trust r)\<lparr>ts_events := db\<rparr>\<rparr>)"
  have "\<exists>es. db = ts_events (rn_trust r) @ es \<and> (\<forall>e \<in> set es. er_Source e = SourceSimulator)"
    using b by (auto simp: RecordBackendEvent_def Let_def seeded_event_def eventFor_def split: if_splits)
  then have "sim_adds r r1" by (auto simp: sim_adds_def judged_def r1_def)
  then show ?case
    using 2 b by (cases y) (auto simp: r1_def intro: sim_adds_trans)
qed auto

lemma seed_days_adds: "seed_days env u d now ds r = (x, r') \<Longrightarrow> sim_adds r r'"
proof (induction env u d now ds r arbitrary: x r' rule: seed_days.induct)
  case (2 env u d now k days r)
  define started where "started = time_AddDays (on_day_of now 9 12) (- int k)"
  define row where "row = (\<lambda>ident. simulated_session ident u d StatusEnded ''10.10.4.21'' started started (Some started))"
  obtain y r1 where i: "insert_session env ''seed session'' row r = (y, r1)" by fastforce
  have one: "sim_adds r r1" by (rule insert_session_adds [OF i]) (simp add: row_def)
  show ?case
  proof (cases y)
    case (Inl e)
    then show ?thesis using 2(2) i one by (simp add: started_def [symmetric] row_def [symmetric])
  next
    case (Inr sid)
    obtain z r2 where e: "seed_events env d u sid started [0..<18 + k mod 7] r1 = (z, r2)" by fastforce
    have two: "sim_adds r r2" using one seed_events_adds [OF e] by (rule sim_adds_trans)
    have "r' = r2 \<or> sim_adds r2 r'"
      using 2(2) i Inr e 2(1) [OF started_def i [unfolded row_def, symmetric] Inr e [symmetric]]
      unfolding seed_days.simps Let_def started_def [symmetric] row_def [symmetric]
      by (cases z) auto
    then show ?thesis using two by (auto intro: sim_adds_trans)
  qed
qed auto

lemma seedHistory_adds:
  assumes "seedHistory env u d r = (x, r')" shows "sim_adds r r'"
proof -
  obtain y r1 where s: "seed_days env u d (sv_now env (rn_tick r)) (rev [1..<31]) (called r) = (y, r1)" by fastforce
  have one: "sim_adds r r1" by (rule step_adds [OF _ seed_days_adds [OF s]]) simp
  have "rn_trust r' = rn_trust r \<or> r' = r1 \<or> (\<exists>db. rn_trust r' = (rn_trust r1)\<lparr>ts_profiles := db\<rparr>)"
    using assms unfolding seedHistory_def Let_def s by (cases y) (auto split: if_splits prod.splits)
  then show ?thesis
  proof (elim disjE exE)
    fix db assume "rn_trust r' = (rn_trust r1)\<lparr>ts_profiles := db\<rparr>"
    then have "sim_adds r1 r'" by (simp add: sim_adds_def judged_def)
    with one show ?thesis by (rule sim_adds_trans)
  qed (use one in auto)
qed

lemma prepare_user_same: "prepare_user env r = (x, r') \<Longrightarrow> rn_trust r' = rn_trust r"
  by (auto simp: prepare_user_def Let_def split: if_splits option.splits)

lemma prepare_adds:
  assumes "prepare env st users = (x, r')" shows "sim_adds (r0\<lparr>rn_trust := st\<rparr>) r'"
proof -
  define r where "r = \<lparr>rn_now = sv_now env 0, rn_userID = uuid_Nil, rn_homeDevice = uuid_Nil, rn_currentDevice = uuid_Nil,
    rn_sessionID = uuid_Nil, rn_added = 0, rn_trust = st, rn_users = users, rn_tick = 1\<rparr>"
  obtain y r1 where u: "prepare_user env r = (y, r1)" by fastforce
  have st: "rn_trust r1 = st" using prepare_user_same [OF u] by (simp add: r_def)
  show ?thesis
  proof (cases y)
    case (Inl e)
    then have "r' = r1" using assms unfolding prepare_def Let_def r_def [symmetric] u by simp
    then show ?thesis using st by auto
  next
    case (Inr user)
    obtain z r2 where d: "ensureDevice env ''sim-home'' ''SIM-LAPTOP-01'' (r1\<lparr>rn_userID := user\<rparr>) = (z, r2)" by fastforce
    have two: "sim_adds (r0\<lparr>rn_trust := st\<rparr>) r2" by (rule step_adds [OF _ ensureDevice_adds [OF d]]) (simp add: st)
    have "sim_adds r2 r'"
      using assms unfolding prepare_def Let_def r_def [symmetric] u Inr prod.case sum.case d
      by (cases z) (auto dest!: seedHistory_adds elim: step_adds [rotated])
    with two show ?thesis by (rule sim_adds_trans)
  qed
qed

text \<open>The invariant of the trust loop does not depend on what a scenario adds.\<close>

lemma unscored_explained: "s_CurrentRisk s = None \<Longrightarrow> explained db s"
  by (simp add: explained_def)

lemma sim_adds_ok: "sim_adds r r' \<Longrightarrow> trust_ok (rn_trust r) \<Longrightarrow> trust_ok (rn_trust r')"
  by (auto simp: sim_adds_def trust_ok_def judged_def unscored_explained)

lemma evaluated_score:
  assumes "trust_Evaluate env sid trigger st = (Inr out, st')"
  shows "\<exists>row. rd_scores (ts_risks st') = rd_scores (ts_risks st) @ [row] \<and> rr_SessionID row = sid \<and>
    rr_Score row = ra_Score (oc_Assessment out) \<and> rr_TriggerEvent row = trigger"
proof (rule trust_Inr [OF assms])
  fix session a sdb
  assume a: "oc_Assessment out = a\<lparr>ra_TriggerEvent := trigger\<rparr>"
    and r: "risk_Record (te_score_id env) (te_recorded env) (te_faults env) (sc_UserID session) (sc_DeviceID session)
       (oc_Assessment out) (ts_risks st) (ts_sessions st) = (Inr (te_score_id env), ts_risks st', sdb)"
  from r have "rd_scores (ts_risks st') = rd_scores (ts_risks st) @
      [score_row (te_score_id env) (sc_UserID session) (sc_DeviceID session) (oc_Assessment out)]"
    by (rule risk_Record_cases) simp_all
  then show ?thesis using success_rows(1) [OF assms] a by (simp add: score_row_def)
qed

lemma evaluation_scores_grow:
  assumes "trust_Evaluate env sid trigger st = (res, st')"
  shows "set (rd_scores (ts_risks st)) \<subseteq> set (rd_scores (ts_risks st'))"
proof (cases res)
  case (Inl e)
  show ?thesis
  proof (rule trust_Inl [OF assms [unfolded Inl]])
    fix session a rid
    assume "risk_Record (te_score_id env) (te_recorded env) (te_faults env) (sc_UserID session) (sc_DeviceID session)
      (a\<lparr>ra_TriggerEvent := trigger\<rparr>) (ts_risks st) (ts_sessions st) = (Inr rid, ts_risks st', ts_sessions st')"
    then show ?thesis by (rule risk_Record_cases) auto
  qed simp
next
  case (Inr out)
  then show ?thesis using evaluated_score assms by fastforce
qed

text \<open>A step's score is one the risk store holds for a session.\<close>

definition step_backed :: "string \<Rightarrow> trust_state \<Rightarrow> StepResult \<Rightarrow> bool" where
  "step_backed name st sr \<longleftrightarrow>
     (case st_Score sr of None \<Rightarrow> True
      | Some n \<Rightarrow> \<exists>row \<in> set (rd_scores (ts_risks st)). rr_Score row = n \<and> rr_TriggerEvent row = ''simulator:'' @ name)"

lemma step_backed_mono:
  "step_backed name st sr \<Longrightarrow> set (rd_scores (ts_risks st)) \<subseteq> set (rd_scores (ts_risks st')) \<Longrightarrow> step_backed name st' sr"
  by (auto simp: step_backed_def split: option.splits)

lemma sim_adds_scores: "sim_adds r r' \<Longrightarrow> ts_risks (rn_trust r') = ts_risks (rn_trust r)"
  by (simp add: sim_adds_def judged_def)

lemma run_steps_spec:
  assumes "run_steps env name steps res r = (out, r')" "trust_ok (rn_trust r)"
    "\<forall>n. weights_ok (e_weights (te_engine (sv_eval env n)))" "list_all (step_backed name (rn_trust r)) (sl_Steps res)"
  shows "trust_ok (rn_trust r') \<and> (\<forall>res'. out = Inr res' \<longrightarrow> list_all (step_backed name (rn_trust r')) (sl_Steps res') \<and>
    map st_Step (sl_Steps res') = map st_Step (sl_Steps res) @ map sp_label steps)"
  using assms
proof (induction steps arbitrary: res r)
  case (Cons s steps)
  obtain x r1 where p: "run_primitives env (sp_run s) (r\<lparr>rn_added := 0\<rparr>) = (x, r1)" by fastforce
  have adds: "sim_adds r r1" by (rule step_adds [OF _ run_primitives_adds [OF p]]) simp
  note ok1 = sim_adds_ok [OF adds Cons.prems(2)]
  have b1: "list_all (step_backed name (rn_trust r1)) (sl_Steps res)"
    using Cons.prems(4) sim_adds_scores [OF adds] by (auto simp: list_all_iff intro: step_backed_mono)
  define sr where "sr = blank_step (sp_label s) (sv_now env (rn_tick r1)) (rn_added r1)"
  have sr: "st_Step sr = sp_label s" "st_Score sr = None" by (simp_all add: sr_def blank_step_def)
  obtain y st where e: "trust_Evaluate (sv_eval env (rn_tick (called r1))) (rn_sessionID r1) (''simulator:'' @ name) (rn_trust r1) = (y, st)"
    by fastforce
  have ok2: "trust_ok st" by (rule trust_ok_Evaluate [OF _ e ok1]) (simp add: Cons.prems(3))
  note unfold = Cons.prems(1) [unfolded run_steps.simps p Let_def sr_def [symmetric] called_sel e]
  consider (failed) z where "x = Some z" | (idle) "x = None" "rn_sessionID r1 = uuid_Nil"
    | (broken) z where "x = None" "rn_sessionID r1 \<noteq> uuid_Nil" "y = Inl z"
    | (scored) o' where "x = None" "rn_sessionID r1 \<noteq> uuid_Nil" "y = Inr o'" by (cases x; cases y) auto
  then show ?case
  proof cases
    case failed
    then show ?thesis using unfold ok1 by auto
  next
    case idle
    then have "run_steps env name steps (res\<lparr>sl_Steps := sl_Steps res @ [sr]\<rparr>) (called r1) = (out, r')"
      using unfold by (simp add: sr_def)
    moreover have "step_backed name (rn_trust r1) sr" using sr(2) by (simp add: step_backed_def)
    ultimately show ?thesis
      using Cons.IH [of "res\<lparr>sl_Steps := sl_Steps res @ [sr]\<rparr>" "called r1"] ok1 b1 sr(1) Cons.prems(3) by simp
  next
    case broken
    then show ?thesis using unfold ok2 e by auto
  next
    case scored
    define res2 where "res2 = (scored_result o' (rn_sessionID r1) res)\<lparr>sl_Steps := sl_Steps (scored_result o' (rn_sessionID r1) res) @ [scored_step o' sr]\<rparr>"
    have r2: "run_steps env name steps res2 (called ((called r1)\<lparr>rn_trust := st\<rparr>)) = (out, r')"
      using unfold scored e by (simp add: res2_def sr_def)
    have "set (rd_scores (ts_risks (rn_trust r1))) \<subseteq> set (rd_scores (ts_risks st))" using e by (rule evaluation_scores_grow)
    then have "list_all (step_backed name st) (sl_Steps res)" using b1 by (auto simp: list_all_iff intro: step_backed_mono)
    moreover have "step_backed name st (scored_step o' sr)"
      using evaluated_score e scored by (fastforce simp: step_backed_def scored_step_def)
    ultimately have "list_all (step_backed name st) (sl_Steps res2)" by (simp add: res2_def scored_result_def)
    with Cons.IH [OF r2 _ Cons.prems(3)] ok2 have "trust_ok (rn_trust r')" "\<And>res'. out = Inr res' \<Longrightarrow>
        list_all (step_backed name (rn_trust r')) (sl_Steps res') \<and> map st_Step (sl_Steps res') = map st_Step (sl_Steps res2) @ map sp_label steps"
      by simp_all
    moreover have "map st_Step (sl_Steps res2) = map st_Step (sl_Steps res) @ [sp_label s]"
      by (simp add: res2_def scored_result_def scored_step_def sr)
    ultimately show ?thesis by simp
  qed
qed auto

subsection \<open>Properties\<close>

text \<open>
  The primitives of a scenario never judge: they leave the scores, decisions, incidents,
  policies, enrollment tokens and revocations alone, only add sessions, without a score, and only add events, marked as simulated.
\<close>

theorem scenario_never_judges:
  assumes "run_primitives env ps r = (err, r')"
  shows "judged (rn_trust r') = judged (rn_trust r) \<and>
    (\<exists>ss. sd_sessions (ts_sessions (rn_trust r')) = sd_sessions (ts_sessions (rn_trust r)) @ ss \<and>
       (\<forall>s \<in> set ss. s_CurrentRisk s = None)) \<and>
    (\<exists>es. ts_events (rn_trust r') = ts_events (rn_trust r) @ es \<and> (\<forall>e \<in> set es. er_Source e = SourceSimulator))"
  using run_primitives_adds [OF assms] by (simp add: sim_adds_def)

definition sample_sim :: sim_env where
  "sample_sim = \<lparr>sv_now = (\<lambda>n. int n * minute), sv_id = (\<lambda>n. of_nat (n + 100)), sv_faults = (\<lambda>_. []),
     sv_random = (\<lambda>_. Some (replicate 32 (CHR ''k''))), sv_encodes = (\<lambda>_. True), sv_resources = (\<lambda>_ _. Some (3, SensitivityCritical)),
     sv_eval = (\<lambda>_. sample_env [])\<rparr>"

definition sample_sim_run :: run where
  "sample_sim_run = \<lparr>rn_now = 0, rn_userID = 1, rn_homeDevice = 2, rn_currentDevice = 2, rn_sessionID = 7, rn_added = 0,
     rn_trust = sample_trust AttestationNone, rn_users = [], rn_tick = 0\<rparr>"

theorem scenario_never_judges_witness:
  "\<exists>r' e. run_primitives sample_sim [NetworkEvent ''198.51.100.42:8443''] sample_sim_run = (None, r') \<and>
     judged (rn_trust r') = judged (rn_trust sample_sim_run) \<and>
     ts_events (rn_trust r') = ts_events (rn_trust sample_sim_run) @ [e] \<and> er_Source e = SourceSimulator"
proof -
  obtain err r' where run: "run_primitives sample_sim [NetworkEvent ''198.51.100.42:8443''] sample_sim_run = (err, r')" by fastforce
  have one: "err = None \<and> length (ts_events (rn_trust r')) = Suc (length (ts_events (rn_trust sample_sim_run)))"
    using run
    by (auto simp: networkEvent_def record_event_def recordResource_def recordWithResource_def eventFor_def sim_fails_def
        sample_sim_def sample_sim_run_def sample_trust_def uuid_Nil_def pg_json_def pg_text_def called_def Let_def split: if_splits)
  obtain es where "judged (rn_trust r') = judged (rn_trust sample_sim_run)"
      "ts_events (rn_trust r') = ts_events (rn_trust sample_sim_run) @ es" "\<forall>e \<in> set es. er_Source e = SourceSimulator"
    using scenario_never_judges [OF run] by blast
  then show ?thesis using one run by (cases es) auto
qed

text \<open>
  C25: a scenario run, whether it completes or fails half-way, keeps the invariant of the trust loop;
  a run that completes reports its steps in order, and every score it reports is one the risk store
  holds, recorded by an evaluation this scenario triggered.
\<close>

theorem scenario_scores_recorded:
  assumes "Run env scenario st users = (out, st', users')" "trust_ok st"
    "\<forall>n. weights_ok (e_weights (te_engine (sv_eval env n)))"
  shows "trust_ok st' \<and> (\<forall>res. out = Inr res \<longrightarrow>
    map st_Step (sl_Steps res) = map sp_label (scn_steps scenario) \<and>
    (\<forall>sr \<in> set (sl_Steps res). \<forall>n. st_Score sr = Some n \<longrightarrow>
       (\<exists>row \<in> set (rd_scores (ts_risks st')). rr_Score row = n \<and> rr_TriggerEvent row = ''simulator:'' @ scn_Name scenario)))"
proof -
  obtain x r where p: "prepare env st users = (x, r)" by fastforce
  have ok: "trust_ok (rn_trust r)" using sim_adds_ok [OF prepare_adds [OF p]] assms(2) by simp
  define res0 where "res0 = blank_result (scn_Name scenario) (rn_now r)"
  obtain y r1 where s: "run_steps env (scn_Name scenario) (scn_steps scenario) res0 r = (y, r1)" by fastforce
  have none: "sl_Steps res0 = []" by (simp add: res0_def blank_result_def)
  have spec: "trust_ok (rn_trust r1) \<and> (\<forall>res'. y = Inr res' \<longrightarrow> list_all (step_backed (scn_Name scenario) (rn_trust r1)) (sl_Steps res') \<and>
      map st_Step (sl_Steps res') = map sp_label (scn_steps scenario))"
    using run_steps_spec [OF s ok assms(3)] none by simp
  have lbl: "sl_Steps (label_result env r1 res) = sl_Steps res" for res
    by (simp add: label_result_def split: option.split)
  show ?thesis
  proof (cases x)
    case (Some e)
    then show ?thesis using assms(1) p ok by (auto simp: Run_def)
  next
    case None
    have "st' = rn_trust r1 \<and> out = (case y of Inl e \<Rightarrow> Inl e | Inr res \<Rightarrow> Inr (label_result env r1 res))"
      using assms(1) unfolding Run_def p None prod.case option.case res0_def [symmetric] s by (cases y) auto
    then show ?thesis
      using spec by (cases y) (auto simp: lbl list_all_iff step_backed_def split: option.splits)
  qed
qed

definition sample_history :: trust_state where
  "sample_history = (sample_trust AttestationNone)
     \<lparr>ts_devices := \<lparr>dd_devices = [simulated_device 2 0 ''netra-sim-sim-home'' ''SIM-LAPTOP-01'' []], dd_tokens = [], dd_nonces = []\<rparr>,
      ts_sessions := \<lparr>sd_sessions = map (\<lambda>i. simulated_session i 1 2 StatusEnded [] 0 0 (Some 0)) [1, 2, 3, 4, 5], sd_nonces = []\<rparr>,
      ts_postures := [\<lparr>pr_ID = 1, pr_DeviceID = 2, pr_CollectedAt = 0, pr_TrustScore = 90, pr_Signals = simulated_signals,
        pr_Factors = [], pr_Verified = False, pr_ModelVersion = []\<rparr>]\<rparr>"

definition sample_scenario :: Scenario where
  "sample_scenario = \<lparr>scn_Name = ''demo'', scn_Title = [], scn_Description = [], scn_Expectation = [],
     scn_steps = [\<lparr>sp_label = ''Sign in'', sp_run = [StartSession familiar]\<rparr>]\<rparr>"

lemma gather_small:
  assumes "ts_profiles st = Map.empty" "postures_ok (ts_postures st)" shows "printed_small (gather env session st)"
proof -
  have "in_AccessVolumeZScore (gather env session st) = Fin 0"
    by (simp add: gather_def Let_def Load_def assms(1) split: sum.split)
  then show ?thesis using gather_inputs_ok [OF assms(2), of env session] gather_trust [of env session st] assms(2)
    by (fastforce simp: printed_small_def postures_ok_def)
qed

lemma sample_prepares:
  "\<exists>r. prepare sample_sim sample_history [simulated_user 1 0] = (None, r) \<and> rn_userID r = 1 \<and> rn_homeDevice r = 2 \<and>
     rn_sessionID r = 0 \<and> rn_tick r = 6 \<and> rn_now r = 0 \<and>
     rn_trust r = sample_history\<lparr>ts_devices := \<lparr>dd_devices = [(simulated_device 2 0 ''netra-sim-sim-home'' ''SIM-LAPTOP-01'' [])
       \<lparr>d_LastHeartbeatAt := Some (3 * minute)\<rparr>], dd_tokens = [], dd_nonces = []\<rparr>\<rparr>"
  by (simp add: prepare_def prepare_user_def ensureDevice_def seedPosture_def seedHistory_def called_def sim_fails_def
      simulated_user_def sim_subject_def simulated_device_def simulated_session_def sample_history_def sample_sim_def revive_def
      MinimumObservations_def uuid_Nil_def)

lemma sample_clock: "clock_label (startedAt familiar 0) = ''09:12''"
  by code_simp

lemma sample_starts:
  assumes "rn_userID r = 1" "rn_homeDevice r = 2" "rn_tick r = 6" "rn_sessionID r = 0" "rn_now r = 0" "ts_events (rn_trust r) = []"
    "sd_sessions (ts_sessions (rn_trust r)) = map (\<lambda>i. simulated_session i 1 2 StatusEnded [] 0 0 (Some 0)) [1, 2, 3, 4, 5]"
  shows "\<exists>r1 s es. run_primitives sample_sim [StartSession familiar] r = (None, r1) \<and> rn_sessionID r1 = 106 \<and>
    rn_trust r1 = (rn_trust r)\<lparr>ts_sessions := (ts_sessions (rn_trust r))\<lparr>sd_sessions := sd_sessions (ts_sessions (rn_trust r)) @ [s]\<rparr>,
      ts_events := es\<rparr> \<and> s_ID s = 106 \<and> s_DeviceID s = 2"
proof -
  define s where "s = simulated_session 106 1 2 StatusActive ''10.10.4.21'' (startedAt familiar 0) (6 * minute) None"
  let ?st = "(rn_trust r)\<lparr>ts_sessions := (ts_sessions (rn_trust r))\<lparr>sd_sessions := sd_sessions (ts_sessions (rn_trust r)) @ [s]\<rparr>\<rparr>"
  have f: "so_Familiar familiar" "so_SourceIP familiar = []" by (simp_all add: familiar_def no_options_def)
  have i: "insert_session sample_sim ''open simulated session''
      (\<lambda>ident. simulated_session ident 1 2 StatusActive ''10.10.4.21'' (startedAt familiar 0) (6 * minute) None)
      (r\<lparr>rn_currentDevice := 2\<rparr>) = (Inr 106, called (r\<lparr>rn_currentDevice := 2, rn_trust := ?st\<rparr>))"
    using assms by (simp add: insert_session_def sim_fails_def sample_sim_def s_def)
  obtain r1 es where e: "record_event sample_sim TypeAuthLogin SeverityInfo [(''source_ip'', ''10.10.4.21''), (''hour'', ''09:12'')]
      ((called (r\<lparr>rn_currentDevice := 2, rn_trust := ?st\<rparr>))\<lparr>rn_sessionID := 106\<rparr>) = (None, r1)"
      "rn_trust r1 = ?st\<lparr>ts_events := es\<rparr>" "rn_sessionID r1 = 106"
    using assms(6) by (simp add: record_event_def recordResource_def recordWithResource_def called_def sim_fails_def
        sample_sim_def eventFor_def pg_json_def pg_text_def Let_def uuid_Nil_def)
  have "startSession sample_sim familiar r = (None, r1)"
    using assms i e(1) by (simp add: startSession_def f sample_clock sample_sim_def)
  then show ?thesis using e(2,3) by (auto simp: s_def simulated_session_def)
qed

lemma sample_run_completes:
  "\<exists>res st' users' n. Run sample_sim sample_scenario sample_history [simulated_user 1 0] = (Inr res, st', users') \<and>
     map st_Score (sl_Steps res) = [Some n]"
proof -
  obtain r where p: "prepare sample_sim sample_history [simulated_user 1 0] = (None, r)" and r: "rn_userID r = 1"
      "rn_homeDevice r = 2" "rn_tick r = 6" "rn_sessionID r = 0" "rn_now r = 0" and st: "rn_trust r = sample_history\<lparr>ts_devices :=
        \<lparr>dd_devices = [(simulated_device 2 0 ''netra-sim-sim-home'' ''SIM-LAPTOP-01'' [])\<lparr>d_LastHeartbeatAt := Some (3 * minute)\<rparr>],
          dd_tokens = [], dd_nonces = []\<rparr>\<rparr>"
    using sample_prepares by blast
  have h: "sd_sessions (ts_sessions (rn_trust r)) = map (\<lambda>i. simulated_session i 1 2 StatusEnded [] 0 0 (Some 0)) [1, 2, 3, 4, 5]"
      "ts_events (rn_trust r) = []" "ts_profiles (rn_trust r) = Map.empty" "postures_ok (ts_postures (rn_trust r))"
      "rd_scores (ts_risks (rn_trust r)) = []" "ts_policies (rn_trust r) = [sample_policy]"
    by (simp_all add: st sample_history_def postures_ok_def)
  obtain r1 s es where r1: "run_primitives sample_sim [StartSession familiar] (r\<lparr>rn_added := 0\<rparr>) = (None, r1)" "rn_sessionID r1 = 106"
      "rn_trust r1 = (rn_trust r)\<lparr>ts_sessions := (ts_sessions (rn_trust r))\<lparr>sd_sessions := sd_sessions (ts_sessions (rn_trust r)) @ [s]\<rparr>,
        ts_events := es\<rparr>" "s_ID s = 106" "s_DeviceID s = 2"
    using sample_starts [of "r\<lparr>rn_added := 0\<rparr>"] r h(1,2) by auto
  have "\<forall>s \<in> set (sd_sessions (ts_sessions (rn_trust r))). s_DeviceID s = 2" using h(1) by (simp add: simulated_session_def)
  moreover have "d_ID ` set (dd_devices (ts_devices (rn_trust r))) = {2}" by (simp add: st simulated_device_def)
  ultimately have "devices_known (rn_trust r1)" by (auto simp: devices_known_def r1(3,5))
  then have "\<exists>out st'. trust_Evaluate (sample_env []) 106 ''simulator:demo'' (rn_trust r1) = (Inr out, st')"
    by (intro evaluation_total) (simp_all add: r1(3,4) h gather_small sample_policy_reachable,
        simp_all add: sample_env_def NewEngine_def go_div_nonneg microsecond_def)
  then obtain out st' where e: "trust_Evaluate (sample_env []) 106 ''simulator:demo'' (rn_trust r1) = (Inr out, st')" by blast
  have "sv_eval sample_sim n = sample_env []" for n by (simp add: sample_sim_def)
  then show ?thesis
    using p r1(1,2) e
    by (auto simp: Run_def sample_scenario_def blank_result_def uuid_Nil_def scored_result_def scored_step_def label_result_def
        split: option.split)
qed

theorem scenario_scores_recorded_witness:
  "\<exists>res st' users' n. Run sample_sim sample_scenario sample_history [simulated_user 1 0] = (Inr res, st', users') \<and>
     map st_Score (sl_Steps res) = [Some n] \<and> trust_ok st' \<and>
     (\<exists>row \<in> set (rd_scores (ts_risks st')). rr_Score row = n \<and> rr_TriggerEvent row = ''simulator:demo'')"
proof -
  have "trust_ok sample_history"
    by (simp add: trust_ok_def sample_history_def sample_trust_def risk_db_ok_def postures_ok_def explained_def simulated_session_def)
  moreover have "\<forall>n. weights_ok (e_weights (te_engine (sv_eval sample_sim n)))"
    by (simp add: sample_sim_def sample_env_def NewEngine_def)
  ultimately have s: "trust_ok st' \<and> (\<forall>sr \<in> set (sl_Steps res). \<forall>m. st_Score sr = Some m \<longrightarrow>
      (\<exists>row \<in> set (rd_scores (ts_risks st')). rr_Score row = m \<and> rr_TriggerEvent row = ''simulator:demo''))"
    if "Run sample_sim sample_scenario sample_history [simulated_user 1 0] = (Inr res, st', users')" for res st' users'
    using scenario_scores_recorded [OF that] by (simp add: sample_scenario_def)
  from sample_run_completes show ?thesis
  proof (elim exE conjE, intro exI conjI)
    fix res st' users' n
    assume run: "Run sample_sim sample_scenario sample_history [simulated_user 1 0] = (Inr res, st', users')"
      and n: "map st_Score (sl_Steps res) = [Some n]"
    show "Run sample_sim sample_scenario sample_history [simulated_user 1 0] = (Inr res, st', users')" by (rule run)
    show "map st_Score (sl_Steps res) = [Some n]" by (rule n)
    show "trust_ok st'" using s [OF run] by simp
    obtain sr where "sr \<in> set (sl_Steps res)" "st_Score sr = Some n" using n by auto
    then show "\<exists>row \<in> set (rd_scores (ts_risks st')). rr_Score row = n \<and> rr_TriggerEvent row = ''simulator:demo''"
      using s [OF run] by blast
  qed
qed

lemma find_key: "distinct (map f xs) \<Longrightarrow> find (\<lambda>c. f c = f s) xs = Some s \<longleftrightarrow> s \<in> set xs"
  by (induction xs) (auto simp: image_iff)

text \<open>
  The catalogue has one scenario per name, and looking a name up finds it.
\<close>

theorem catalogue_indexed:
  "distinct (map scn_Name Catalogue) \<and> (\<forall>s. Find (scn_Name s) = Some s \<longleftrightarrow> s \<in> set Catalogue)"
proof -
  have d: "distinct (map scn_Name Catalogue)" by code_simp
  then show ?thesis using find_key [of scn_Name Catalogue] by (simp add: Find_def)
qed

end
