(* ===== verification/Http.thy ===== *)
theory Http
  imports Trust RateLimit Simulator
begin

section \<open>Http: requests, responses and the middleware around every route\<close>

text \<open>
  Package \<^verbatim>\<open>internal/httpapi\<close>: the problem responses of \<^verbatim>\<open>problem.go\<close>, the middleware of \<^verbatim>\<open>middleware.go\<close>, the
  wire types of the route files and what they share.  A handler takes the call and the state of the
  system and returns a response (\<open>Inr\<close>), or panics (\<open>Inl\<close>), with the new state.

  The state \<open>api_state\<close> is the tables of all the stores with the audit log and the three limiters of the
  router.  \<open>call\<close> holds what one request brings and finds: the request, the identifier given to it, clock
  readings, identifiers the database assigns, random bytes, the statements that fail, and the
  environments of the evaluation and of the simulator.  \<open>lib\<close> stands for packages outside the repository
  (\<^verbatim>\<open>google/uuid\<close>, \<^verbatim>\<open>golang-jwt\<close>, \<^verbatim>\<open>chi\<close>, Ed25519, PostgreSQL's columns) and for \<^verbatim>\<open>encoding/json\<close>: \<open>lj_T n s\<close> is
  what \<^verbatim>\<open>Decode\<close> yields for a target of type \<open>T\<close> on the body \<open>s\<close> cut at \<open>n\<close> bytes, unknown fields refused.
\<close>

subsection \<open>Requests\<close>

record http_request =
  hr_Method :: string
  hr_Path :: string
  hr_RemoteAddr :: string
  hr_Origin :: string
  hr_Authorization :: string
  hr_Device :: string
  hr_Nonce :: string
  hr_Signature :: string
  hr_Timestamp :: string
  hr_Query :: "string \<Rightarrow> string"
  hr_Body :: string

subsection \<open>Wire types: requests\<close>

record EnrollmentTokenRequest =
  tq_Label :: string
  tq_TTLMinutes :: int

record EnrollRequestBody =
  eb_EnrollmentToken :: string
  eb_DeviceUID :: string
  eb_Hostname :: string
  eb_OSName :: string
  eb_OSVersion :: string
  eb_AgentVersion :: string
  eb_PublicKey :: string
  eb_KeyProtection :: string

record HeartbeatRequest =
  hb_AgentVersion :: string
  hb_QueuedEvents :: int
  hb_DroppedEvents :: int

record BeginSessionRequest =
  bs_DeviceUID :: string
  bs_Nonce :: string
  bs_Signature :: string

record policy_question =
  pq_Score :: int
  pq_Level :: string
  pq_Factors :: "string list"
  pq_ResourceSensitivity :: string

record DevTokenRequest =
  dt_Subject :: string
  dt_Email :: string
  dt_DisplayName :: string
  dt_Department :: string
  dt_Roles :: "string list"

subsection \<open>Wire types: responses\<close>

record DeviceResponse =
  dp_ID :: string
  dp_DeviceUID :: string
  dp_Hostname :: string
  dp_OSName :: string
  dp_OSVersion :: string
  dp_AgentVersion :: string
  dp_KeyAlgorithm :: string
  dp_KeyProtection :: string
  dp_State :: device_State
  dp_EnrolledAt :: "time option"
  dp_LastHeartbeatAt :: "time option"
  dp_RevokedAt :: "time option"
  dp_RevokedReason :: string
  dp_TrustScore :: "int option"

record SessionResponse =
  sq_ID :: string
  sq_UserID :: string
  sq_DeviceID :: string
  sq_Status :: Status
  sq_AuthMethod :: string
  sq_Attestation :: AttestationMethod
  sq_SourceIP :: string
  sq_CurrentRisk :: "int option"
  sq_RiskLevel :: string
  sq_StartedAt :: time
  sq_LastSeenAt :: time
  sq_EndedAt :: "time option"
  sq_UserDisplayName :: string
  sq_UserEmail :: string
  sq_DeviceHostname :: string
  sq_DeviceUID :: string

record PostureResponse =
  po_TrustScore :: int
  po_Factors :: "posture_Factor list"
  po_Weakest :: "posture_Factor list"
  po_Verified :: bool
  po_ModelVersion :: string
  po_CollectedAt :: time

record AuditRecordResponse =
  ao_Seq :: int
  ao_At :: time
  ao_ActorType :: ActorType
  ao_ActorID :: string
  ao_Action :: string
  ao_TargetType :: string
  ao_TargetID :: string
  ao_Result :: audit_Result
  ao_RequestID :: string
  ao_SourceIP :: string
  ao_Detail :: "dvalue detail option"
  ao_Hash :: string
  ao_PrevHash :: string

record AuditListResponse =
  al_Records :: "AuditRecordResponse list"
  al_ChainVerified :: bool
  al_ChainError :: "audit_error option"
  al_NextAfter :: int

record OverviewResponse =
  ow_Endpoints :: nat
  ow_EndpointsTrusted :: nat
  ow_EndpointsAtRisk :: nat
  ow_ActiveSessions :: nat
  ow_HighRiskSessions :: nat
  ow_OpenIncidents :: nat
  ow_CriticalIncidents :: nat
  ow_RiskDistribution :: "string \<rightharpoonup> nat"
  ow_RecentEvents :: "Event list"

text \<open>The uptime is kept as a duration, before it is rounded and printed; the build metadata are left out.\<close>

record HealthResponse =
  he_Status :: string
  he_Checks :: "(string \<times> string) list"
  he_Time :: time
  he_Env :: string
  he_Uptime :: duration

record incident_view =
  iv_Incident :: Incident
  iv_Notes :: "Note list option"
  iv_Events :: "Event list option"
  iv_RiskHistory :: "Assessment list option"
  iv_Decisions :: "DecisionRecord list option"

text \<open>The detail of a problem: a fixed text, or \<^verbatim>\<open>err.Error()\<close> of an error.\<close>

datatype detail_text =
  Text string
| DeviceErrorText device_error
| PostureErrorText posture_error
| EventErrorText event_error
| PolicyErrorText policy_error

record Problem =
  pb_Title :: string
  pb_Status :: nat
  pb_Detail :: detail_text
  pb_Instance :: string
  pb_RequestID :: string

datatype body =
  NoBody
| ProblemBody Problem
| HealthBody HealthResponse
| MeBody Principal
| DevTokenBody string "string list"
| EnrollmentTokenBody uuid string time
| DeviceBody DeviceResponse
| DevicesBody "DeviceResponse list"
| RevokedBody uuid
| HeartbeatBody time
| NonceBody string time string
| SessionBody SessionResponse
| SessionsBody "SessionResponse list"
| EndedBody uuid
| PostureBody PostureResponse
| LatestPostureBody posture_Record
| PostureHistoryBody uuid "(time \<times> int \<times> bool) list"
| IngestBody IngestResult
| EventsBody "Event list"
| RiskBody uuid Assessment "(time \<times> int \<times> Level \<times> string) list"
| OutcomeBody Outcome
| PoliciesBody "Policy list"
| PolicyBody Policy
| ResultBody Result
| DecisionsBody "DecisionRecord list"
| IncidentsBody "Incident list"
| IncidentBody incident_view
| StatusBody uuid incident_Status
| NoteAddedBody
| ProfileBody Profile
| OverviewBody OverviewResponse
| AuditBody AuditListResponse
| ScenariosBody "Scenario list"
| ScenarioBody sim_Result

type_synonym headers = "(string \<times> string) list"

record response =
  rp_Status :: nat
  rp_Headers :: headers
  rp_Body :: body

subsection \<open>State and surroundings\<close>

record api_state =
  ap_trust :: trust_state
  ap_users :: "user_row list"
  ap_audit :: audit_store
  ap_limitEnrollment :: buckets
  ap_limitIngest :: buckets
  ap_limitTokens :: buckets

text \<open>What \<^verbatim>\<open>chi\<close> finds for a method and a path among the registered patterns.\<close>

datatype chi_match = NoRoute | WrongMethod | Matched string string "string \<Rightarrow> string"

record lib =
  lb_sha :: "string \<Rightarrow> string"
  lb_edv :: "string \<Rightarrow> string \<Rightarrow> string \<Rightarrow> bool"
  lb_pgts :: "time \<Rightarrow> time option"
  lb_addr :: "string \<Rightarrow> string option"
  lb_enc :: "dvalue canonical \<Rightarrow> string option"
  lb_collate :: "string \<Rightarrow> string \<Rightarrow> bool"
  lb_encodes :: "metadata \<Rightarrow> bool"
  lb_uuid :: "string \<Rightarrow> uuid option"
  lb_chi :: "(string \<times> string) list \<Rightarrow> string \<Rightarrow> string \<Rightarrow> chi_match"
  lb_sign :: "string \<Rightarrow> mapClaims \<Rightarrow> string option"
  lj_token :: "nat \<Rightarrow> string \<Rightarrow> EnrollmentTokenRequest option"
  lj_revoke :: "nat \<Rightarrow> string \<Rightarrow> string option"
  lj_enroll :: "nat \<Rightarrow> string \<Rightarrow> EnrollRequestBody option"
  lj_heartbeat :: "nat \<Rightarrow> string \<Rightarrow> HeartbeatRequest option"
  lj_posture :: "nat \<Rightarrow> string \<Rightarrow> Signals option"
  lj_begin :: "nat \<Rightarrow> string \<Rightarrow> BeginSessionRequest option"
  lj_end :: "nat \<Rightarrow> string \<Rightarrow> string option"
  lj_events :: "nat \<Rightarrow> string \<Rightarrow> Inbound list option"
  lj_policy :: "nat \<Rightarrow> string \<Rightarrow> Policy option"
  lj_question :: "nat \<Rightarrow> string \<Rightarrow> policy_question option"
  lj_status :: "nat \<Rightarrow> string \<Rightarrow> string option"
  lj_note :: "nat \<Rightarrow> string \<Rightarrow> string option"
  lj_dev :: "nat \<Rightarrow> string \<Rightarrow> DevTokenRequest option"

record call =
  cx_Request :: http_request
  cx_Param :: "string \<Rightarrow> string"
  cx_RequestID :: string
  cx_Now :: time
  cx_Later :: time
  cx_Id :: uuid
  cx_Ids :: "uuid list"
  cx_Batch :: uuid
  cx_Random :: "string option"
  cx_Faults :: faults
  cx_VerifyFaults :: "int \<Rightarrow> faults"
  cx_Eval :: trust_env
  cx_Sim :: sim_env
  cx_Recorder :: recorder
  cx_Verify :: "string \<Rightarrow> token_error + Claims"
  cx_UserId :: uuid
  cx_Lib :: lib

text \<open>A panic leaves the headers set so far.\<close>

type_synonym outcome = "headers + response"
type_synonym handler = "call \<Rightarrow> api_state \<Rightarrow> outcome \<times> api_state"

subsection \<open>problem.go\<close>

definition header_Set :: "string \<Rightarrow> string \<Rightarrow> headers \<Rightarrow> headers" where
  "header_Set k v hs = filter (\<lambda>(k', _). k' \<noteq> k) hs @ [(k, v)]"

definition WriteProblem :: "call \<Rightarrow> nat \<Rightarrow> string \<Rightarrow> detail_text \<Rightarrow> response" where
  "WriteProblem c status title detail =
     \<lparr>rp_Status = status, rp_Headers = [(''Content-Type'', ''application/problem+json'')],
      rp_Body = ProblemBody \<lparr>pb_Title = title, pb_Status = status, pb_Detail = detail,
        pb_Instance = hr_Path (cx_Request c), pb_RequestID = cx_RequestID c\<rparr>\<rparr>"

definition WriteJSON :: "nat \<Rightarrow> body \<Rightarrow> response" where
  "WriteJSON status v = \<lparr>rp_Status = status, rp_Headers = [(''Content-Type'', ''application/json'')], rp_Body = v\<rparr>"

text \<open>The shapes handlers answer with: a problem with a fixed text, and a payload.\<close>

definition fails :: "call \<Rightarrow> nat \<Rightarrow> string \<Rightarrow> string \<Rightarrow> api_state \<Rightarrow> outcome \<times> api_state" where
  "fails c status title text s = (Inr (WriteProblem c status title (Text text)), s)"

definition answers :: "nat \<Rightarrow> body \<Rightarrow> api_state \<Rightarrow> outcome \<times> api_state" where
  "answers status v s = (Inr (WriteJSON status v), s)"

definition bad_body :: "call \<Rightarrow> api_state \<Rightarrow> outcome \<times> api_state" where
  "bad_body c s = fails c 400 ''Invalid Request'' ''The request body is not valid JSON for this endpoint.'' s"

subsection \<open>middleware.go\<close>

definition RequestIDHeader :: string where "RequestIDHeader = ''X-Request-ID''"

text \<open>Headers a middleware sets are on the response before the handler adds its own.\<close>

definition merge_headers :: "headers \<Rightarrow> headers \<Rightarrow> headers" where
  "merge_headers hs own = foldl (\<lambda>acc (k, v). header_Set k v acc) hs own"

fun with_headers :: "headers \<Rightarrow> outcome \<Rightarrow> outcome" where
  "with_headers hs (Inl own) = Inl (merge_headers hs own)"
| "with_headers hs (Inr r) = Inr (r\<lparr>rp_Headers := merge_headers hs (rp_Headers r)\<rparr>)"

definition setting :: "headers \<Rightarrow> handler \<Rightarrow> handler" where
  "setting hs next_h c s = (let (o', s') = next_h c s in (with_headers hs o', s'))"

text \<open>The identifier is the server's own; a header of the request has no say.\<close>

definition RequestID :: "handler \<Rightarrow> handler" where
  "RequestID next_h c s = setting [(RequestIDHeader, cx_RequestID c)] next_h c s"

definition Recoverer :: "handler \<Rightarrow> handler" where
  "Recoverer next_h c s =
     (case next_h c s of
        (Inl hs, s') \<Rightarrow>
          (with_headers hs (Inr (WriteProblem c 500 ''Internal Server Error'' (Text ''The request could not be completed.''))), s')
      | (Inr r, s') \<Rightarrow> (Inr r, s'))"

definition security_headers :: headers where
  "security_headers =
     [(''X-Content-Type-Options'', ''nosniff''), (''X-Frame-Options'', ''DENY''), (''Referrer-Policy'', ''no-referrer''),
      (''Cache-Control'', ''no-store''),
      (''Content-Security-Policy'', ''default-src 'none'; frame-ancestors 'none'' @ [CHR 0x27])]"

definition SecurityHeaders :: "handler \<Rightarrow> handler" where
  "SecurityHeaders next_h = setting security_headers next_h"

definition cors_headers :: "string list \<Rightarrow> string \<Rightarrow> headers" where
  "cors_headers allowed origin =
     (if origin \<noteq> [] \<and> origin \<in> set allowed
      then [(''Access-Control-Allow-Origin'', origin), (''Access-Control-Allow-Credentials'', ''true''),
            (''Access-Control-Allow-Headers'', ''Authorization, Content-Type, '' @ RequestIDHeader),
            (''Access-Control-Allow-Methods'', ''GET, POST, PATCH, DELETE, OPTIONS''),
            (''Access-Control-Max-Age'', ''600''), (''Vary'', ''Origin'')]
      else [])"

definition CORS :: "string list \<Rightarrow> handler \<Rightarrow> handler" where
  "CORS allowed next_h c s =
     (let hs = cors_headers allowed (hr_Origin (cx_Request c))
      in if hr_Method (cx_Request c) = ''OPTIONS''
         then (with_headers hs (Inr \<lparr>rp_Status = 204, rp_Headers = [], rp_Body = NoBody\<rparr>), s)
         else setting hs next_h c s)"

subsection \<open>The limiter as middleware\<close>

definition limited_of :: "http_request \<Rightarrow> limited_request" where
  "limited_of r = \<lparr>lr_RemoteAddr = hr_RemoteAddr r, lr_DeviceHeader = hr_Device r\<rparr>"

definition limiting ::
  "RateLimit \<Rightarrow> (limited_request \<Rightarrow> string) \<Rightarrow> (api_state \<Rightarrow> buckets) \<Rightarrow> (buckets \<Rightarrow> api_state \<Rightarrow> api_state) \<Rightarrow> handler \<Rightarrow> handler" where
  "limiting l key get put next_h c s =
     (case RateLimited l key (cx_Now c) (cx_Later c) (limited_of (cx_Request c)) (get s) of
        (TooManyRequests limit retry, bs) \<Rightarrow>
          (with_headers [(''X-RateLimit-Limit'', limit), (''Retry-After'', retry)]
             (Inr (WriteProblem c 429 ''Too Many Requests''
                (Text ''This client has made too many requests. Retry after the interval in the Retry-After header.''))), put bs s)
      | (Served limit, bs) \<Rightarrow> setting [(''X-RateLimit-Limit'', limit)] next_h c (put bs s))"

definition limitEnrollment :: "handler \<Rightarrow> handler" where
  "limitEnrollment = limiting \<lparr>rl_Requests = 20, rl_Window = minute\<rparr> ByIP ap_limitEnrollment (\<lambda>bs. ap_limitEnrollment_update (\<lambda>_. bs))"

definition limitIngest :: "handler \<Rightarrow> handler" where
  "limitIngest = limiting \<lparr>rl_Requests = 240, rl_Window = minute\<rparr> ByDevice ap_limitIngest (\<lambda>bs. ap_limitIngest_update (\<lambda>_. bs))"

definition limitTokens :: "handler \<Rightarrow> handler" where
  "limitTokens = limiting \<lparr>rl_Requests = 30, rl_Window = minute\<rparr> ByIP ap_limitTokens (\<lambda>bs. ap_limitTokens_update (\<lambda>_. bs))"

subsection \<open>What the handlers share\<close>

definition audited :: "call \<Rightarrow> dvalue audit_Entry \<Rightarrow> api_state \<Rightarrow> api_state" where
  "audited c e s = s\<lparr>ap_audit := Log (cx_Recorder c) e (ap_audit s)\<rparr>"

definition entry :: "call \<Rightarrow> ActorType \<Rightarrow> string \<Rightarrow> string \<Rightarrow> string \<Rightarrow> string \<Rightarrow> audit_Result \<Rightarrow> dvalue detail option \<Rightarrow> dvalue audit_Entry" where
  "entry c actor actorID action targetType targetID result detail =
     (blank_entry actor actorID action result (cx_RequestID c))
       \<lparr>ae_TargetType := targetType, ae_TargetID := targetID, ae_Detail := detail\<rparr>"

definition call_IP :: "call \<Rightarrow> string" where
  "call_IP c = clientIP (limited_of (cx_Request c))"

definition actorID :: "Principal option \<Rightarrow> string" where
  "actorID p = (case p of None \<Rightarrow> [] | Some p \<Rightarrow> uuid_String (pl_UserID p))"

text \<open>\<^verbatim>\<open>strconv.Atoi\<close> reads what \<^verbatim>\<open>ParseInt\<close> does.\<close>

definition intQuery :: "call \<Rightarrow> string \<Rightarrow> int \<Rightarrow> int option" where
  "intQuery c name fallback =
     (let raw = hr_Query (cx_Request c) name in if raw = [] then Some fallback else ParseInt raw)"

definition limit_in :: "call \<Rightarrow> int \<Rightarrow> int \<Rightarrow> int option" where
  "limit_in c fallback maximum =
     (case intQuery c ''limit'' fallback of
        None \<Rightarrow> None | Some limit \<Rightarrow> if limit < 1 \<or> limit > maximum then None else Some limit)"

definition uuid_param :: "call \<Rightarrow> string \<Rightarrow> uuid option" where
  "uuid_param c name = lb_uuid (cx_Lib c) (cx_Param c name)"

text \<open>\<^verbatim>\<open>decodeJSON\<close>, and the larger bound of telemetry batches.\<close>

definition decodeJSON :: "call \<Rightarrow> (nat \<Rightarrow> string \<Rightarrow> 'a option) \<Rightarrow> 'a option" where
  "decodeJSON c decode = decode 1048576 (hr_Body (cx_Request c))"

definition decodeLargeJSON :: "call \<Rightarrow> (nat \<Rightarrow> string \<Rightarrow> 'a option) \<Rightarrow> 'a option" where
  "decodeLargeJSON c decode = decode 4194304 (hr_Body (cx_Request c))"

text \<open>The names the queries join: of users, and of devices.\<close>

definition user_info :: "api_state \<Rightarrow> uuid \<rightharpoonup> string \<times> string" where
  "user_info s = map_of (map (\<lambda>r. (ur_ID r, ur_DisplayName r, ur_Email r)) (ap_users s))"

definition host_info :: "api_state \<Rightarrow> uuid \<rightharpoonup> string \<times> string" where
  "host_info s = map_of (map (\<lambda>d. (d_ID d, d_Hostname d, d_DeviceUID d)) (dd_devices (ts_devices (ap_trust s))))"

definition user_name :: "api_state \<Rightarrow> uuid \<rightharpoonup> string" where
  "user_name s u = map_option fst (user_info s u)"

definition host_name :: "api_state \<Rightarrow> uuid \<rightharpoonup> string" where
  "host_name s d = map_option fst (host_info s d)"

end
