(* ===== verification/DeviceRoutes.thy ===== *)
theory DeviceRoutes
  imports Http
begin

section \<open>DeviceRoutes: the agent plane and the administration of devices\<close>

text \<open>
  \<^verbatim>\<open>httpapi/device_routes.go\<close> and \<^verbatim>\<open>httpapi/posture_routes.go\<close>.  A handler behind the device signature gets
  the device the middleware put into the context, one behind authentication the principal.  What a
  handler only logs is not modelled.
\<close>

subsection \<open>device_routes.go\<close>

definition toDeviceResponse :: "Device \<Rightarrow> DeviceResponse" where
  "toDeviceResponse d =
     \<lparr>dp_ID = uuid_String (d_ID d), dp_DeviceUID = d_DeviceUID d, dp_Hostname = d_Hostname d, dp_OSName = d_OSName d,
      dp_OSVersion = d_OSVersion d, dp_AgentVersion = d_AgentVersion d, dp_KeyAlgorithm = d_KeyAlgorithm d,
      dp_KeyProtection = d_KeyProtection d, dp_State = d_State d, dp_EnrolledAt = d_EnrolledAt d,
      dp_LastHeartbeatAt = d_LastHeartbeatAt d, dp_RevokedAt = d_RevokedAt d, dp_RevokedReason = d_RevokedReason d,
      dp_TrustScore = None\<rparr>"

definition set_devices :: "device_db \<Rightarrow> api_state \<Rightarrow> api_state" where
  "set_devices db s = s\<lparr>ap_trust := (ap_trust s)\<lparr>ts_devices := db\<rparr>\<rparr>"

definition issueEnrollmentToken :: "Principal option \<Rightarrow> handler" where
  "issueEnrollmentToken caller c s =
     (case decodeJSON c (lj_token (cx_Lib c)) of
        None \<Rightarrow> bad_body c s
      | Some req \<Rightarrow>
          (let mins = (if tq_TTLMinutes req \<le> 0 then 60 else tq_TTLMinutes req)
           in if mins > 60 * 24 * 7
              then fails c 400 ''Invalid Request'' ''ttl_minutes must not exceed one week.'' s
              else
                (let createdBy = map_option pl_UserID caller;
                     ttl = mins * minute;
                     faults = (if cx_Random c = None then [''generate enrollment token''] else []) @ cx_Faults c;
                     raw = case_option [] (\<lambda>raw. raw) (cx_Random c)
                 in case IssueEnrollmentToken (lb_sha (cx_Lib c)) raw (cx_Id c) (cx_Now c) faults createdBy (tq_Label req) ttl
                           (ts_devices (ap_trust s)) of
                      (Inl e, db) \<Rightarrow>
                        fails c 500 ''Internal Server Error'' ''The enrollment token could not be issued.'' (set_devices db s)
                    | (Inr (token, tokenID), db) \<Rightarrow>
                        answers 201 (EnrollmentTokenBody tokenID token (time_Add (cx_Later c) ttl))
                          (audited c (entry c ActorUser (actorID caller) ActionEnrollTokenIssue ''enrollment_token''
                             (uuid_String tokenID) ResultSuccess
                             (Some [(''label'', DStr (tq_Label req)), (''ttl_minutes'', DInt mins)])) (set_devices db s)))))"

definition device_scores :: "bool \<Rightarrow> call \<Rightarrow> api_state \<Rightarrow> uuid \<rightharpoonup> int" where
  "device_scores posture c s =
     (if \<not> posture then Map.empty
      else case posture_LatestScores (cx_Faults c) (ts_postures (ap_trust s)) of Inl _ \<Rightarrow> Map.empty | Inr scores \<Rightarrow> scores)"

definition listDevices :: "bool \<Rightarrow> handler" where
  "listDevices posture c s =
     (case limit_in c 100 500 of
        None \<Rightarrow> fails c 400 ''Invalid Parameter'' ''limit must be between 1 and 500.'' s
      | Some limit \<Rightarrow>
          (case List_devices (cx_Faults c) limit (ts_devices (ap_trust s)) of
             Inl e \<Rightarrow> fails c 500 ''Internal Server Error'' ''Devices could not be listed.'' s
           | Inr devices \<Rightarrow>
               answers 200 (DevicesBody (map (\<lambda>d. (toDeviceResponse d)\<lparr>dp_TrustScore := device_scores posture c s (d_ID d)\<rparr>) devices)) s))"

definition getDevice :: "bool \<Rightarrow> handler" where
  "getDevice posture c s =
     (case uuid_param c ''id'' of
        None \<Rightarrow> fails c 400 ''Invalid Parameter'' ''id must be a UUID.'' s
      | Some ident \<Rightarrow>
          (case ByID (cx_Faults c) ident (ts_devices (ap_trust s)) of
             Inl ErrDeviceNotFound \<Rightarrow> fails c 404 ''Not Found'' ''No such device.'' s
           | Inl e \<Rightarrow> fails c 500 ''Internal Server Error'' ''The device could not be loaded.'' s
           | Inr found \<Rightarrow>
               (let score = (if posture
                             then (case posture_Latest (cx_Faults c) (d_ID found) (ts_postures (ap_trust s)) of
                                     Inl _ \<Rightarrow> None | Inr latest \<Rightarrow> Some (pr_TrustScore latest))
                             else None)
                in answers 200 (DeviceBody ((toDeviceResponse found)\<lparr>dp_TrustScore := score\<rparr>)) s)))"

definition revokeDevice :: "Principal option \<Rightarrow> handler" where
  "revokeDevice caller c s =
     (case uuid_param c ''id'' of
        None \<Rightarrow> fails c 400 ''Invalid Parameter'' ''id must be a UUID.'' s
      | Some ident \<Rightarrow>
          (case decodeJSON c (lj_revoke (cx_Lib c)) of
             None \<Rightarrow> bad_body c s
           | Some reason \<Rightarrow>
               (case Revoke (cx_Now c) (cx_Faults c) ident reason (ts_devices (ap_trust s)) of
                  (Some ErrDeviceNotFound, db) \<Rightarrow> fails c 404 ''Not Found'' ''No such device, or it is already revoked.'' (set_devices db s)
                | (Some e, db) \<Rightarrow> fails c 500 ''Internal Server Error'' ''The device could not be revoked.'' (set_devices db s)
                | (None, db) \<Rightarrow>
                    answers 200 (RevokedBody ident)
                      (audited c (entry c ActorUser (actorID caller) ActionDeviceRevoke ''device'' (uuid_String ident) ResultSuccess
                         (Some [(''reason'', DStr reason)])) (set_devices db s)))))"

text \<open>\<^verbatim>\<open>base64.RawStdEncoding\<close>: the symbols of the standard alphabet without padding.\<close>

fun RawStdEncode :: "string \<Rightarrow> string" where
  "RawStdEncode [] = []"
| "RawStdEncode [a] =
     (let sym = b64_symbol (CHR ''+'') (CHR ''/''); n = byte a * 16 in [sym (n div 64), sym (n mod 64)])"
| "RawStdEncode [a, b] =
     (let sym = b64_symbol (CHR ''+'') (CHR ''/''); n = (byte a * 256 + byte b) * 4
      in [sym (n div 4096), sym (n div 64 mod 64), sym (n mod 64)])"
| "RawStdEncode (a # b # d # rest) =
     (let sym = b64_symbol (CHR ''+'') (CHR ''/''); n = (byte a * 256 + byte b) * 256 + byte d
      in [sym (n div 262144), sym (n div 4096 mod 64), sym (n div 64 mod 64), sym (n mod 64)] @ RawStdEncode rest)"

definition publicKeyFingerprint :: "string \<Rightarrow> string" where
  "publicKeyFingerprint key = take 16 (RawStdEncode key)"

definition enroll_request :: "EnrollRequestBody \<Rightarrow> string \<Rightarrow> EnrollRequest" where
  "enroll_request b publicKey =
     \<lparr>er_DeviceUID = eb_DeviceUID b, er_Hostname = eb_Hostname b, er_OSName = eb_OSName b, er_OSVersion = eb_OSVersion b,
      er_AgentVersion = eb_AgentVersion b, er_PublicKey = publicKey, er_KeyProtection = eb_KeyProtection b\<rparr>"

definition enroll :: handler where
  "enroll c s =
     (case decodeJSON c (lj_enroll (cx_Lib c)) of
        None \<Rightarrow> bad_body c s
      | Some b \<Rightarrow>
          (case ParsePublicKey (eb_PublicKey b) of
             Inl e \<Rightarrow> (Inr (WriteProblem c 400 ''Invalid Request'' (DeviceErrorText e)), s)
           | Inr publicKey \<Rightarrow>
               (case Enroll (lb_sha (cx_Lib c)) (cx_Id c) (cx_Now c) (cx_Faults c) (eb_EnrollmentToken b)
                       (enroll_request b publicKey) (ts_devices (ap_trust s)) of
                  (Inl ErrEnrollmentToken, db) \<Rightarrow>
                    fails c 401 ''Unauthorized'' ''The enrollment token is not valid.''
                      (audited c (entry c ActorDevice (eb_DeviceUID b) ActionDeviceEnroll ''device'' (eb_DeviceUID b) ResultDenied
                         (Some [(''reason'', DStr ''invalid or spent enrollment token'')])) (set_devices db s))
                | (Inl ErrDeviceExists, db) \<Rightarrow>
                    fails c 409 ''Conflict'' ''A device with this identifier is already enrolled.'' (set_devices db s)
                | (Inl (ErrValidation field), db) \<Rightarrow>
                    (Inr (WriteProblem c 400 ''Invalid Request'' (DeviceErrorText (ErrValidation field))), set_devices db s)
                | (Inl e, db) \<Rightarrow> fails c 500 ''Internal Server Error'' ''The device could not be enrolled.'' (set_devices db s)
                | (Inr enrolled, db) \<Rightarrow>
                    answers 201 (DeviceBody (toDeviceResponse enrolled))
                      (audited c (entry c ActorDevice (uuid_String (d_ID enrolled)) ActionDeviceEnroll ''device''
                         (uuid_String (d_ID enrolled)) ResultSuccess
                         (Some [(''hostname'', DStr (d_Hostname enrolled)), (''os'', DStr (d_OSName enrolled @ '' '' @ d_OSVersion enrolled)),
                           (''agent_version'', DStr (d_AgentVersion enrolled)), (''key_protection'', DStr (d_KeyProtection enrolled)),
                           (''public_key_sha256'', DStr (publicKeyFingerprint publicKey))])) (set_devices db s)))))"

definition heartbeat :: "Device option \<Rightarrow> handler" where
  "heartbeat authenticated c s =
     (case authenticated of
        None \<Rightarrow> fails c 401 ''Unauthorized'' ''Device authentication is required.'' s
      | Some d \<Rightarrow>
          (case decodeJSON c (lj_heartbeat (cx_Lib c)) of
             None \<Rightarrow> bad_body c s
           | Some b \<Rightarrow>
               (case Heartbeat (cx_Now c) (cx_Faults c) (d_ID d) (hb_AgentVersion b) (ts_devices (ap_trust s)) of
                  (Some ErrDeviceNotActive, db) \<Rightarrow> fails c 403 ''Forbidden'' ''This device is not active.'' (set_devices db s)
                | (Some e, db) \<Rightarrow> fails c 500 ''Internal Server Error'' ''The heartbeat could not be recorded.'' (set_devices db s)
                | (None, db) \<Rightarrow> answers 200 (HeartbeatBody (cx_Later c)) (set_devices db s))))"

subsection \<open>posture_routes.go\<close>

definition set_postures :: "posture_db \<Rightarrow> api_state \<Rightarrow> api_state" where
  "set_postures db s = s\<lparr>ap_trust := (ap_trust s)\<lparr>ts_postures := db\<rparr>\<rparr>"

fun posture_error_string :: "posture_error \<Rightarrow> string" where
  "posture_error_string ErrOSTooLong = ''os_name and os_version must be at most 64 characters''"
| "posture_error_string ErrTooManyCollectionErrors = ''collection_errors must contain at most 32 entries''"
| "posture_error_string ErrCollectionErrorTooLong = ''collection_errors entries must be short''"
| "posture_error_string _ = []"

definition auditRejection :: "call \<Rightarrow> string \<Rightarrow> string \<Rightarrow> api_state \<Rightarrow> api_state" where
  "auditRejection c deviceID reason s =
     audited c (entry c ActorDevice deviceID ActionPostureRejected ''device'' deviceID ResultDenied
       (Some [(''reason'', DStr reason)])) s"

definition submit :: "posture_Weights \<Rightarrow> string \<Rightarrow> Device option \<Rightarrow> handler" where
  "submit weights expectedAgent reporting c s =
     (case reporting of
        None \<Rightarrow> fails c 401 ''Unauthorized'' ''Device authentication is required.'' s
      | Some d \<Rightarrow>
          (case decodeJSON c (lj_posture (cx_Lib c)) of
             None \<Rightarrow> bad_body c s
           | Some signals \<Rightarrow>
               (case Signals_Validate signals of
                  Some e \<Rightarrow>
                    (Inr (WriteProblem c 400 ''Invalid Request'' (PostureErrorText e)),
                     auditRejection c (uuid_String (d_ID d)) (posture_error_string e) s)
                | None \<Rightarrow>
                    (let assessment = posture_Evaluate signals
                           \<lparr>dc_Active = (d_State d = StateActive), dc_KeyProtection = d_KeyProtection d, dc_AgentVersion = d_AgentVersion d,
                            dc_ExpectedAgent = expectedAgent, dc_LastHeartbeatAt = d_LastHeartbeatAt d, dc_Now = cx_Now c\<rparr> weights
                     in case posture_Record_op (cx_Id c) (cx_Later c) (cx_Faults c) (d_ID d) signals assessment (ts_postures (ap_trust s)) of
                          (Inl e, db) \<Rightarrow>
                            fails c 500 ''Internal Server Error'' ''The posture report could not be stored.'' (set_postures db s)
                        | (Inr stored, db) \<Rightarrow>
                            answers 201 (PostureBody \<lparr>po_TrustScore = pr_TrustScore stored, po_Factors = pr_Factors stored,
                                po_Weakest = Weakest assessment 3, po_Verified = pr_Verified stored,
                                po_ModelVersion = pr_ModelVersion stored, po_CollectedAt = pr_CollectedAt stored\<rparr>) (set_postures db s)))))"

definition posture_latest :: handler where
  "posture_latest c s =
     (case uuid_param c ''id'' of
        None \<Rightarrow> fails c 400 ''Invalid Parameter'' ''id must be a UUID.'' s
      | Some ident \<Rightarrow>
          (case posture_Latest (cx_Faults c) ident (ts_postures (ap_trust s)) of
             Inl ErrNoPosture \<Rightarrow> fails c 404 ''Not Found'' ''This device has not reported its posture yet.'' s
           | Inl e \<Rightarrow> fails c 500 ''Internal Server Error'' ''The posture could not be loaded.'' s
           | Inr found \<Rightarrow> answers 200 (LatestPostureBody found) s))"

definition posture_history :: handler where
  "posture_history c s =
     (case uuid_param c ''id'' of
        None \<Rightarrow> fails c 400 ''Invalid Parameter'' ''id must be a UUID.'' s
      | Some ident \<Rightarrow>
          (case limit_in c 50 200 of
             None \<Rightarrow> fails c 400 ''Invalid Parameter'' ''limit must be between 1 and 200.'' s
           | Some limit \<Rightarrow>
               (case posture_History (cx_Faults c) ident limit (ts_postures (ap_trust s)) of
                  Inl e \<Rightarrow> fails c 500 ''Internal Server Error'' ''The posture history could not be loaded.'' s
                | Inr found \<Rightarrow>
                    answers 200 (PostureHistoryBody ident (map (\<lambda>r. (pr_CollectedAt r, pr_TrustScore r, pr_Verified r)) found)) s)))"

end
