(* ===== verification/TrustRoutes.thy ===== *)
theory TrustRoutes
  imports DeviceRoutes
begin

section \<open>TrustRoutes: sessions, the continuous-trust surface and the small routes\<close>

text \<open>
  \<^verbatim>\<open>httpapi/session_routes.go\<close>, \<^verbatim>\<open>trust_routes.go\<close>, \<^verbatim>\<open>audit.go\<close>, \<^verbatim>\<open>me.go\<close>, \<^verbatim>\<open>dev.go\<close>, \<^verbatim>\<open>demo_routes.go\<close> and \<^verbatim>\<open>health.go\<close>.
  A service of the trust surface that is not configured is a nil interface: calling it panics.
\<close>

subsection \<open>session_routes.go\<close>

definition set_sessions :: "session_db \<Rightarrow> api_state \<Rightarrow> api_state" where
  "set_sessions db s = s\<lparr>ap_trust := (ap_trust s)\<lparr>ts_sessions := db\<rparr>\<rparr>"

definition toSessionResponse :: "Session \<Rightarrow> SessionResponse" where
  "toSessionResponse s =
     \<lparr>sq_ID = uuid_String (s_ID s), sq_UserID = uuid_String (s_UserID s), sq_DeviceID = uuid_String (s_DeviceID s),
      sq_Status = s_Status s, sq_AuthMethod = s_AuthMethod s, sq_Attestation = s_Attestation s, sq_SourceIP = s_SourceIP s,
      sq_CurrentRisk = s_CurrentRisk s, sq_RiskLevel = s_CurrentLevel s, sq_StartedAt = s_StartedAt s,
      sq_LastSeenAt = s_LastSeenAt s, sq_EndedAt = s_EndedAt s, sq_UserDisplayName = s_UserDisplayName s,
      sq_UserEmail = s_UserEmail s, sq_DeviceHostname = s_DeviceHostname s, sq_DeviceUID = s_DeviceUID s\<rparr>"

fun attestation_string :: "AttestationMethod \<Rightarrow> string" where
  "attestation_string AttestationDeviceSignature = ''device-signature''"
| "attestation_string AttestationMTLS = ''mtls''"
| "attestation_string AttestationNone = ''none''"

definition no_token :: "call \<Rightarrow> api_state \<Rightarrow> outcome \<times> api_state" where
  "no_token c s = fails c 401 ''Unauthorized'' ''A bearer token is required.'' s"

definition issueNonce :: "Principal option \<Rightarrow> handler" where
  "issueNonce caller c s =
     (case caller of
        None \<Rightarrow> no_token c s
      | Some p \<Rightarrow>
          (case IssueNonce (cx_Random c) (cx_Now c) (cx_Faults c) (pl_UserID p) (ts_sessions (ap_trust s)) of
             (Inl e, db) \<Rightarrow>
               fails c 500 ''Internal Server Error'' ''An attestation challenge could not be issued.'' (set_sessions db s)
           | (Inr (nonce, expiresAt), db) \<Rightarrow>
               answers 201 (NonceBody nonce expiresAt (AttestationString nonce (pl_Subject p))) (set_sessions db s)))"

definition begin_denied :: "call \<Rightarrow> Principal \<Rightarrow> string \<Rightarrow> string \<Rightarrow> api_state \<Rightarrow> api_state" where
  "begin_denied c p deviceUID reason s =
     audited c ((entry c ActorUser (uuid_String (pl_UserID p)) ActionSessionBegin ''device'' deviceUID ResultDenied
       (Some [(''reason'', DStr reason)]))\<lparr>ae_SourceIP := call_IP c\<rparr>) s"

definition session_begin :: "Principal option \<Rightarrow> handler" where
  "session_begin caller c s =
     (case caller of
        None \<Rightarrow> no_token c s
      | Some p \<Rightarrow>
          (case decodeJSON c (lj_begin (cx_Lib c)) of
             None \<Rightarrow> bad_body c s
           | Some b \<Rightarrow>
               (let uid = bs_DeviceUID b
                in case Begin (lb_edv (cx_Lib c)) (lb_addr (cx_Lib c)) (ts_devices (ap_trust s)) (cx_Id c) (cx_Now c) (cx_Faults c)
                          \<lparr>br_UserID = pl_UserID p, br_Subject = pl_Subject p, br_DeviceUID = uid, br_Nonce = bs_Nonce b,
                           br_Signature = bs_Signature b, br_SourceIP = call_IP c\<rparr> (ts_sessions (ap_trust s)) of
                     (Inl e, db) \<Rightarrow>
                       (let s = set_sessions db s
                        in case e of
                             ErrSessionValidation _ \<Rightarrow>
                               fails c 400 ''Invalid Request'' ''The attestation challenge is not valid.''
                                 (begin_denied c p uid ''invalid or expired attestation challenge'' s)
                           | ErrNonce \<Rightarrow>
                               fails c 400 ''Invalid Request'' ''The attestation challenge is not valid.''
                                 (begin_denied c p uid ''invalid or expired attestation challenge'' s)
                           | ErrAttestation \<Rightarrow>
                               fails c 401 ''Unauthorized'' ''The device attestation could not be verified.''
                                 (begin_denied c p uid ''device attestation signature did not verify'' s)
                           | ErrDeviceUnusable \<Rightarrow>
                               fails c 403 ''Forbidden'' ''This device may not establish a session.''
                                 (begin_denied c p uid ''device is unknown, not active, or has not reported recently'' s)
                           | _ \<Rightarrow> fails c 500 ''Internal Server Error'' ''The session could not be established.'' s)
                   | (Inr created, db) \<Rightarrow>
                       answers 201 (SessionBody (toSessionResponse created))
                         (audited c ((entry c ActorUser (uuid_String (pl_UserID p)) ActionSessionBegin ''session''
                            (uuid_String (s_ID created)) ResultSuccess
                            (Some [(''device_id'', DStr (uuid_String (s_DeviceID created))), (''device_uid'', DStr (s_DeviceUID created)),
                              (''attestation'', DStr (attestation_string (s_Attestation created)))]))\<lparr>ae_SourceIP := call_IP c\<rparr>)
                            (set_sessions db s)))))"

definition session_end :: "Principal option \<Rightarrow> handler" where
  "session_end caller c s =
     (case caller of
        None \<Rightarrow> no_token c s
      | Some p \<Rightarrow>
          (case decodeJSON c (lj_end (cx_Lib c)) of
             None \<Rightarrow> bad_body c s
           | Some raw \<Rightarrow>
               (case lb_uuid (cx_Lib c) raw of
                  None \<Rightarrow> fails c 400 ''Invalid Request'' ''session_id must be a UUID.'' s
                | Some ident \<Rightarrow>
                    (case End (cx_Now c) (cx_Faults c) ident (pl_UserID p) (ts_sessions (ap_trust s)) of
                       (Some ErrNoRows, db) \<Rightarrow> fails c 404 ''Not Found'' ''No such active session for this user.'' (set_sessions db s)
                     | (Some e, db) \<Rightarrow> fails c 500 ''Internal Server Error'' ''The session could not be ended.'' (set_sessions db s)
                     | (None, db) \<Rightarrow>
                         answers 200 (EndedBody ident)
                           (audited c ((entry c ActorUser (uuid_String (pl_UserID p)) ActionSessionEnd ''session'' (uuid_String ident)
                              ResultSuccess None)\<lparr>ae_SourceIP := call_IP c\<rparr>) (set_sessions db s))))))"

definition listSessions :: handler where
  "listSessions c s =
     (case limit_in c 100 500 of
        None \<Rightarrow> fails c 400 ''Invalid Parameter'' ''limit must be between 1 and 500.'' s
      | Some limit \<Rightarrow>
          (case List_sessions (user_info s) (host_info s) (cx_Faults c) (hr_Query (cx_Request c) ''active'' = ''true'') limit
                  (ts_sessions (ap_trust s)) of
             Inl e \<Rightarrow> fails c 500 ''Internal Server Error'' ''Sessions could not be listed.'' s
           | Inr sessions \<Rightarrow> answers 200 (SessionsBody (map toSessionResponse sessions)) s))"

definition getSession :: handler where
  "getSession c s =
     (case uuid_param c ''id'' of
        None \<Rightarrow> fails c 400 ''Invalid Parameter'' ''id must be a UUID.'' s
      | Some ident \<Rightarrow>
          (case session_ByID (user_info s) (host_info s) (cx_Faults c) ident (ts_sessions (ap_trust s)) of
             Inl ErrNoRows \<Rightarrow> fails c 404 ''Not Found'' ''No such session.'' s
           | Inl e \<Rightarrow> fails c 500 ''Internal Server Error'' ''The session could not be loaded.'' s
           | Inr found \<Rightarrow> answers 200 (SessionBody (toSessionResponse found)) s))"

subsection \<open>trust_routes.go: agent plane\<close>

record trustHandler =
  th_telemetry :: bool
  th_risk :: bool
  th_policy :: bool
  th_incidents :: bool
  th_baselines :: bool
  th_evaluator :: bool
  th_stats :: bool

definition set_trust :: "trust_state \<Rightarrow> api_state \<Rightarrow> api_state" where
  "set_trust st s = s\<lparr>ap_trust := st\<rparr>"

definition set_events :: "event_db \<Rightarrow> api_state \<Rightarrow> api_state" where
  "set_events db s = s\<lparr>ap_trust := (ap_trust s)\<lparr>ts_events := db\<rparr>\<rparr>"

definition invalid_event :: "event_error \<Rightarrow> bool" where
  "invalid_event e = (case e of ErrTelemetryDB _ \<Rightarrow> False | ErrMetadataEncode \<Rightarrow> False | _ \<Rightarrow> True)"

definition ingest :: "trustHandler \<Rightarrow> Device option \<Rightarrow> handler" where
  "ingest h reporting c s =
     (case reporting of
        None \<Rightarrow> fails c 401 ''Unauthorized'' ''Device authentication is required.'' s
      | Some d \<Rightarrow>
          (case decodeLargeJSON c (lj_events (cx_Lib c)) of
             None \<Rightarrow> bad_body c s
           | Some events \<Rightarrow>
               if events = [] then fails c 400 ''Invalid Request'' ''The batch contains no events.'' s
               else
                 (case Ingest (lb_encodes (cx_Lib c)) (cx_Ids c) (cx_Batch c) (cx_Now c) (cx_Faults c) (ts_sessions (ap_trust s))
                         (d_ID d) events (ts_events (ap_trust s)) of
                    (Inl e, db) \<Rightarrow>
                      if invalid_event e then (Inr (WriteProblem c 400 ''Invalid Request'' (EventErrorText e)), set_events db s)
                      else fails c 500 ''Internal Server Error'' ''The events could not be stored.'' (set_events db s)
                  | (Inr result, db) \<Rightarrow>
                      (let s = set_events db s
                       in if th_evaluator h \<and> ir_Accepted result > 0
                          then (case EvaluateDevice (cx_Eval c) (d_ID d) ''telemetry_batch'' (ap_trust s) of
                                  (Inl EnginePanic, st) \<Rightarrow> (Inl [], set_trust st s)
                                | (_, st) \<Rightarrow> answers 202 (IngestBody result) (set_trust st s))
                          else answers 202 (IngestBody result) s))))"

subsection \<open>trust_routes.go: events and risk\<close>

fun Type_string :: "event_Type \<Rightarrow> string" where
  "Type_string TypeAuthLogin = ''AUTH_LOGIN''"
| "Type_string TypeAuthLogout = ''AUTH_LOGOUT''"
| "Type_string TypeDeviceEnrollment = ''DEVICE_ENROLLMENT''"
| "Type_string TypeDevicePosture = ''DEVICE_POSTURE''"
| "Type_string TypeApplicationStart = ''APPLICATION_START''"
| "Type_string TypeApplicationAccess = ''APPLICATION_ACCESS''"
| "Type_string TypeResourceAccess = ''RESOURCE_ACCESS''"
| "Type_string TypePrivilegeChange = ''PRIVILEGE_CHANGE''"
| "Type_string TypeNetworkEvent = ''NETWORK_EVENT''"
| "Type_string TypeSecurityEvent = ''SECURITY_EVENT''"
| "Type_string TypePolicyDecision = ''POLICY_DECISION''"
| "Type_string TypeRiskUpdate = ''RISK_UPDATE''"
| "Type_string TypeSecurityAlert = ''SECURITY_ALERT''"
| "Type_string (TypeOther s) = s"

definition event_types :: "event_Type list" where
  "event_types = [TypeAuthLogin, TypeAuthLogout, TypeDeviceEnrollment, TypeDevicePosture, TypeApplicationStart,
     TypeApplicationAccess, TypeResourceAccess, TypePrivilegeChange, TypeNetworkEvent, TypeSecurityEvent,
     TypePolicyDecision, TypeRiskUpdate, TypeSecurityAlert]"

definition type_of_string :: "string \<Rightarrow> event_Type" where
  "type_of_string s = (case find (\<lambda>t. Type_string t = s) event_types of Some t \<Rightarrow> t | None \<Rightarrow> TypeOther s)"

definition severity_of_string :: "string \<Rightarrow> Severity" where
  "severity_of_string s =
     (if s = ''INFO'' then SeverityInfo else if s = ''LOW'' then SeverityLow else if s = ''MEDIUM'' then SeverityMedium
      else if s = ''HIGH'' then SeverityHigh else if s = ''CRITICAL'' then SeverityCritical else SeverityOther s)"

fun Split_loop :: "char \<Rightarrow> string \<Rightarrow> string \<Rightarrow> string list" where
  "Split_loop sep acc [] = [acc]"
| "Split_loop sep acc (ch # rest) = (if ch = sep then acc # Split_loop sep [] rest else Split_loop sep (acc @ [ch]) rest)"

text \<open>\<^verbatim>\<open>strings.Split\<close> with a one-byte separator.\<close>

definition Split :: "string \<Rightarrow> char \<Rightarrow> string list" where
  "Split s sep = Split_loop sep [] s"

text \<open>A query parameter that is absent, or parses, or does not.\<close>

definition uuid_query :: "call \<Rightarrow> string \<Rightarrow> uuid option option" where
  "uuid_query c name =
     (let raw = hr_Query (cx_Request c) name
      in if raw = [] then Some None else map_option Some (lb_uuid (cx_Lib c) raw))"

definition blank_filter :: "int \<Rightarrow> Filter" where
  "blank_filter limit = \<lparr>fl_DeviceID = None, fl_UserID = None, fl_SessionID = None, fl_Types = [], fl_Severity = None,
     fl_Since = None, fl_Limit = limit\<rparr>"

definition event_filter :: "call \<Rightarrow> int \<Rightarrow> uuid option \<Rightarrow> uuid option \<Rightarrow> Filter" where
  "event_filter c limit sid device =
     (let rawType = hr_Query (cx_Request c) ''type''; rawSeverity = hr_Query (cx_Request c) ''severity''
      in (blank_filter limit)\<lparr>fl_SessionID := sid, fl_DeviceID := device,
           fl_Types := (if rawType = [] then [] else map (\<lambda>v. type_of_string (ToUpper (TrimSpace v))) (Split rawType (CHR '',''))),
           fl_Severity := (if rawSeverity = [] then None else Some (severity_of_string (ToUpper rawSeverity)))\<rparr>)"

definition query_events :: "call \<Rightarrow> Filter \<Rightarrow> api_state \<Rightarrow> event_error + Event list" where
  "query_events c f s = Query (host_name s) (user_name s) (cx_Faults c) f (ts_events (ap_trust s))"

definition listEvents :: handler where
  "listEvents c s =
     (case limit_in c 100 1000 of
        None \<Rightarrow> fails c 400 ''Invalid Parameter'' ''limit must be between 1 and 1000.'' s
      | Some limit \<Rightarrow>
          (case uuid_query c ''session_id'' of
             None \<Rightarrow> fails c 400 ''Invalid Parameter'' ''session_id must be a UUID.'' s
           | Some sid \<Rightarrow>
               (case uuid_query c ''device_id'' of
                  None \<Rightarrow> fails c 400 ''Invalid Parameter'' ''device_id must be a UUID.'' s
                | Some device \<Rightarrow>
                    (case query_events c (event_filter c limit sid device) s of
                       Inl e \<Rightarrow> fails c 500 ''Internal Server Error'' ''Events could not be queried.'' s
                     | Inr events \<Rightarrow> answers 200 (EventsBody events) s))))"

definition sessionRisk :: handler where
  "sessionRisk c s =
     (case uuid_param c ''session_id'' of
        None \<Rightarrow> fails c 400 ''Invalid Parameter'' ''session_id must be a UUID.'' s
      | Some sid \<Rightarrow>
          (case risk_Latest (lb_collate (cx_Lib c)) (cx_Faults c) sid (ts_risks (ap_trust s)) of
             Inl e \<Rightarrow> fails c 404 ''Not Found'' ''This session has not been scored yet.'' s
           | Inr latest \<Rightarrow>
               (let history = (case risk_History (cx_Faults c) sid 200 (ts_risks (ap_trust s)) of Inl _ \<Rightarrow> [] | Inr h \<Rightarrow> h)
                in answers 200 (RiskBody sid latest
                     (map (\<lambda>p. (ra_ComputedAt p, ra_Score p, ra_Level p, ra_TriggerEvent p)) history)) s)))"

definition evaluate :: handler where
  "evaluate c s =
     (case uuid_param c ''session_id'' of
        None \<Rightarrow> fails c 400 ''Invalid Parameter'' ''session_id must be a UUID.'' s
      | Some sid \<Rightarrow>
          (case trust_Evaluate (cx_Eval c) sid ''manual'' (ap_trust s) of
             (Inl EnginePanic, st) \<Rightarrow> (Inl [], set_trust st s)
           | (Inl e, st) \<Rightarrow> fails c 500 ''Internal Server Error'' ''The session could not be evaluated.'' (set_trust st s)
           | (Inr out, st) \<Rightarrow> answers 200 (OutcomeBody out) (set_trust st s)))"

subsection \<open>trust_routes.go: policies\<close>

definition set_policies :: "Policy list \<Rightarrow> api_state \<Rightarrow> api_state" where
  "set_policies db s = s\<lparr>ap_trust := (ap_trust s)\<lparr>ts_policies := db\<rparr>\<rparr>"

definition listPolicies :: handler where
  "listPolicies c s =
     (case All_policies (cx_Faults c) (ts_policies (ap_trust s)) of
        Inl e \<Rightarrow> fails c 500 ''Internal Server Error'' ''Policies could not be listed.'' s
      | Inr policies \<Rightarrow> answers 200 (PoliciesBody policies) s)"

definition invalid_policy :: "policy_error \<Rightarrow> bool" where
  "invalid_policy e = (case e of ErrPolicyDB _ \<Rightarrow> False | _ \<Rightarrow> True)"

definition createPolicy :: "Principal option \<Rightarrow> handler" where
  "createPolicy caller c s =
     (case decodeJSON c (lj_policy (cx_Lib c)) of
        None \<Rightarrow> bad_body c s
      | Some candidate \<Rightarrow>
          (case Create_policy (cx_Id c) (cx_Now c) (cx_Faults c) (candidate\<lparr>p_Enabled := True\<rparr>) (map_option pl_UserID caller)
                  (ts_policies (ap_trust s)) of
             (Inl e, db) \<Rightarrow>
               if invalid_policy e then (Inr (WriteProblem c 400 ''Invalid Request'' (PolicyErrorText e)), set_policies db s)
               else fails c 500 ''Internal Server Error'' ''The policy could not be created.'' (set_policies db s)
           | (Inr created, db) \<Rightarrow>
               answers 201 (PolicyBody created)
                 (audited c (entry c ActorUser (actorID caller) ActionPolicyCreated ''policy'' (p_PolicyID created) ResultSuccess
                    (Some [(''version'', DInt (p_Version created)),
                      (''decision'', DStr (Decision_string (ac_Decision (p_Actions created)))), (''name'', DStr (p_Name created))]))
                    (set_policies db s))))"

definition level_of_string :: "string \<Rightarrow> Level" where
  "level_of_string s =
     (if s = ''LOW'' then LevelLow else if s = ''MEDIUM'' then LevelMedium else if s = ''ELEVATED'' then LevelElevated
      else if s = ''HIGH'' then LevelHigh else if s = ''CRITICAL'' then LevelCritical else LevelOther s)"

text \<open>The handler leaves the other fields at zero values, which the policy engine does not read.\<close>

definition hypothetical :: "policy_question \<Rightarrow> Assessment" where
  "hypothetical q =
     \<lparr>ra_SessionID = uuid_Nil, ra_Score = pq_Score q,
      ra_Level = (if pq_Level q = [] then Thresholds_Level DefaultThresholds (pq_Score q) else level_of_string (ToUpper (pq_Level q))),
      ra_Action = ActionAllow,
      ra_Factors = map (\<lambda>code. \<lparr>rf_Code = ToUpper code, rf_Label = [], rf_Dimension = DimIdentity, rf_Contribution = 0, rf_Detail = []\<rparr>) (pq_Factors q),
      ra_Dimensions = Map.empty, ra_ComputedAt = zero_time, ra_ModelVersion = [], ra_TriggerEvent = []\<rparr>"

definition evaluatePolicy :: handler where
  "evaluatePolicy c s =
     (case decodeJSON c (lj_question (cx_Lib c)) of
        None \<Rightarrow> bad_body c s
      | Some q \<Rightarrow>
          if pq_Score q < 0 \<or> pq_Score q > 100 then fails c 400 ''Invalid Request'' ''score must be 0..100.'' s
          else
            (case Active_policies (cx_Faults c) (ts_policies (ap_trust s)) of
               Inl e \<Rightarrow> fails c 500 ''Internal Server Error'' ''Policies could not be loaded.'' s
             | Inr active \<Rightarrow>
                 answers 200 (ResultBody (policy_Evaluate (policy_NewEngine active)
                   \<lparr>rq_Assessment = hypothetical q, rq_ResourceSensitivity = ToUpper (pq_ResourceSensitivity q), rq_ResourceID = None,
                    rq_Degraded = False\<rparr> (cx_Now c) (time_Sub (cx_Later c) (cx_Now c)))) s))"

definition listDecisions :: handler where
  "listDecisions c s =
     (case limit_in c 100 500 of
        None \<Rightarrow> fails c 400 ''Invalid Parameter'' ''limit must be between 1 and 500.'' s
      | Some limit \<Rightarrow>
          (case uuid_query c ''session_id'' of
             None \<Rightarrow> fails c 400 ''Invalid Parameter'' ''session_id must be a UUID.'' s
           | Some sid \<Rightarrow>
               (case Decisions (user_name s) (host_name s) (cx_Faults c) sid limit (ts_decisions (ap_trust s)) of
                  Inl e \<Rightarrow> fails c 500 ''Internal Server Error'' ''Decisions could not be listed.'' s
                | Inr decisions \<Rightarrow> answers 200 (DecisionsBody decisions) s)))"

subsection \<open>trust_routes.go: incidents\<close>

definition set_incidents :: "incident_db \<Rightarrow> api_state \<Rightarrow> api_state" where
  "set_incidents db s = s\<lparr>ap_trust := (ap_trust s)\<lparr>ts_incidents := db\<rparr>\<rparr>"

definition listIncidents :: handler where
  "listIncidents c s =
     (case limit_in c 100 500 of
        None \<Rightarrow> fails c 400 ''Invalid Parameter'' ''limit must be between 1 and 500.'' s
      | Some limit \<Rightarrow>
          (case List_incidents (user_name s) (host_name s) (cx_Faults c) (hr_Query (cx_Request c) ''open'' = ''true'') limit
                  (ts_incidents (ap_trust s)) of
             Inl e \<Rightarrow> fails c 500 ''Internal Server Error'' ''Incidents could not be listed.'' s
           | Inr incidents \<Rightarrow> answers 200 (IncidentsBody incidents) s))"

definition kept :: "'e + 'a \<Rightarrow> 'a option" where
  "kept r = (case r of Inl _ \<Rightarrow> None | Inr x \<Rightarrow> Some x)"

definition getIncident :: "trustHandler \<Rightarrow> handler" where
  "getIncident h c s =
     (case uuid_param c ''id'' of
        None \<Rightarrow> fails c 400 ''Invalid Parameter'' ''id must be a UUID.'' s
      | Some ident \<Rightarrow>
          (case incident_ByID (user_name s) (host_name s) (cx_Faults c) ident (ts_incidents (ap_trust s)) of
             Inl ErrIncidentNotFound \<Rightarrow> fails c 404 ''Not Found'' ''No such incident.'' s
           | Inl e \<Rightarrow> fails c 500 ''Internal Server Error'' ''The incident could not be loaded.'' s
           | Inr found \<Rightarrow>
               (let notes = kept (Notes (user_name s) (cx_Faults c) ident (ts_incidents (ap_trust s)))
                in case ic_SessionID found of
                     None \<Rightarrow> answers 200 (IncidentBody \<lparr>iv_Incident = found, iv_Notes = notes, iv_Events = None,
                         iv_RiskHistory = None, iv_Decisions = None\<rparr>) s
                   | Some sid \<Rightarrow>
                       if \<not> th_telemetry h \<or> \<not> th_risk h \<or> \<not> th_policy h then (Inl [], s)
                       else answers 200 (IncidentBody \<lparr>iv_Incident = found, iv_Notes = notes,
                         iv_Events = kept (query_events c ((blank_filter 200)\<lparr>fl_SessionID := Some sid\<rparr>) s),
                         iv_RiskHistory = kept (risk_History (cx_Faults c) sid 200 (ts_risks (ap_trust s))),
                         iv_Decisions = kept (Decisions (user_name s) (host_name s) (cx_Faults c) (Some sid) 100
                           (ts_decisions (ap_trust s)))\<rparr>) s)))"

fun incident_status_string :: "incident_Status \<Rightarrow> string" where
  "incident_status_string StatusOpen = ''OPEN''"
| "incident_status_string StatusInvestigating = ''INVESTIGATING''"
| "incident_status_string StatusContained = ''CONTAINED''"
| "incident_status_string StatusResolved = ''RESOLVED''"
| "incident_status_string StatusFalsePositive = ''FALSE_POSITIVE''"
| "incident_status_string (StatusUnknown raw) = raw"

definition setIncidentStatus :: "Principal option \<Rightarrow> handler" where
  "setIncidentStatus caller c s =
     (case uuid_param c ''id'' of
        None \<Rightarrow> fails c 400 ''Invalid Parameter'' ''id must be a UUID.'' s
      | Some ident \<Rightarrow>
          (case decodeJSON c (lj_status (cx_Lib c)) of
             None \<Rightarrow> bad_body c s
           | Some raw \<Rightarrow>
               (let (status, ok) = ParseStatus (ToUpper raw)
                in if \<not> ok
                   then fails c 400 ''Invalid Request'' ''status must be OPEN, INVESTIGATING, CONTAINED, RESOLVED or FALSE_POSITIVE.'' s
                   else
                     (case SetStatus (cx_Now c) (cx_Faults c) ident status (ts_incidents (ap_trust s)) of
                        (Some ErrIncidentNotFound, db) \<Rightarrow> fails c 404 ''Not Found'' ''No such incident.'' (set_incidents db s)
                      | (Some e, db) \<Rightarrow> fails c 500 ''Internal Server Error'' ''The incident could not be updated.'' (set_incidents db s)
                      | (None, db) \<Rightarrow>
                          answers 200 (StatusBody ident status)
                            (audited c (entry c ActorUser (actorID caller) ActionIncidentUpdated ''incident'' (uuid_String ident)
                               ResultSuccess (Some [(''status'', DStr (incident_status_string status))])) (set_incidents db s))))))"

definition addIncidentNote :: "Principal option \<Rightarrow> handler" where
  "addIncidentNote caller c s =
     (case uuid_param c ''id'' of
        None \<Rightarrow> fails c 400 ''Invalid Parameter'' ''id must be a UUID.'' s
      | Some ident \<Rightarrow>
          (case decodeJSON c (lj_note (cx_Lib c)) of
             None \<Rightarrow> bad_body c s
           | Some raw \<Rightarrow>
               (let trimmed = TrimSpace raw
                in if trimmed = [] \<or> length trimmed > 4000
                   then fails c 400 ''Invalid Request'' ''A note must be between 1 and 4000 characters.'' s
                   else case caller of
                          None \<Rightarrow> no_token c s
                        | Some p \<Rightarrow>
                            (case AddNote (cx_Id c) (cx_Now c) (cx_Faults c) ident (pl_UserID p) trimmed (ts_incidents (ap_trust s)) of
                               (Some e, db) \<Rightarrow> fails c 500 ''Internal Server Error'' ''The note could not be added.'' (set_incidents db s)
                             | (None, db) \<Rightarrow> answers 201 NoteAddedBody (set_incidents db s)))))"

subsection \<open>trust_routes.go: baselines and the overview\<close>

definition set_profiles :: "behaviour_db \<Rightarrow> api_state \<Rightarrow> api_state" where
  "set_profiles db s = s\<lparr>ap_trust := (ap_trust s)\<lparr>ts_profiles := db\<rparr>\<rparr>"

definition rebuildBaseline :: handler where
  "rebuildBaseline c s =
     (case uuid_param c ''id'' of
        None \<Rightarrow> fails c 400 ''Invalid Parameter'' ''id must be a UUID.'' s
      | Some user \<Rightarrow>
          (case Rebuild (cx_Now c) (cx_Later c) (cx_Faults c) (ts_sessions (ap_trust s)) (ts_events (ap_trust s)) user DefaultWindowDays
                  (ts_profiles (ap_trust s)) of
             (Inl e, db) \<Rightarrow> fails c 500 ''Internal Server Error'' ''The baseline could not be rebuilt.'' (set_profiles db s)
           | (Inr profile, db) \<Rightarrow> answers 200 (ProfileBody profile) (set_profiles db s)))"

definition getBaseline :: handler where
  "getBaseline c s =
     (case uuid_param c ''id'' of
        None \<Rightarrow> fails c 400 ''Invalid Parameter'' ''id must be a UUID.'' s
      | Some user \<Rightarrow>
          (case Load (cx_Faults c) user (ts_profiles (ap_trust s)) of
             Inl e \<Rightarrow> fails c 404 ''Not Found'' ''This user has no behavioural baseline yet.'' s
           | Inr profile \<Rightarrow> answers 200 (ProfileBody profile) s))"

definition overview :: "trustHandler \<Rightarrow> handler" where
  "overview h c s =
     (let response = \<lparr>ow_Endpoints = 0, ow_EndpointsTrusted = 0, ow_EndpointsAtRisk = 0, ow_ActiveSessions = 0,
            ow_HighRiskSessions = 0, ow_OpenIncidents = 0, ow_CriticalIncidents = 0, ow_RiskDistribution = Map.empty, ow_RecentEvents = []\<rparr>;
          response = (case Counts (cx_Faults c) (ts_incidents (ap_trust s)) of
              Inl _ \<Rightarrow> response
            | Inr (openings, critical) \<Rightarrow> response\<lparr>ow_OpenIncidents := openings, ow_CriticalIncidents := critical\<rparr>);
          response = (if th_telemetry h
            then (case query_events c (blank_filter 15) s of Inl _ \<Rightarrow> response | Inr events \<Rightarrow> response\<lparr>ow_RecentEvents := events\<rparr>)
            else response);
          response = (if th_stats h
            then (case fleet_summary (cx_Faults c) (ap_trust s) of
                    Inl _ \<Rightarrow> response
                  | Inr fleet \<Rightarrow> response\<lparr>ow_Endpoints := fs_Endpoints fleet, ow_EndpointsTrusted := fs_Trusted fleet,
                      ow_EndpointsAtRisk := fs_AtRisk fleet, ow_ActiveSessions := fs_ActiveSessions fleet,
                      ow_HighRiskSessions := fs_HighRiskSessions fleet, ow_RiskDistribution := fs_RiskDistribution fleet\<rparr>)
            else response)
      in answers 200 (OverviewBody response) s)"

subsection \<open>audit.go\<close>

definition audit_response :: "dvalue audit_Record \<Rightarrow> AuditRecordResponse" where
  "audit_response r =
     (let e = ar_Entry r
      in \<lparr>ao_Seq = ar_Seq r, ao_At = ae_At e, ao_ActorType = ae_ActorType e, ao_ActorID = ae_ActorID e, ao_Action = ae_Action e,
          ao_TargetType = ae_TargetType e, ao_TargetID = ae_TargetID e, ao_Result = ae_Result e, ao_RequestID = ae_RequestID e,
          ao_SourceIP = ae_SourceIP e, ao_Detail = ae_Detail e, ao_Hash = hex_encode (ar_Hash r), ao_PrevHash = hex_encode (ar_PrevHash r)\<rparr>)"

definition audit_list :: "Principal option \<Rightarrow> handler" where
  "audit_list caller c s =
     (case intQuery c ''after'' 0 of
        None \<Rightarrow> fails c 400 ''Invalid Parameter'' ''after must be a non-negative integer.'' s
      | Some after \<Rightarrow>
          if after < 0 then fails c 400 ''Invalid Parameter'' ''after must be a non-negative integer.'' s
          else
            (case limit_in c 100 1000 of
               None \<Rightarrow> fails c 400 ''Invalid Parameter'' ''limit must be between 1 and 1000.'' s
             | Some limit \<Rightarrow>
                 (case List_records (cx_Faults c) after limit (au_rows (ap_audit s)) of
                    Inl e \<Rightarrow> fails c 500 ''Internal Server Error'' ''The audit log could not be read.'' s
                  | Inr found \<Rightarrow>
                      (let chain = Verify (lb_sha (cx_Lib c)) (lb_enc (cx_Lib c)) (cx_VerifyFaults c) (au_rows (ap_audit s));
                           response = \<lparr>al_Records = map audit_response found, al_ChainVerified = (chain = None), al_ChainError = chain,
                             al_NextAfter = (if found = [] then 0 else ar_Seq (last found))\<rparr>;
                           s = (case caller of
                                  None \<Rightarrow> s
                                | Some p \<Rightarrow>
                                    audited c (entry c ActorUser (uuid_String (pl_UserID p)) ActionAuditRead [] [] ResultSuccess
                                      (Some [(''after'', DInt after), (''limit'', DInt limit)])) s)
                       in answers 200 (AuditBody response) s))))"

subsection \<open>me.go, dev.go, demo\_routes.go and health.go\<close>

definition handleMe :: "Principal option \<Rightarrow> handler" where
  "handleMe caller c s = (case caller of None \<Rightarrow> no_token c s | Some p \<Rightarrow> answers 200 (MeBody p) s)"

definition roleSet :: "Role list \<Rightarrow> Role list" where
  "roleSet roles = roles"

definition dev_mint :: "DevVerifier \<Rightarrow> handler" where
  "dev_mint v c s =
     (case lj_dev (cx_Lib c) 8192 (hr_Body (cx_Request c)) of
        None \<Rightarrow> bad_body c s
      | Some req \<Rightarrow>
          if TrimSpace (dt_Subject req) = [] then fails c 400 ''Invalid Request'' ''subject is required.'' s
          else
            (let roles = ParseRoles (dt_Roles req)
             in case Mint (lb_sign (cx_Lib c)) v (cx_Now c) (dt_Subject req) (dt_Email req) (dt_DisplayName req) (dt_Department req) roles of
                  None \<Rightarrow> fails c 400 ''Invalid Request'' ''The token could not be issued.'' s
                | Some token \<Rightarrow>
                    answers 200 (DevTokenBody token (roleNames roles))
                      (audited c (entry c ActorSystem ''dev-auth'' ActionDevTokenIssued ''user'' (dt_Subject req) ResultSuccess
                         (Some [(''roles'', DStrs (roleNames roles))])) s)))"

definition listScenarios :: handler where
  "listScenarios c s = answers 200 (ScenariosBody Catalogue) s"

fun panicked :: "sim_error \<Rightarrow> bool" where
  "panicked (ErrSimEvaluate label EnginePanic) = True"
| "panicked _ = False"

definition runScenario :: "Principal option \<Rightarrow> handler" where
  "runScenario caller c s =
     (let name = cx_Param c ''name''
      in case Find name of
           None \<Rightarrow> fails c 404 ''Not Found'' ''No such scenario.'' s
         | Some scenario \<Rightarrow>
             (case Run (cx_Sim c) scenario (ap_trust s) (ap_users s) of
                (out, st, users) \<Rightarrow>
                  (let s = s\<lparr>ap_trust := st, ap_users := users\<rparr>
                   in case out of
                        Inl e \<Rightarrow>
                          if panicked e then (Inl [], s)
                          else fails c 500 ''Internal Server Error'' ''The scenario could not be completed.'' s
                      | Inr result \<Rightarrow>
                          answers 200 (ScenarioBody result)
                            (audited c (entry c ActorUser (actorID caller) ActionScenarioRun ''scenario'' name ResultSuccess
                               (Some [(''final_score'', DInt (sl_FinalScore result)), (''final_level'', DStr (sl_FinalLevel result)),
                                 (''final_decision'', DStr (sl_Decision result)), (''session_id'', DStr (sl_SessionID result))])) s))))"

definition Live :: "string \<Rightarrow> time \<Rightarrow> handler" where
  "Live environment started c s =
     answers 200 (HealthBody \<lparr>he_Status = ''ok'', he_Checks = [], he_Time = cx_Now c, he_Env = environment,
       he_Uptime = time_Sub (cx_Later c) started\<rparr>) s"

text \<open>\<open>db\<close> tells whether a database is configured; a failed ping is the fault ''ping''.\<close>

definition Ready :: "bool \<Rightarrow> string \<Rightarrow> time \<Rightarrow> handler" where
  "Ready db environment started c s =
     (let (check, status, code) =
            (if \<not> db then (''not_configured'', ''ok'', 200)
             else if fault (cx_Faults c) ''ping'' then (''unavailable'', ''degraded'', 503)
             else (''ok'', ''ok'', 200))
      in answers code (HealthBody \<lparr>he_Status = status, he_Checks = [(''database'', check)], he_Time = cx_Now c, he_Env = environment,
           he_Uptime = time_Sub (cx_Later c) started\<rparr>) s)"

end
