(* ===== verification/Router.thy ===== *)
theory Router
  imports TrustRoutes
begin

section \<open>Router: which checks stand before which handler\<close>

text \<open>
  \<^verbatim>\<open>httpapi/router.go\<close>, with the middleware of \<^verbatim>\<open>internal/auth\<close> and \<^verbatim>\<open>internal/device\<close> as the router mounts it.
  The table of routes lists, for a configuration, the method and pattern of every route with the plane
  that guards it.  Which entry a path belongs to is decided by \<^verbatim>\<open>chi\<close>, a parameter.
\<close>

subsection \<open>Planes\<close>

record Options =
  op_Env :: string
  op_AllowedOrigins :: "string list"
  op_Started :: time
  op_DB :: bool
  op_Verifier :: bool
  op_Users :: bool
  op_AuditReader :: bool
  op_DevVerifier :: "DevVerifier option"
  op_Devices :: bool
  op_Sessions :: bool
  op_Posture :: bool
  op_PostureWeights :: posture_Weights
  op_ExpectedAgentVersion :: string
  op_Telemetry :: bool
  op_Risk :: bool
  op_Policy :: bool
  op_Incidents :: bool
  op_Baselines :: bool
  op_Trust :: bool
  op_Stats :: bool
  op_Simulator :: bool

datatype endpoint =
  EpHealth | EpReady | EpDevToken DevVerifier
| EpEnroll | EpHeartbeat | EpPosture | EpEvents
| EpMe | EpNonce | EpBegin | EpEnd
| EpAudit | EpListEvents | EpSessionRisk | EpListPolicies | EpDecisions | EpListIncidents | EpGetIncident
| EpOverview | EpGetBaseline
| EpSetStatus | EpAddNote | EpEvaluate | EpRebuild
| EpCreatePolicy | EpEvaluatePolicy | EpScenarios | EpRunScenario
| EpListSessions | EpGetSession | EpListDevices | EpGetDevice | EpPostureLatest | EpPostureHistory
| EpIssueToken | EpRevoke

datatype plane = PublicPlane | TokenPlane | EnrollPlane | AgentPlane | IngestPlane | ClientPlane | RolePlane "Role list"

type_synonym route = "string \<times> string \<times> plane \<times> endpoint"

definition GET :: "plane \<Rightarrow> string \<Rightarrow> endpoint \<Rightarrow> route" where
  "GET p pattern e = (''GET'', ''/api/v1'' @ pattern, p, e)"

definition POST :: "plane \<Rightarrow> string \<Rightarrow> endpoint \<Rightarrow> route" where
  "POST p pattern e = (''POST'', ''/api/v1'' @ pattern, p, e)"

definition when_set :: "bool \<Rightarrow> 'a list \<Rightarrow> 'a list" where
  "when_set b xs = (if b then xs else [])"

definition soc :: plane where
  "soc = RolePlane (roleSet [RoleAnalyst, RoleAdmin, RoleAuditor])"

definition analyst :: plane where
  "analyst = RolePlane (roleSet [RoleAnalyst, RoleAdmin])"

definition admin :: plane where
  "admin = RolePlane (roleSet [RoleAdmin])"

definition open_routes :: "Options \<Rightarrow> route list" where
  "open_routes o' =
     [GET PublicPlane ''/health'' EpHealth, GET PublicPlane ''/health/ready'' EpReady] @
     (case op_DevVerifier o' of None \<Rightarrow> [] | Some v \<Rightarrow> [POST TokenPlane ''/dev/token'' (EpDevToken v)]) @
     when_set (op_Devices o')
       ([POST EnrollPlane ''/agent/enroll'' EpEnroll, POST AgentPlane ''/agent/heartbeat'' EpHeartbeat] @
        when_set (op_Posture o') [POST AgentPlane ''/agent/posture'' EpPosture] @
        when_set (op_Telemetry o') [POST IngestPlane ''/agent/events'' EpEvents])"

definition user_routes :: "Options \<Rightarrow> route list" where
  "user_routes o' =
     [GET ClientPlane ''/client/me'' EpMe] @
     when_set (op_Sessions o')
       [POST ClientPlane ''/client/session/nonce'' EpNonce, POST ClientPlane ''/client/session/begin'' EpBegin,
        POST ClientPlane ''/client/session/end'' EpEnd] @
     when_set (op_AuditReader o') [GET (RolePlane (roleSet [RoleAuditor, RoleAdmin, RoleAnalyst])) ''/audit'' EpAudit] @
     when_set (op_Telemetry o') [GET soc ''/events'' EpListEvents] @
     when_set (op_Risk o') [GET soc ''/risk/{session_id}'' EpSessionRisk] @
     when_set (op_Policy o') [GET soc ''/policies'' EpListPolicies, GET soc ''/policy-decisions'' EpDecisions] @
     when_set (op_Incidents o')
       [GET soc ''/incidents'' EpListIncidents, GET soc ''/incidents/{id}'' EpGetIncident, GET soc ''/overview'' EpOverview] @
     when_set (op_Baselines o') [GET soc ''/users/{id}/baseline'' EpGetBaseline] @
     when_set (op_Incidents o')
       [POST analyst ''/incidents/{id}/status'' EpSetStatus, POST analyst ''/incidents/{id}/notes'' EpAddNote] @
     when_set (op_Trust o') [POST analyst ''/sessions/{session_id}/evaluate'' EpEvaluate] @
     when_set (op_Baselines o') [POST analyst ''/users/{id}/baseline/rebuild'' EpRebuild] @
     when_set (op_Policy o') [POST admin ''/policies'' EpCreatePolicy, POST admin ''/policies/evaluate'' EpEvaluatePolicy] @
     when_set (op_Simulator o')
       [GET (RolePlane (roleSet [RoleAdmin, RoleAnalyst])) ''/demo/scenarios'' EpScenarios,
        POST (RolePlane (roleSet [RoleAdmin, RoleAnalyst])) ''/demo/scenarios/{name}'' EpRunScenario] @
     when_set (op_Sessions o') [GET soc ''/sessions'' EpListSessions, GET soc ''/sessions/{id}'' EpGetSession] @
     when_set (op_Devices o')
       ([GET soc ''/devices'' EpListDevices, GET soc ''/devices/{id}'' EpGetDevice] @
        when_set (op_Posture o')
          [GET soc ''/devices/{id}/posture'' EpPostureLatest, GET soc ''/devices/{id}/posture/history'' EpPostureHistory] @
        [POST admin ''/enrollment-tokens'' EpIssueToken, POST admin ''/devices/{id}/revoke'' EpRevoke])"

text \<open>Without a verifier there is nothing to authenticate against.\<close>

definition routes :: "Options \<Rightarrow> route list" where
  "routes o' = open_routes o' @ when_set (op_Verifier o' \<and> op_Users o') (user_routes o')"

definition trustAPI :: "Options \<Rightarrow> trustHandler" where
  "trustAPI o' = \<lparr>th_telemetry = op_Telemetry o', th_risk = op_Risk o', th_policy = op_Policy o', th_incidents = op_Incidents o',
     th_baselines = op_Baselines o', th_evaluator = op_Trust o', th_stats = op_Stats o'\<rparr>"

subsection \<open>Handlers and their guards\<close>

fun handle :: "Options \<Rightarrow> endpoint \<Rightarrow> Device option \<Rightarrow> Principal option \<Rightarrow> handler" where
  "handle o' EpHealth d p = Live (op_Env o') (op_Started o')"
| "handle o' EpReady d p = Ready (op_DB o') (op_Env o') (op_Started o')"
| "handle o' (EpDevToken v) d p = dev_mint v"
| "handle o' EpEnroll d p = enroll"
| "handle o' EpHeartbeat d p = heartbeat d"
| "handle o' EpPosture d p = submit (op_PostureWeights o') (op_ExpectedAgentVersion o') d"
| "handle o' EpEvents d p = ingest (trustAPI o') d"
| "handle o' EpMe d p = handleMe p"
| "handle o' EpNonce d p = issueNonce p"
| "handle o' EpBegin d p = session_begin p"
| "handle o' EpEnd d p = session_end p"
| "handle o' EpAudit d p = audit_list p"
| "handle o' EpListEvents d p = listEvents"
| "handle o' EpSessionRisk d p = sessionRisk"
| "handle o' EpListPolicies d p = listPolicies"
| "handle o' EpDecisions d p = listDecisions"
| "handle o' EpListIncidents d p = listIncidents"
| "handle o' EpGetIncident d p = getIncident (trustAPI o')"
| "handle o' EpOverview d p = overview (trustAPI o')"
| "handle o' EpGetBaseline d p = getBaseline"
| "handle o' EpSetStatus d p = setIncidentStatus p"
| "handle o' EpAddNote d p = addIncidentNote p"
| "handle o' EpEvaluate d p = evaluate"
| "handle o' EpRebuild d p = rebuildBaseline"
| "handle o' EpCreatePolicy d p = createPolicy p"
| "handle o' EpEvaluatePolicy d p = evaluatePolicy"
| "handle o' EpScenarios d p = listScenarios"
| "handle o' EpRunScenario d p = runScenario p"
| "handle o' EpListSessions d p = listSessions"
| "handle o' EpGetSession d p = getSession"
| "handle o' EpListDevices d p = listDevices (op_Posture o')"
| "handle o' EpGetDevice d p = getDevice (op_Posture o')"
| "handle o' EpPostureLatest d p = posture_latest"
| "handle o' EpPostureHistory d p = posture_history"
| "handle o' EpIssueToken d p = issueEnrollmentToken p"
| "handle o' EpRevoke d p = revokeDevice p"

definition signed_of :: "http_request \<Rightarrow> signed_request" where
  "signed_of r = \<lparr>sr_Method = hr_Method r, sr_Path = hr_Path r, sr_DeviceUID = hr_Device r, sr_Nonce = hr_Nonce r,
     sr_Signature = hr_Signature r, sr_RawTimestamp = hr_Timestamp r, sr_Body = hr_Body r\<rparr>"

definition check_signature :: "call \<Rightarrow> api_state \<Rightarrow> auth_outcome \<times> device_db" where
  "check_signature c s =
     RequireDeviceSignature (lb_sha (cx_Lib c)) (lb_edv (cx_Lib c)) (lb_pgts (cx_Lib c)) (cx_Now c) (cx_Faults c)
       (signed_of (cx_Request c)) (ts_devices (ap_trust s))"

definition signed :: "(Device option \<Rightarrow> handler) \<Rightarrow> handler" where
  "signed next_h c s =
     (case check_signature c s of
        (Reject401, db) \<Rightarrow> fails c 401 ''Unauthorized'' ''The request is not a valid signed device request.'' (set_devices db s)
      | (Fail500, db) \<Rightarrow> fails c 500 ''Internal Server Error'' ''The request could not be processed.'' (set_devices db s)
      | (Accept d b, db) \<Rightarrow> next_h (Some d) c (set_devices db s))"

definition auth_of :: "call \<Rightarrow> auth_request" where
  "auth_of c =
     (let r = cx_Request c
      in \<lparr>aq_Authorization = hr_Authorization r, aq_Method = hr_Method r, aq_Path = hr_Path r, aq_RemoteAddr = hr_RemoteAddr r,
          aq_RequestID = cx_RequestID c\<rparr>)"

definition check_token :: "call \<Rightarrow> api_state \<Rightarrow> auth_result \<times> user_row list \<times> audit_store" where
  "check_token c s =
     RequireAuth (cx_Verify c) (cx_Recorder c) (cx_UserId c) (cx_Now c) (cx_Faults c) (auth_of c) (ap_users s, ap_audit s)"

definition authenticated :: "(Principal option \<Rightarrow> handler) \<Rightarrow> handler" where
  "authenticated next_h c s =
     (case check_token c s of
        (res, users, audit) \<Rightarrow>
          (let s = s\<lparr>ap_users := users, ap_audit := audit\<rparr>
           in case res of
                Unauthorized \<Rightarrow>
                  fails c 401 ''Unauthorized''
                    (if bearerToken (hr_Authorization (cx_Request c)) = None then ''A bearer token is required.''
                     else ''The bearer token is not valid.'') s
              | Forbidden \<Rightarrow> fails c 403 ''Forbidden'' ''This account may not access NETRA.'' s
              | Authenticated p \<Rightarrow> next_h (Some p) c s))"

definition with_role :: "Role list \<Rightarrow> (Principal option \<Rightarrow> handler) \<Rightarrow> Principal option \<Rightarrow> handler" where
  "with_role roles next_h caller c s =
     (case RequireRole (cx_Recorder c) roles (auth_of c) caller (ap_audit s) of
        (res, audit) \<Rightarrow>
          (let s = s\<lparr>ap_audit := audit\<rparr>
           in case res of
                Unauthorized \<Rightarrow> no_token c s
              | Forbidden \<Rightarrow> fails c 403 ''Forbidden'' ''Your role does not permit this operation.'' s
              | Authenticated p \<Rightarrow> next_h caller c s))"

text \<open>The limiter of the ingest route was added to the group of signed routes, so it runs inside the signature check.\<close>

fun on_plane :: "Options \<Rightarrow> plane \<Rightarrow> endpoint \<Rightarrow> handler" where
  "on_plane o' PublicPlane e = handle o' e None None"
| "on_plane o' TokenPlane e = limitTokens (handle o' e None None)"
| "on_plane o' EnrollPlane e = limitEnrollment (handle o' e None None)"
| "on_plane o' AgentPlane e = signed (\<lambda>d. handle o' e d None)"
| "on_plane o' IngestPlane e = signed (\<lambda>d. limitIngest (handle o' e d None))"
| "on_plane o' ClientPlane e = authenticated (\<lambda>p. handle o' e None p)"
| "on_plane o' (RolePlane roles) e = authenticated (with_role roles (\<lambda>p. handle o' e None p))"

definition find_route :: "Options \<Rightarrow> string \<Rightarrow> string \<Rightarrow> (plane \<times> endpoint) option" where
  "find_route o' m pattern =
     map_option (\<lambda>(_, _, p, e). (p, e)) (find (\<lambda>(m', pattern', _, _). m' = m \<and> pattern' = pattern) (routes o'))"

definition dispatch :: "Options \<Rightarrow> handler" where
  "dispatch o' c s =
     (case lb_chi (cx_Lib c) (map (\<lambda>(m, pattern, _, _). (m, pattern)) (routes o')) (hr_Method (cx_Request c)) (hr_Path (cx_Request c)) of
        NoRoute \<Rightarrow> fails c 404 ''Not Found'' ''No such endpoint.'' s
      | WrongMethod \<Rightarrow> fails c 405 ''Method Not Allowed'' ''This method is not supported for this endpoint.'' s
      | Matched m pattern params \<Rightarrow>
          (case find_route o' m pattern of
             None \<Rightarrow> fails c 404 ''Not Found'' ''No such endpoint.'' s
           | Some (p, e) \<Rightarrow> on_plane o' p e (c\<lparr>cx_Param := params\<rparr>) s))"

definition NewRouter :: "Options \<Rightarrow> handler" where
  "NewRouter o' = RequestID (Recoverer (SecurityHeaders (CORS (op_AllowedOrigins o') (dispatch o'))))"

end
