(* ===== verification/Access.thy ===== *)
theory Access
  imports Router
begin

section \<open>Access: what a request may change, and on whose authority\<close>

text \<open>
  Theorems about the assembled router: which state each endpoint writes, which guard stands before
  it, and so what must have happened before a request changes the state of trust.  The locale \<open>unlogged\<close>
  collects what holds of every part of the state outside the users, the audit log and the limiters: the
  middleware passes it on.
\<close>

subsection \<open>Where each endpoint is mounted\<close>

fun plane_of :: "endpoint \<Rightarrow> plane" where
  "plane_of EpHealth = PublicPlane"
| "plane_of EpReady = PublicPlane"
| "plane_of (EpDevToken v) = TokenPlane"
| "plane_of EpEnroll = EnrollPlane"
| "plane_of EpHeartbeat = AgentPlane"
| "plane_of EpPosture = AgentPlane"
| "plane_of EpEvents = IngestPlane"
| "plane_of EpMe = ClientPlane"
| "plane_of EpNonce = ClientPlane"
| "plane_of EpBegin = ClientPlane"
| "plane_of EpEnd = ClientPlane"
| "plane_of EpAudit = RolePlane [RoleAuditor, RoleAdmin, RoleAnalyst]"
| "plane_of EpSetStatus = RolePlane [RoleAnalyst, RoleAdmin]"
| "plane_of EpAddNote = RolePlane [RoleAnalyst, RoleAdmin]"
| "plane_of EpEvaluate = RolePlane [RoleAnalyst, RoleAdmin]"
| "plane_of EpRebuild = RolePlane [RoleAnalyst, RoleAdmin]"
| "plane_of EpScenarios = RolePlane [RoleAdmin, RoleAnalyst]"
| "plane_of EpRunScenario = RolePlane [RoleAdmin, RoleAnalyst]"
| "plane_of EpCreatePolicy = RolePlane [RoleAdmin]"
| "plane_of EpEvaluatePolicy = RolePlane [RoleAdmin]"
| "plane_of EpIssueToken = RolePlane [RoleAdmin]"
| "plane_of EpRevoke = RolePlane [RoleAdmin]"
| "plane_of _ = RolePlane [RoleAnalyst, RoleAdmin, RoleAuditor]"

lemma set_when [simp]: "x \<in> set (when_set b xs) \<longleftrightarrow> b \<and> x \<in> set xs"
  by (simp add: when_set_def)

lemma open_routes_plane: "(m, pattern, p, e) \<in> set (open_routes o') \<Longrightarrow> p = plane_of e"
  by (auto simp: open_routes_def GET_def POST_def split: option.splits)

lemma user_routes_plane: "(m, pattern, p, e) \<in> set (user_routes o') \<Longrightarrow> p = plane_of e"
  by (auto simp: user_routes_def GET_def POST_def roleSet_def soc_def analyst_def admin_def)

lemma find_route_plane:
  assumes "find_route o' m pattern = Some (p, e)" shows "p = plane_of e"
proof -
  obtain r where "find (\<lambda>(m', pattern', _, _). m' = m \<and> pattern' = pattern) (routes o') = Some r"
      "(\<lambda>(_, _, p, e). (p, e)) r = (p, e)"
    using assms unfolding find_route_def by (auto simp: map_option_eq_Some)
  then have "r \<in> set (routes o')" and "r = (fst r, fst (snd r), p, e)"
    by - (erule find_SomeD [THEN conjunct1], cases r, simp)
  then show ?thesis
    using open_routes_plane [of "fst r" "fst (snd r)" p e o'] user_routes_plane [of "fst r" "fst (snd r)" p e o']
    by (auto simp: routes_def)
qed

subsection \<open>What the answers and the middleware leave alone\<close>

lemma snd_answers [simp]:
  "snd (fails c n t x s) = s" "snd (answers n v s) = s" "snd (bad_body c s) = s" "snd (no_token c s) = s"
  by (simp_all add: fails_def answers_def bad_body_def no_token_def)

lemma snd_setting [simp]: "snd (setting hs h c s) = snd (h c s)"
  by (simp add: setting_def split: prod.split)

lemma snd_Recoverer [simp]: "snd (Recoverer h c s) = snd (h c s)"
  by (simp add: Recoverer_def split: prod.split sum.split)

lemma snd_NewRouter:
  "snd (NewRouter o' c s) = (if hr_Method (cx_Request c) = ''OPTIONS'' then s else snd (dispatch o' c s))"
  by (simp add: NewRouter_def RequestID_def SecurityHeaders_def CORS_def Let_def)

locale unlogged =
  fixes view :: "api_state \<Rightarrow> 'v"
  assumes view_users: "view (s\<lparr>ap_users := us\<rparr>) = view s"
    and view_audit: "view (s\<lparr>ap_audit := a\<rparr>) = view s"
    and view_limits: "view (s\<lparr>ap_limitEnrollment := bs\<rparr>) = view s" "view (s\<lparr>ap_limitIngest := bs\<rparr>) = view s"
      "view (s\<lparr>ap_limitTokens := bs\<rparr>) = view s"
begin

lemma audited_view [simp]: "view (audited c e s) = view s"
  by (simp add: audited_def view_audit)

text \<open>A guard that does not let a request through leaves the view alone.\<close>

lemma limiting_passes:
  assumes "\<And>bs s. view (put bs s) = view s" "view (snd (limiting l key get put h c s)) \<noteq> view s"
  obtains s1 where "view s1 = view s" "view (snd (h c s1)) \<noteq> view s"
proof -
  obtain res bs where r: "RateLimited l key (cx_Now c) (cx_Later c) (limited_of (cx_Request c)) (get s) = (res, bs)" by fastforce
  show thesis
  proof (cases res)
    case (Served n)
    then show thesis using assms r that [of "put bs s"] by (simp add: limiting_def)
  next
    case (TooManyRequests n m)
    then show thesis using assms r by (simp add: limiting_def)
  qed
qed

lemma authenticated_passes:
  assumes "view (snd (authenticated h c s)) \<noteq> view s"
  obtains p us where "check_token c s = (Authenticated p, us, ap_audit s)"
    "snd (authenticated h c s) = snd (h (Some p) c (s\<lparr>ap_users := us\<rparr>))"
    "view (snd (h (Some p) c (s\<lparr>ap_users := us\<rparr>))) \<noteq> view (s\<lparr>ap_users := us\<rparr>)"
proof -
  obtain res us a where t: "check_token c s = (res, us, a)" by (metis prod_cases3)
  obtain p where p: "res = Authenticated p"
    using assms t by (cases res) (simp_all add: authenticated_def Let_def view_users view_audit)
  have "a = ap_audit s"
    using t unfolding p check_token_def RequireAuth_def
    by (auto split: option.splits sum.splits prod.splits if_splits)
  then have "authenticated h c s = h (Some p) c (s\<lparr>ap_users := us\<rparr>)"
    using t by (simp add: authenticated_def p Let_def)
  then show thesis using that [of p us] assms t p \<open>a = ap_audit s\<close> by (simp add: view_users)
qed

lemma with_role_passes:
  assumes "view (snd (with_role roles h (Some p) c s)) \<noteq> view s"
  shows "\<exists>r \<in> set roles. r \<in> set (pl_Roles p)" "with_role roles h (Some p) c s = h (Some p) c s"
  using assms
  by (auto simp: with_role_def RequireRole_def HasAnyRole_iff [symmetric] Let_def view_audit split: if_splits)

lemma role_plane_passes:
  assumes "view (snd (on_plane o' (RolePlane roles) e c s)) \<noteq> view s"
  obtains p us where "check_token c s = (Authenticated p, us, ap_audit s)" "\<exists>r \<in> set roles. r \<in> set (pl_Roles p)"
    "snd (on_plane o' (RolePlane roles) e c s) = snd (handle o' e None (Some p) c (s\<lparr>ap_users := us\<rparr>))"
proof -
  have "view (snd (authenticated (with_role roles (\<lambda>p. handle o' e None p)) c s)) \<noteq> view s" using assms by simp
  then show thesis
  proof (rule authenticated_passes)
    fix p us
    assume t: "check_token c s = (Authenticated p, us, ap_audit s)"
      and eq: "snd (authenticated (with_role roles (\<lambda>p. handle o' e None p)) c s) =
        snd (with_role roles (\<lambda>p. handle o' e None p) (Some p) c (s\<lparr>ap_users := us\<rparr>))"
      and ch: "view (snd (with_role roles (\<lambda>p. handle o' e None p) (Some p) c (s\<lparr>ap_users := us\<rparr>))) \<noteq> view (s\<lparr>ap_users := us\<rparr>)"
    show thesis using that [OF t with_role_passes(1) [OF ch]] eq with_role_passes(2) [OF ch] by simp
  qed
qed

lemma signed_passes:
  assumes "view (snd (signed h c s)) \<noteq> view s"
  obtains d b db where "check_signature c s = (Accept d b, db)" "snd (signed h c s) = snd (h (Some d) c (set_devices db s))"
proof -
  obtain out db where t: "check_signature c s = (out, db)" by fastforce
  show thesis
  proof (cases "\<exists>d b. out = Accept d b")
    case True
    then show thesis using that t by (auto simp: signed_def)
  next
    case False
    then have "db = ts_devices (ap_trust s)"
      using RequireDeviceSignature_db t unfolding check_signature_def by blast
    then have "snd (signed h c s) = s"
      using t False by (cases out) (simp_all add: signed_def set_devices_def)
    then show thesis using assms by simp
  qed
qed

text \<open>So a change of the view comes from a registered endpoint behind its plane.\<close>

lemma router_passes:
  assumes "view (snd (NewRouter o' c s)) \<noteq> view s"
  obtains e param where "snd (NewRouter o' c s) = snd (on_plane o' (plane_of e) e (c\<lparr>cx_Param := param\<rparr>) s)"
proof -
  have d: "snd (NewRouter o' c s) = snd (dispatch o' c s)" "view (snd (dispatch o' c s)) \<noteq> view s"
    using assms by (simp_all add: snd_NewRouter split: if_splits)
  let ?chi = "lb_chi (cx_Lib c) (map (\<lambda>(m, pattern, _, _). (m, pattern)) (routes o')) (hr_Method (cx_Request c)) (hr_Path (cx_Request c))"
  obtain m pattern param where "?chi = Matched m pattern param"
    using d(2) by (cases ?chi) (simp_all add: dispatch_def)
  moreover from this obtain p e where "find_route o' m pattern = Some (p, e)"
    using d(2) by (cases "find_route o' m pattern") (auto simp: dispatch_def)
  ultimately show thesis using that [of e param] d(1) find_route_plane by (simp add: dispatch_def)
qed

end

interpretation trust: unlogged ap_trust
  by unfold_locales simp_all

subsection \<open>Endpoints that only read\<close>

fun reads_only :: "endpoint \<Rightarrow> bool" where
  "reads_only e \<longleftrightarrow> e \<notin> {EpEnroll, EpHeartbeat, EpPosture, EpEvents, EpNonce, EpBegin, EpEnd, EpSetStatus, EpAddNote,
     EpEvaluate, EpRebuild, EpCreatePolicy, EpRunScenario, EpIssueToken, EpRevoke}"

lemma reads_only_trust: "reads_only e \<Longrightarrow> ap_trust (snd (handle o' e d p c s)) = ap_trust s"
  by (cases e)
    (simp_all add: Live_def Ready_def dev_mint_def handleMe_def audit_list_def listEvents_def sessionRisk_def listPolicies_def
      listDecisions_def listIncidents_def getIncident_def overview_def getBaseline_def evaluatePolicy_def listScenarios_def
      listSessions_def getSession_def listDevices_def getDevice_def posture_latest_def posture_history_def Let_def
      split: option.split sum.split device_error.split posture_error.split session_error.split incident_error.split)

subsection \<open>Endpoints of the users\<close>

text \<open>What a user may change without a role: the sessions and challenges, and of the sessions only their own.\<close>

definition own_sessions_only :: "uuid \<Rightarrow> trust_state \<Rightarrow> trust_state \<Rightarrow> bool" where
  "own_sessions_only user st st' \<longleftrightarrow>
     st' = st\<lparr>ts_sessions := ts_sessions st'\<rparr> \<and>
     filter (\<lambda>r. s_UserID r \<noteq> user) (sd_sessions (ts_sessions st')) = filter (\<lambda>r. s_UserID r \<noteq> user) (sd_sessions (ts_sessions st))"

lemma own_sessions_same [intro]: "own_sessions_only user st st"
  by (simp add: own_sessions_only_def)

lemma own_sessions_set:
  assumes "filter (\<lambda>r. s_UserID r \<noteq> user) (sd_sessions db) = filter (\<lambda>r. s_UserID r \<noteq> user) (sd_sessions (ts_sessions (ap_trust s)))"
  shows "own_sessions_only user (ap_trust s) (ap_trust (set_sessions db s))"
  using assms by (simp add: own_sessions_only_def set_sessions_def)

lemma IssueNonce_sessions: "IssueNonce raw now fs user db = (res, db') \<Longrightarrow> sd_sessions db' = sd_sessions db"
  by (auto simp: IssueNonce_def Let_def split: option.splits if_splits)

lemma Begin_sessions:
  assumes "Begin edv addr devs ident now fs r db = (res, db')"
  shows "filter (\<lambda>s. s_UserID s \<noteq> br_UserID r) (sd_sessions db') = filter (\<lambda>s. s_UserID s \<noteq> br_UserID r) (sd_sessions db)"
  using Begin_cases [OF assms] by (auto simp: session_row_def)

lemma End_sessions:
  assumes "End now fs sid user db = (res, db')"
  shows "filter (\<lambda>s. s_UserID s \<noteq> user) (sd_sessions db') = filter (\<lambda>s. s_UserID s \<noteq> user) (sd_sessions db)"
proof -
  have "filter (\<lambda>s. s_UserID s \<noteq> user) (map (end_row sid user now) rows) = filter (\<lambda>s. s_UserID s \<noteq> user) rows" for rows
    by (induction rows) (auto simp: end_row_def)
  then show ?thesis using assms by (auto simp: End_def split: if_splits)
qed

lemma issueNonce_own: "own_sessions_only (pl_UserID p) (ap_trust s) (ap_trust (snd (issueNonce (Some p) c s)))"
  by (auto simp: issueNonce_def split: prod.split sum.split dest: IssueNonce_sessions intro!: own_sessions_set)

lemma session_begin_own: "own_sessions_only (pl_UserID p) (ap_trust s) (ap_trust (snd (session_begin (Some p) c s)))"
  by (auto simp: session_begin_def begin_denied_def Let_def split: option.split prod.split sum.split session_error.split
      dest: Begin_sessions intro!: own_sessions_set)

lemma session_end_own: "own_sessions_only (pl_UserID p) (ap_trust s) (ap_trust (snd (session_end (Some p) c s)))"
  by (auto simp: session_end_def Let_def split: option.split prod.split session_error.split
      dest: End_sessions intro!: own_sessions_set)

subsection \<open>Enrollment\<close>

lemma enroll_needs_token:
  assumes "ap_trust (snd (enroll c s)) \<noteq> ap_trust s"
  shows "\<exists>b t. decodeJSON c (lj_enroll (cx_Lib c)) = Some b \<and> t \<in> set (dd_tokens (ts_devices (ap_trust s))) \<and>
    et_TokenHash t = lb_sha (cx_Lib c) (TrimSpace (eb_EnrollmentToken b)) \<and> et_UsedAt t = None \<and> cx_Now c \<le> et_ExpiresAt t"
proof -
  obtain b where b: "decodeJSON c (lj_enroll (cx_Lib c)) = Some b"
    using assms by (cases "decodeJSON c (lj_enroll (cx_Lib c))") (simp_all add: enroll_def)
  obtain k where k: "ParsePublicKey (eb_PublicKey b) = Inr k"
    using assms b by (cases "ParsePublicKey (eb_PublicKey b)") (simp_all add: enroll_def)
  obtain res db where e: "Enroll (lb_sha (cx_Lib c)) (cx_Id c) (cx_Now c) (cx_Faults c) (eb_EnrollmentToken b)
      (enroll_request b k) (ts_devices (ap_trust s)) = (res, db)" by fastforce
  have "ap_trust (snd (enroll c s)) = ap_trust (set_devices db s)"
    by (auto simp: enroll_def b k e split: sum.split device_error.split)
  then have "db \<noteq> ts_devices (ap_trust s)" using assms by (auto simp: set_devices_def)
  then obtain t where "find (\<lambda>t. et_TokenHash t = lb_sha (cx_Lib c) (TrimSpace (eb_EnrollmentToken b)))
      (dd_tokens (ts_devices (ap_trust s))) = Some t" "et_UsedAt t = None" "\<not> time_After (cx_Now c) (et_ExpiresAt t)"
    using Enroll_cases [OF e] by auto
  then show ?thesis using b by (auto dest: find_SomeD simp: time_After_def)
qed

lemma param_irrelevant [simp]:
  "check_signature (c\<lparr>cx_Param := q\<rparr>) s = check_signature c s" "check_token (c\<lparr>cx_Param := q\<rparr>) s = check_token c s"
  "decodeJSON (c\<lparr>cx_Param := q\<rparr>) decode = decodeJSON c decode"
  by (simp_all add: check_signature_def check_token_def auth_of_def decodeJSON_def)

text \<open>A live enrollment token: known by its hash, neither spent nor expired.\<close>

definition live_token :: "call \<Rightarrow> device_db \<Rightarrow> string \<Rightarrow> bool" where
  "live_token c db token \<longleftrightarrow>
     (\<exists>t \<in> set (dd_tokens db). et_TokenHash t = lb_sha (cx_Lib c) (TrimSpace token) \<and> et_UsedAt t = None \<and> cx_Now c \<le> et_ExpiresAt t)"

lemma enroll_plane_trust:
  assumes "ap_trust (snd (on_plane o' EnrollPlane EpEnroll c s)) \<noteq> ap_trust s"
  shows "\<exists>b. decodeJSON c (lj_enroll (cx_Lib c)) = Some b \<and> live_token c (ts_devices (ap_trust s)) (eb_EnrollmentToken b)"
proof -
  obtain s1 where s1: "ap_trust s1 = ap_trust s" "ap_trust (snd (enroll c s1)) \<noteq> ap_trust s"
    using assms unfolding on_plane.simps limitEnrollment_def handle.simps by (rule trust.limiting_passes [rotated]) simp_all
  then have "ap_trust (snd (enroll c s1)) \<noteq> ap_trust s1" by simp
  from enroll_needs_token [OF this] show ?thesis unfolding s1(1) live_token_def by blast
qed

lemma token_plane_trust: "ap_trust (snd (on_plane o' TokenPlane (EpDevToken v) c s)) = ap_trust s"
proof (rule ccontr)
  assume "ap_trust (snd (on_plane o' TokenPlane (EpDevToken v) c s)) \<noteq> ap_trust s"
  then obtain s1 where "ap_trust s1 = ap_trust s" "ap_trust (snd (dev_mint v c s1)) \<noteq> ap_trust s"
    unfolding on_plane.simps limitTokens_def handle.simps by (rule trust.limiting_passes [rotated]) simp_all
  then show False using reads_only_trust [of "EpDevToken v"] by simp
qed

lemma client_plane_trust:
  assumes "plane_of e = ClientPlane" "ap_trust (snd (on_plane o' ClientPlane e c s)) \<noteq> ap_trust s"
  obtains p us where "check_token c s = (Authenticated p, us, ap_audit s)"
    "own_sessions_only (pl_UserID p) (ap_trust s) (ap_trust (snd (on_plane o' ClientPlane e c s)))"
proof -
  have "ap_trust (snd (authenticated (\<lambda>p. handle o' e None p) c s)) \<noteq> ap_trust s" using assms(2) by simp
  then show thesis
  proof (rule trust.authenticated_passes)
    fix p us
    assume t: "check_token c s = (Authenticated p, us, ap_audit s)"
      and eq: "snd (authenticated (\<lambda>p. handle o' e None p) c s) = snd (handle o' e None (Some p) c (s\<lparr>ap_users := us\<rparr>))"
      and ch: "ap_trust (snd (handle o' e None (Some p) c (s\<lparr>ap_users := us\<rparr>))) \<noteq> ap_trust (s\<lparr>ap_users := us\<rparr>)"
    have "own_sessions_only (pl_UserID p) (ap_trust (s\<lparr>ap_users := us\<rparr>)) (ap_trust (snd (handle o' e None (Some p) c (s\<lparr>ap_users := us\<rparr>))))"
    proof (cases "reads_only e")
      case True
      then show ?thesis using ch reads_only_trust by blast
    next
      case False
      then show ?thesis
        using assms(1) issueNonce_own [of p "s\<lparr>ap_users := us\<rparr>" c] session_begin_own [of p "s\<lparr>ap_users := us\<rparr>" c]
          session_end_own [of p "s\<lparr>ap_users := us\<rparr>" c] by (cases e) simp_all
    qed
    then show thesis using that [OF t] eq by simp
  qed
qed

lemma role_plane_trust:
  assumes "plane_of e = RolePlane roles" "ap_trust (snd (on_plane o' (RolePlane roles) e c s)) \<noteq> ap_trust s"
  obtains p us where "check_token c s = (Authenticated p, us, ap_audit s)" "RoleAnalyst \<in> set (pl_Roles p) \<or> RoleAdmin \<in> set (pl_Roles p)"
proof -
  obtain p us where t: "check_token c s = (Authenticated p, us, ap_audit s)" "\<exists>r \<in> set roles. r \<in> set (pl_Roles p)"
    and eq: "snd (on_plane o' (RolePlane roles) e c s) = snd (handle o' e None (Some p) c (s\<lparr>ap_users := us\<rparr>))"
    using assms(2) by (rule trust.role_plane_passes)
  have "\<not> reads_only e" using assms(2) eq reads_only_trust by fastforce
  then have "set roles \<subseteq> {RoleAnalyst, RoleAdmin}" using assms(1) by (cases e) auto
  then show thesis using that t by blast
qed

subsection \<open>What only an administrator decides\<close>

definition administration :: "api_state \<Rightarrow> Policy list \<times> administered" where
  "administration s = (ts_policies (ap_trust s), administered (ts_devices (ap_trust s)))"

interpretation adm: unlogged administration
  by unfold_locales (simp_all add: administration_def)

lemma administration_trust: "ap_trust s' = ap_trust s \<Longrightarrow> administration s' = administration s"
  by (simp add: administration_def)

lemma administration_sets [simp]:
  "administration (set_sessions sdb s) = administration s" "administration (set_postures pdb s) = administration s"
  "administration (set_events edb s) = administration s" "administration (set_incidents idb s) = administration s"
  "administration (set_profiles bdb s) = administration s"
  "administration (set_trust st s) = (ts_policies st, administered (ts_devices st))"
  "administration (set_devices ddb s) = (ts_policies (ap_trust s), administered ddb)"
  by (simp_all add: administration_def set_sessions_def set_postures_def set_events_def set_incidents_def set_profiles_def
      set_trust_def set_devices_def)

lemma enforce_administers:
  "ts_policies (snd (enforce_decision env session a rid decision st)) = ts_policies st"
  "ts_devices (snd (enforce_decision env session a rid decision st)) = ts_devices st"
  by (simp_all add: enforce_decision_def Let_def split: prod.split option.split sum.split)

lemma evaluation_administers:
  assumes "trust_Evaluate env sid trigger st = (res, st')"
  shows "ts_policies st' = ts_policies st \<and> ts_devices st' = ts_devices st"
proof -
  have "ts_policies (snd (trust_Evaluate env sid trigger st)) = ts_policies st \<and>
      ts_devices (snd (trust_Evaluate env sid trigger st)) = ts_devices st"
    unfolding trust_Evaluate_def Let_def by (auto split: sum.split option.split prod.split simp: enforce_administers)
  then show ?thesis by (simp add: assms)
qed

lemma device_evaluation_administers:
  assumes "EvaluateDevice env device trigger st = (res, st')"
  shows "ts_policies st' = ts_policies st \<and> ts_devices st' = ts_devices st"
  using assms evaluation_administers
  by (auto simp: EvaluateDevice_def split: if_splits list.splits prod.splits sum.splits)

lemma sim_adds_administers:
  "sim_adds r r' \<Longrightarrow> ts_policies (rn_trust r') = ts_policies (rn_trust r) \<and>
     administered (ts_devices (rn_trust r')) = administered (ts_devices (rn_trust r))"
  by (simp add: sim_adds_def judged_def)

lemma run_steps_administers:
  "run_steps env name steps res r = (out, r') \<Longrightarrow> ts_policies (rn_trust r') = ts_policies (rn_trust r) \<and>
     administered (ts_devices (rn_trust r')) = administered (ts_devices (rn_trust r))"
  by (induction env name steps res r arbitrary: out r' rule: run_steps.induct)
    (auto simp: Let_def split: prod.splits option.splits sum.splits if_splits
      dest!: run_primitives_adds sim_adds_administers evaluation_administers)

lemma Run_administers:
  assumes "Run env scenario st users = (out, st', users')"
  shows "ts_policies st' = ts_policies st \<and> administered (ts_devices st') = administered (ts_devices st)"
proof -
  obtain x r where p: "prepare env st users = (x, r)" by fastforce
  obtain y r1 where q: "run_steps env (scn_Name scenario) (scn_steps scenario) (blank_result (scn_Name scenario) (rn_now r)) r = (y, r1)"
    by fastforce
  show ?thesis
    using assms run_steps_administers [OF q] sim_adds_administers [OF prepare_adds [OF p]]
    by (cases x; cases y) (auto simp: Run_def p q)
qed

lemma Heartbeat_administers: "Heartbeat now fs ident v db = (res, db') \<Longrightarrow> administered db' = administered db"
  by (auto simp: Heartbeat_def beat_def revocation_def split: if_splits)

lemma Enroll_administers:
  assumes "Enroll sha ident now fs token r db = (res, db')" shows "administered db' = administered db"
  using Enroll_cases [OF assms] by (auto simp: administered_def enrolled_row_def issued_token_def spend_def comp_def)

lemma signature_administers:
  "check_signature c s = (out, db) \<Longrightarrow> administered db = administered (ts_devices (ap_trust s))"
  unfolding check_signature_def by (drule RequireDeviceSignature_db) (simp add: administered_def)

lemma own_sessions_administer:
  assumes "own_sessions_only user (ap_trust s) (ap_trust s')" shows "administration s' = administration s"
proof -
  have eq: "ap_trust s' = (ap_trust s)\<lparr>ts_sessions := ts_sessions (ap_trust s')\<rparr>"
    using assms unfolding own_sessions_only_def by blast
  show ?thesis using arg_cong [OF eq, of ts_policies] arg_cong [OF eq, of ts_devices] by (simp add: administration_def)
qed

lemma user_endpoints_administer:
  "plane_of e = ClientPlane \<Longrightarrow> administration (snd (handle o' e d (Some p) c s)) = administration s"
  using own_sessions_administer [OF issueNonce_own] own_sessions_administer [OF session_begin_own]
    own_sessions_administer [OF session_end_own] administration_trust [OF reads_only_trust [of e o' d "Some p" c s]]
  by (cases e) simp_all

lemma submit_administers: "administration (snd (submit w v d c s)) = administration s"
  by (simp add: submit_def auditRejection_def Let_def split: option.split prod.split sum.split)

lemma heartbeat_administers: "administration (snd (heartbeat d c s)) = administration s"
  by (auto simp: heartbeat_def administration_def [of s] split: option.split prod.split device_error.split dest: Heartbeat_administers)

lemma enroll_administers: "administration (snd (enroll c s)) = administration s"
  by (auto simp: enroll_def administration_def [of s] split: option.split prod.split sum.split device_error.split
      dest: Enroll_administers)

lemma ingest_administers: "administration (snd (ingest h d c s)) = administration s"
  by (auto simp: ingest_def administration_def set_events_def set_trust_def Let_def
      split: option.split prod.split sum.split trust_error.split dest: device_evaluation_administers)

lemma evaluate_administers: "administration (snd (evaluate c s)) = administration s"
  by (auto simp: evaluate_def administration_def [of s]
      split: option.split prod.split sum.split trust_error.split dest: evaluation_administers)

lemma runScenario_administers: "administration (snd (runScenario p c s)) = administration s"
  by (auto simp: runScenario_def administration_def Let_def audited_def split: option.split prod.split sum.split dest: Run_administers)

lemma analyst_endpoints_administer:
  "administration (snd (setIncidentStatus p c s)) = administration s"
  "administration (snd (addIncidentNote p c s)) = administration s"
  "administration (snd (rebuildBaseline c s)) = administration s"
  by (simp_all add: setIncidentStatus_def addIncidentNote_def rebuildBaseline_def Let_def
      split: option.split prod.split sum.split incident_error.split)

lemmas endpoints_administer = submit_administers heartbeat_administers enroll_administers ingest_administers evaluate_administers
  runScenario_administers analyst_endpoints_administer

text \<open>Of all the endpoints, three change what only an administrator decides.\<close>

lemma role_endpoints_administer:
  assumes "plane_of e = RolePlane roles" "administration (snd (handle o' e None p c s)) \<noteq> administration s"
  shows "e \<in> {EpCreatePolicy, EpIssueToken, EpRevoke}"
proof (cases "reads_only e")
  case True
  then show ?thesis using assms(2) administration_trust [OF reads_only_trust] by blast
next
  case False
  then show ?thesis using assms by (cases e) (simp_all add: endpoints_administer)
qed

lemma administers_role:
  assumes "administration (snd (on_plane o' (plane_of e) e c s)) \<noteq> administration s" shows "\<exists>roles. plane_of e = RolePlane roles"
proof (cases "plane_of e")
  case PublicPlane
  then show ?thesis using assms administration_trust [OF reads_only_trust [of e o' None None c s]] by (cases e) auto
next
  case TokenPlane
  then show ?thesis using assms administration_trust [OF token_plane_trust] by (cases e) auto
next
  case EnrollPlane
  then have "e = EpEnroll" by (cases e) simp_all
  moreover obtain s1 where "administration s1 = administration s" "administration (snd (handle o' e None None c s1)) \<noteq> administration s"
    using assms unfolding EnrollPlane on_plane.simps limitEnrollment_def
    by (rule adm.limiting_passes [rotated]) (simp_all add: adm.view_limits)
  ultimately show ?thesis by (simp add: enroll_administers)
next
  case AgentPlane
  then have "administration (snd (signed (\<lambda>d. handle o' e d None) c s)) \<noteq> administration s" using assms by simp
  then show ?thesis
    by (rule adm.signed_passes)
      (use AgentPlane assms in \<open>cases e; simp add: endpoints_administer signature_administers administration_def [of s]\<close>)
next
  case IngestPlane
  then have "e = EpEvents" "administration (snd (signed (\<lambda>d. limitIngest (handle o' e d None)) c s)) \<noteq> administration s"
    using assms by (cases e, simp_all)
  from this(2) show ?thesis
  proof (rule adm.signed_passes)
    fix d b db
    assume t: "check_signature c s = (Accept d b, db)"
      and eq: "snd (signed (\<lambda>d. limitIngest (handle o' e d None)) c s) = snd (limitIngest (handle o' e (Some d) None) c (set_devices db s))"
    have same: "administration (set_devices db s) = administration s"
      using signature_administers [OF t] by (simp add: administration_def [of s])
    have "administration (snd (limitIngest (handle o' e (Some d) None) c (set_devices db s))) \<noteq> administration (set_devices db s)"
      using assms eq same IngestPlane by simp
    then obtain s1 where "administration s1 = administration (set_devices db s)"
        "administration (snd (handle o' e (Some d) None c s1)) \<noteq> administration (set_devices db s)"
      unfolding limitIngest_def by (rule adm.limiting_passes [rotated]) (simp_all add: adm.view_limits)
    then show ?thesis using \<open>e = EpEvents\<close> by (simp add: ingest_administers)
  qed
next
  case ClientPlane
  then have "administration (snd (authenticated (\<lambda>p. handle o' e None p) c s)) \<noteq> administration s" using assms by simp
  then show ?thesis by (rule adm.authenticated_passes) (simp add: user_endpoints_administer ClientPlane)
qed simp

text \<open>
  What the three give to the audit log: who did what to which target.  \<open>names_change p e s s'\<close>: the entry names the
  principal, and names as action and target the one thing that changed from \<open>s\<close> to \<open>s'\<close>: a policy, a token or a
  device.
\<close>

definition names_change :: "Principal \<Rightarrow> dvalue audit_Entry \<Rightarrow> api_state \<Rightarrow> api_state \<Rightarrow> bool" where
  "names_change p e s s' \<longleftrightarrow>
     ae_ActorType e = ActorUser \<and> ae_ActorID e = uuid_String (pl_UserID p) \<and> ae_Result e = ResultSuccess \<and>
     (let st = ap_trust s; st' = ap_trust s'
      in (\<exists>row. st' = st\<lparr>ts_policies := ts_policies st @ [row]\<rparr> \<and>
            ae_Action e = ActionPolicyCreated \<and> ae_TargetType e = ''policy'' \<and> ae_TargetID e = p_PolicyID row) \<or>
         (\<exists>token. st' = st\<lparr>ts_devices := (ts_devices st)\<lparr>dd_tokens := dd_tokens (ts_devices st) @ [token]\<rparr>\<rparr> \<and>
            ae_Action e = ActionEnrollTokenIssue \<and> ae_TargetType e = ''enrollment_token'' \<and> ae_TargetID e = uuid_String (et_ID token)) \<or>
         (\<exists>now ident reason. st' = st\<lparr>ts_devices := (ts_devices st)\<lparr>dd_devices := map (mark_revoked now ident reason) (dd_devices (ts_devices st))\<rparr>\<rparr> \<and>
            ae_Action e = ActionDeviceRevoke \<and> ae_TargetType e = ''device'' \<and> ae_TargetID e = uuid_String ident))"

definition administers :: "call \<Rightarrow> Principal \<Rightarrow> api_state \<Rightarrow> api_state \<Rightarrow> bool" where
  "administers c p s s' \<longleftrightarrow> (\<exists>e. names_change p e s s' \<and> given_to_log (cx_Recorder c) e (ap_audit s) (ap_audit s'))"

lemma given_recorded:
  assumes "given_to_log (Some (audit_Record_op sha enc inet jsonb now [])) e audit audit'" "\<forall>x. enc x \<noteq> None"
    "ae_SourceIP e = [] \<or> inet (ae_SourceIP e) \<noteq> None"
  shows "\<exists>rec. au_rows audit' = au_rows audit @ [rec] \<and> entry_fact (ar_Entry rec) = entry_fact e"
  using assms(1) [unfolded given_to_log_def, THEN conjunct2, rule_format, OF refl] assms(2,3) by blast

lemmas admin_actions = ActionPolicyCreated_def ActionEnrollTokenIssue_def ActionDeviceRevoke_def

lemma audited_administers:
  assumes "ap_audit s1 = ap_audit s" "action \<noteq> []"
    "names_change p (entry c ActorUser (actorID (Some p)) action kind target ResultSuccess detail) s s1"
  shows "administers c p s (audited c (entry c ActorUser (actorID (Some p)) action kind target ResultSuccess detail) s1)"
proof -
  let ?e = "entry c ActorUser (actorID (Some p)) action kind target ResultSuccess detail"
  have "given_to_log (cx_Recorder c) ?e (ap_audit s) (Log (cx_Recorder c) ?e (ap_audit s))"
    using assms(2) by (intro Log_given) (simp_all add: entry_def blank_entry_def actor_known_def)
  then show ?thesis using assms(1,3) by (auto simp: administers_def audited_def names_change_def)
qed

lemma set_audit [simp]: "ap_audit (set_devices ddb s) = ap_audit s" "ap_audit (set_policies ps s) = ap_audit s"
  by (simp_all add: set_devices_def set_policies_def)

lemmas entry_sel = entry_def blank_entry_def actorID_def

lemma createPolicy_administers:
  assumes "administration (snd (createPolicy (Some p) c s)) \<noteq> administration s"
  shows "administers c p s (snd (createPolicy (Some p) c s))"
proof -
  obtain q where q: "decodeJSON c (lj_policy (cx_Lib c)) = Some q"
    using assms by (cases "decodeJSON c (lj_policy (cx_Lib c))") (simp_all add: createPolicy_def)
  obtain res db where r: "Create_policy (cx_Id c) (cx_Now c) (cx_Faults c) (q\<lparr>p_Enabled := True\<rparr>) (Some (pl_UserID p))
      (ts_policies (ap_trust s)) = (res, db)" by fastforce
  from Create_policy_cases [OF r] show ?thesis
  proof (elim disjE exE conjE)
    fix row assume "res = Inr row" "db = ts_policies (ap_trust s) @ [row]"
    then show ?thesis
      using q r by (simp add: createPolicy_def) (rule audited_administers; auto simp: names_change_def entry_sel set_policies_def admin_actions Let_def)
  qed (use assms q r in \<open>auto simp: createPolicy_def administration_def set_policies_def split: if_splits\<close>)
qed

lemma revokeDevice_administers:
  assumes "administration (snd (revokeDevice (Some p) c s)) \<noteq> administration s"
  shows "administers c p s (snd (revokeDevice (Some p) c s))"
proof -
  obtain i reason where i: "uuid_param c ''id'' = Some i" "decodeJSON c (lj_revoke (cx_Lib c)) = Some reason"
    using assms by (auto simp: revokeDevice_def split: option.splits)
  let ?db = "ts_devices (ap_trust s)"
  have "Revoke (cx_Now c) (cx_Faults c) i reason ?db = (None, ?db\<lparr>dd_devices := map (mark_revoked (cx_Now c) i reason) (dd_devices ?db)\<rparr>)"
    using assms i by (auto simp: revokeDevice_def Revoke_def administration_def set_devices_def split: if_splits)
  then show ?thesis
    using i by (simp add: revokeDevice_def) (rule audited_administers; auto simp: names_change_def entry_sel set_devices_def admin_actions Let_def)
qed

lemma issueEnrollmentToken_administers:
  assumes "administration (snd (issueEnrollmentToken (Some p) c s)) \<noteq> administration s"
  shows "administers c p s (snd (issueEnrollmentToken (Some p) c s))"
proof -
  obtain req where r: "decodeJSON c (lj_token (cx_Lib c)) = Some req"
    using assms by (cases "decodeJSON c (lj_token (cx_Lib c))") (simp_all add: issueEnrollmentToken_def)
  define mins where "mins = (if tq_TTLMinutes req \<le> 0 then 60 else tq_TTLMinutes req)"
  obtain res db where i: "IssueEnrollmentToken (lb_sha (cx_Lib c)) (case_option [] (\<lambda>raw. raw) (cx_Random c)) (cx_Id c) (cx_Now c)
      ((if cx_Random c = None then [''generate enrollment token''] else []) @ cx_Faults c) (Some (pl_UserID p)) (tq_Label req)
      (mins * minute) (ts_devices (ap_trust s)) = (res, db)" by fastforce
  have short: "\<not> mins > 60 * 24 * 7"
    using assms r mins_def by (auto simp: issueEnrollmentToken_def Let_def)
  then obtain plain ident where "res = Inr (plain, ident)"
    using assms r i
    by (cases res)
      (auto simp: issueEnrollmentToken_def mins_def [symmetric] Let_def administration_def set_devices_def IssueEnrollmentToken_def
        split: if_splits)
  moreover from this obtain token where "db = (ts_devices (ap_trust s))\<lparr>dd_tokens := dd_tokens (ts_devices (ap_trust s)) @ [token]\<rparr>"
      "et_ID token = ident"
    using i by (auto simp: IssueEnrollmentToken_def Let_def split: if_splits)
  ultimately show ?thesis
    using r i short
    by (simp add: issueEnrollmentToken_def mins_def [symmetric] Let_def)
      (rule audited_administers; auto simp: names_change_def entry_sel set_devices_def admin_actions Let_def)
qed

subsection \<open>Headers\<close>

fun headers_of :: "outcome \<Rightarrow> headers" where
  "headers_of (Inl hs) = hs"
| "headers_of (Inr r) = rp_Headers r"

definition reply_keys :: "string set" where
  "reply_keys = {''Content-Type'', ''X-RateLimit-Limit'', ''Retry-After''}"

text \<open>Handlers and guards set headers of their own only under these names, each once.\<close>

definition plain :: "outcome \<times> api_state \<Rightarrow> bool" where
  "plain x \<longleftrightarrow> distinct (map fst (headers_of (fst x))) \<and> fst ` set (headers_of (fst x)) \<subseteq> reply_keys"

lemma plain_answers [simp]:
  "plain (fails c n t x s)" "plain (answers n v s)" "plain (bad_body c s)" "plain (no_token c s)" "plain (Inl [], s)"
  "plain (Inr (WriteProblem c n t x'), s)"
  by (simp_all add: plain_def reply_keys_def fails_def answers_def bad_body_def no_token_def WriteProblem_def WriteJSON_def)

lemma handle_plain: "plain (handle o' e d p c s)"
  by (cases e)
    (simp_all add: Live_def Ready_def dev_mint_def handleMe_def audit_list_def listEvents_def sessionRisk_def listPolicies_def
      listDecisions_def listIncidents_def getIncident_def overview_def getBaseline_def evaluatePolicy_def listScenarios_def
      listSessions_def getSession_def listDevices_def getDevice_def posture_latest_def posture_history_def enroll_def heartbeat_def
      submit_def ingest_def issueNonce_def session_begin_def session_end_def setIncidentStatus_def addIncidentNote_def evaluate_def
      rebuildBaseline_def createPolicy_def runScenario_def issueEnrollmentToken_def revokeDevice_def Let_def
      split: option.split sum.split prod.split device_error.split posture_error.split session_error.split incident_error.split
        trust_error.split)

lemma header_Set_set: "set (header_Set k v hs) = {x \<in> set hs. fst x \<noteq> k} \<union> {(k, v)}"
  by (auto simp: header_Set_def)

lemma merge_headers_Cons [simp]: "merge_headers hs ((k, v) # own) = merge_headers (header_Set k v hs) own"
  by (simp add: merge_headers_def)

lemma merge_headers_Nil [simp]: "merge_headers hs [] = hs"
  by (simp add: merge_headers_def)

lemma merge_headers_set:
  "distinct (map fst own) \<Longrightarrow> set (merge_headers hs own) = {x \<in> set hs. fst x \<notin> fst ` set own} \<union> set own"
proof (induction own arbitrary: hs)
  case (Cons x own)
  obtain k v where "x = (k, v)" by fastforce
  moreover have "(k, b) \<notin> set own" for b using Cons.prems by (force simp: \<open>x = (k, v)\<close>)
  ultimately show ?case using Cons by (auto simp: header_Set_set)
qed simp

lemma not_key: "k \<notin> fst ` set hs \<Longrightarrow> (k, v) \<notin> set hs"
  by force

lemma merge_headers_keys: "distinct (map fst own) \<Longrightarrow> fst ` set (merge_headers hs own) = fst ` set hs \<union> fst ` set own"
  unfolding merge_headers_set by blast

lemma merge_headers_distinct: "distinct (map fst hs) \<Longrightarrow> distinct (map fst (merge_headers hs own))"
proof (induction own arbitrary: hs)
  case (Cons x own)
  obtain k v where "x = (k, v)" by fastforce
  moreover have "distinct (map fst (header_Set k v hs))"
    using Cons.prems distinct_map_filter [of fst hs] by (force simp: header_Set_def case_prod_beta)
  ultimately show ?case using Cons.IH by simp
qed simp

lemma headers_of_with [simp]: "headers_of (with_headers hs x) = merge_headers hs (headers_of x)"
  by (cases x) simp_all

lemma plain_with:
  assumes "plain (x, s)" "distinct (map fst hs)" "fst ` set hs \<subseteq> reply_keys" shows "plain (with_headers hs x, s)"
  using assms by (simp add: plain_def merge_headers_keys merge_headers_distinct)

lemma setting_plain:
  assumes "plain (h c s)" "distinct (map fst hs)" "fst ` set hs \<subseteq> reply_keys" shows "plain (setting hs h c s)"
  using assms by (auto simp: setting_def intro!: plain_with split: prod.splits)

lemma limiting_plain:
  assumes "\<And>s. plain (h c s)" shows "plain (limiting l key get put h c s)"
  using assms unfolding limiting_def
  by (auto split: prod.split limited_response.split intro!: setting_plain plain_with simp del: with_headers.simps simp: reply_keys_def)

lemma on_plane_plain: "plain (on_plane o' p e c s)"
  by (cases p)
    (auto simp: handle_plain limitTokens_def limitEnrollment_def limitIngest_def signed_def authenticated_def with_role_def Let_def
      intro!: limiting_plain split: prod.split auth_outcome.split auth_result.split)

lemma dispatch_plain: "plain (dispatch o' c s)"
  by (auto simp: dispatch_def on_plane_plain split: chi_match.split option.split)

text \<open>Inside the recovery, an answer carries the security headers; the recovery may add a content type.\<close>

definition cors_keys :: "string set" where
  "cors_keys = {''Access-Control-Allow-Origin'', ''Access-Control-Allow-Credentials'', ''Access-Control-Allow-Headers'',
     ''Access-Control-Allow-Methods'', ''Access-Control-Max-Age'', ''Vary''}"

lemma cors_headers_keys: "distinct (map fst (cors_headers allowed origin))" "fst ` set (cors_headers allowed origin) \<subseteq> cors_keys"
proof -
  have "map fst (cors_headers allowed origin) \<in> {[], [''Access-Control-Allow-Origin'', ''Access-Control-Allow-Credentials'',
      ''Access-Control-Allow-Headers'', ''Access-Control-Allow-Methods'', ''Access-Control-Max-Age'', ''Vary'']}"
    by (simp add: cors_headers_def)
  then show "distinct (map fst (cors_headers allowed origin))" "fst ` set (cors_headers allowed origin) \<subseteq> cors_keys"
    unfolding set_map [symmetric] cors_keys_def by auto
qed

lemma cors_headers_origin:
  "{v. (''Access-Control-Allow-Origin'', v) \<in> set (cors_headers allowed origin)} \<subseteq> {origin} \<inter> set allowed"
  by (auto simp: cors_headers_def)

lemma keys_apart:
  "reply_keys \<inter> cors_keys = {}" "fst ` set security_headers \<inter> (reply_keys \<union> cors_keys) = {}"
  "RequestIDHeader \<notin> fst ` set security_headers \<union> reply_keys \<union> cors_keys" "distinct (map fst security_headers)"
  by code_simp+

lemma cors_outcome:
  "\<exists>own. headers_of (fst (CORS allowed (dispatch o') c s)) = merge_headers (cors_headers allowed (hr_Origin (cx_Request c))) own \<and>
     distinct (map fst own) \<and> fst ` set own \<subseteq> reply_keys"
proof (cases "hr_Method (cx_Request c) = ''OPTIONS''")
  case True
  then show ?thesis by (intro exI [of _ "[]"]) (simp add: CORS_def Let_def)
next
  case False
  then show ?thesis
    using dispatch_plain [of o' c s]
    by (intro exI [of _ "headers_of (fst (dispatch o' c s))"])
      (simp add: CORS_def setting_def plain_def Let_def split: prod.split)
qed

lemma secured:
  fixes allowed o' c s
  defines "hs \<equiv> headers_of (fst (SecurityHeaders (CORS allowed (dispatch o')) c s))"
  shows "distinct (map fst hs)" "set security_headers \<subseteq> set hs" "fst ` set hs \<subseteq> fst ` set security_headers \<union> reply_keys \<union> cors_keys"
    "{v. (''Access-Control-Allow-Origin'', v) \<in> set hs} \<subseteq> {hr_Origin (cx_Request c)} \<inter> set allowed"
proof -
  let ?cors = "cors_headers allowed (hr_Origin (cx_Request c))" and ?inner = "headers_of (fst (CORS allowed (dispatch o') c s))"
  obtain own where own: "?inner = merge_headers ?cors own" "distinct (map fst own)" "fst ` set own \<subseteq> reply_keys"
    using cors_outcome by blast
  have inner: "distinct (map fst ?inner)" "fst ` set ?inner \<subseteq> reply_keys \<union> cors_keys"
    using own cors_headers_keys [of allowed "hr_Origin (cx_Request c)"] by (auto simp: merge_headers_distinct merge_headers_keys)
  have hs: "hs = merge_headers security_headers ?inner"
    by (simp add: hs_def SecurityHeaders_def setting_def split: prod.split)
  show "distinct (map fst hs)" unfolding hs by (rule merge_headers_distinct [OF keys_apart(4)])
  have set_hs: "set hs = set security_headers \<union> set ?inner"
    using inner keys_apart(2) unfolding hs merge_headers_set [OF inner(1)] by blast
  show "set security_headers \<subseteq> set hs" "fst ` set hs \<subseteq> fst ` set security_headers \<union> reply_keys \<union> cors_keys"
    using inner(2) unfolding set_hs by blast+
  have "''Access-Control-Allow-Origin'' \<in> cors_keys" by (simp add: cors_keys_def)
  then have "''Access-Control-Allow-Origin'' \<notin> fst ` set security_headers" "''Access-Control-Allow-Origin'' \<notin> fst ` set own"
    using own(3) keys_apart(1,2) by blast+
  then have "{v. (''Access-Control-Allow-Origin'', v) \<in> set hs} = {v. (''Access-Control-Allow-Origin'', v) \<in> set ?cors}"
    unfolding set_hs own(1) merge_headers_set [OF own(2)] by (auto simp: not_key)
  then show "{v. (''Access-Control-Allow-Origin'', v) \<in> set hs} \<subseteq> {hr_Origin (cx_Request c)} \<inter> set allowed"
    using cors_headers_origin by blast
qed

lemma recovered:
  obtains r own where "fst (Recoverer h c s) = Inr r" "distinct (map fst own)" "fst ` set own \<subseteq> reply_keys"
    "rp_Headers r = merge_headers (headers_of (fst (h c s))) own"
proof (cases "fst (h c s)")
  case (Inl hs)
  then show thesis
    by (intro that [of _ "[(''Content-Type'', ''application/problem+json'')]"])
      (auto simp: Recoverer_def WriteProblem_def reply_keys_def split: prod.splits)
next
  case (Inr r)
  then show thesis by (intro that [of r "[]"]) (auto simp: Recoverer_def split: prod.splits)
qed

lemma ingest_route:
  assumes "op_Devices o'" "op_Telemetry o'"
  shows "find_route o' ''POST'' ''/api/v1/agent/events'' = Some (IngestPlane, EpEvents)"
  using assms
  by (cases "op_DevVerifier o'"; cases "op_Posture o'")
    (simp_all add: find_route_def routes_def open_routes_def when_set_def GET_def POST_def)

subsection \<open>Properties\<close>

text \<open>
  C2: whatever a request does to the state of trust (devices, sessions, events, scores, decisions,
  incidents, policies), it does on the authority of a device signature that was accepted, of a live
  enrollment token, or of an authenticated principal; a principal who is neither an analyst nor an
  administrator changes sessions only, and of these only their own.
\<close>

theorem trust_change_authorised:
  assumes "NewRouter o' c s = (out, s')" "ap_trust s' \<noteq> ap_trust s"
  shows "(\<exists>d b db. check_signature c s = (Accept d b, db)) \<or>
    (\<exists>b. decodeJSON c (lj_enroll (cx_Lib c)) = Some b \<and> live_token c (ts_devices (ap_trust s)) (eb_EnrollmentToken b)) \<or>
    (\<exists>p us audit. check_token c s = (Authenticated p, us, audit) \<and>
       (RoleAnalyst \<in> set (pl_Roles p) \<or> RoleAdmin \<in> set (pl_Roles p) \<or>
        own_sessions_only (pl_UserID p) (ap_trust s) (ap_trust s')))"
proof -
  have "ap_trust (snd (NewRouter o' c s)) \<noteq> ap_trust s" using assms by simp
  then obtain e q where eq: "snd (NewRouter o' c s) = snd (on_plane o' (plane_of e) e (c\<lparr>cx_Param := q\<rparr>) s)"
    by (rule trust.router_passes)
  let ?c = "c\<lparr>cx_Param := q\<rparr>"
  have ch: "ap_trust (snd (on_plane o' (plane_of e) e ?c s)) \<noteq> ap_trust s" using eq assms by simp
  have s': "s' = snd (on_plane o' (plane_of e) e ?c s)" using eq assms(1) by simp
  show ?thesis
  proof (cases "plane_of e")
    case PublicPlane
    then show ?thesis using ch reads_only_trust [of e o' None None] by (cases e) auto
  next
    case TokenPlane
    then show ?thesis using ch token_plane_trust by (cases e) auto
  next
    case EnrollPlane
    then have "e = EpEnroll" by (cases e) simp_all
    then show ?thesis using enroll_plane_trust [of o' ?c s] ch by (auto simp: live_token_def)
  next
    case AgentPlane
    then show ?thesis using ch trust.signed_passes [of _ ?c s] by (metis on_plane.simps(4) param_irrelevant(1))
  next
    case IngestPlane
    then show ?thesis using ch trust.signed_passes [of _ ?c s] by (metis on_plane.simps(5) param_irrelevant(1))
  next
    case ClientPlane
    then show ?thesis using ch s' client_plane_trust [of e o' ?c s] by (metis param_irrelevant(2))
  next
    case (RolePlane roles)
    then show ?thesis using ch role_plane_trust [of e roles o' ?c s] by (metis param_irrelevant(2))
  qed
qed

definition sample_options :: Options where
  "sample_options = \<lparr>op_Env = ''production'', op_AllowedOrigins = [], op_Started = 0, op_DB = True, op_Verifier = True, op_Users = True,
     op_AuditReader = False, op_DevVerifier = None, op_Devices = True, op_Sessions = True, op_Posture = False,
     op_PostureWeights = posture_DefaultWeights, op_ExpectedAgentVersion = [], op_Telemetry = True, op_Risk = False, op_Policy = False,
     op_Incidents = False, op_Baselines = False, op_Trust = False, op_Stats = False, op_Simulator = False\<rparr>"

definition sample_lib :: lib where
  "sample_lib = \<lparr>lb_sha = (\<lambda>s. s), lb_edv = (\<lambda>_ _ _. False), lb_pgts = Some, lb_addr = Some, lb_enc = (\<lambda>_. Some []),
     lb_collate = (\<lambda>_ _. True), lb_encodes = (\<lambda>_. True), lb_uuid = (\<lambda>_. Some 3),
     lb_chi = (\<lambda>rs m path. if (m, path) \<in> set rs then Matched m path (\<lambda>_. []) else NoRoute), lb_sign = (\<lambda>_ _. None),
     lj_token = (\<lambda>_ _. None), lj_revoke = (\<lambda>_ _. Some ''lost''), lj_enroll = (\<lambda>_ _. None), lj_heartbeat = (\<lambda>_ _. None),
     lj_posture = (\<lambda>_ _. None), lj_begin = (\<lambda>_ _. None), lj_end = (\<lambda>_ _. None), lj_events = (\<lambda>_ _. None), lj_policy = (\<lambda>_ _. None),
     lj_question = (\<lambda>_ _. None), lj_status = (\<lambda>_ _. None), lj_note = (\<lambda>_ _. None), lj_dev = (\<lambda>_ _. None)\<rparr>"

definition sample_call :: "Role \<Rightarrow> string \<Rightarrow> string \<Rightarrow> call" where
  "sample_call role m path = \<lparr>cx_Request = \<lparr>hr_Method = m, hr_Path = path, hr_RemoteAddr = ''10.0.0.1:5000'', hr_Origin = [],
       hr_Authorization = ''Bearer eve'', hr_Device = [], hr_Nonce = [], hr_Signature = [], hr_Timestamp = [], hr_Query = (\<lambda>_. []), hr_Body = []\<rparr>,
     cx_Param = (\<lambda>_. []), cx_RequestID = ''r1'', cx_Now = 5, cx_Later = 6, cx_Id = 20, cx_Ids = [], cx_Batch = 21,
     cx_Random = Some (replicate 32 (CHR ''k'')), cx_Faults = [], cx_VerifyFaults = (\<lambda>_. []), cx_Eval = sample_env [], cx_Sim = sample_sim,
     cx_Recorder = Some (audit_Record_op (\<lambda>_. ''h'') (\<lambda>_. Some []) Some id 5 []),
     cx_Verify = (\<lambda>raw. Inr ((sample_claims raw)\<lparr>cl_Roles := [role]\<rparr>)), cx_UserId = 9, cx_Lib = sample_lib\<rparr>"

definition sample_api :: api_state where
  "sample_api = \<lparr>ap_trust = sample_trust AttestationNone, ap_users = [], ap_audit = \<lparr>au_rows = [], au_next = 1\<rparr>,
     ap_limitEnrollment = Map.empty, ap_limitIngest = Map.empty, ap_limitTokens = Map.empty\<rparr>"

lemma sample_call_sel [simp]:
  "cx_Lib (sample_call role m path) = sample_lib" "cx_Random (sample_call role m path) = Some (replicate 32 (CHR ''k''))"
  "cx_Faults (sample_call role m path) = []" "cx_Now (sample_call role m path) = 5"
  "cx_Recorder (sample_call role m path) = Some (audit_Record_op (\<lambda>_. ''h'') (\<lambda>_. Some []) Some id 5 [])"
  by (simp_all add: sample_call_def)

lemma sample_routes:
  "find_route sample_options ''POST'' ''/api/v1/client/session/nonce'' = Some (ClientPlane, EpNonce)"
  "find_route sample_options ''POST'' ''/api/v1/devices/{id}/revoke'' = Some (RolePlane [RoleAdmin], EpRevoke)"
  "find_route sample_options ''POST'' ''/api/v1/agent/events'' = Some (IngestPlane, EpEvents)"
  by code_simp+

lemma find_route_listed:
  assumes "find_route o' m pattern = Some r" shows "(m, pattern) \<in> set (map (\<lambda>(m, pattern, _, _). (m, pattern)) (routes o'))"
  using assms unfolding find_route_def by (force simp: map_option_eq_Some dest: find_SomeD)

lemma sample_dispatch:
  assumes "find_route sample_options m path = Some (p, e)" "m \<noteq> ''OPTIONS''"
  shows "snd (NewRouter sample_options (sample_call role m path) sample_api) = snd (on_plane sample_options p e (sample_call role m path) sample_api)"
  using find_route_listed [OF assms(1)] assms
  by (simp add: snd_NewRouter dispatch_def sample_call_def sample_lib_def)

lemma sample_token:
  "check_token (sample_call role m path) sample_api =
     (Authenticated \<lparr>pl_UserID = 9, pl_Subject = ''eve'', pl_Email = ''eve'', pl_DisplayName = ''eve'', pl_Department = [], pl_Roles = [role]\<rparr>,
      [new_user 9 ((sample_claims ''eve'')\<lparr>cl_Roles := [role]\<rparr>) ''eve'' 5], \<lparr>au_rows = [], au_next = 1\<rparr>)"
proof -
  have "bearerToken ''Bearer eve'' = Some ''eve''" "TrimSpace ''eve'' = ''eve''" by code_simp+
  then show ?thesis
    by (simp add: check_token_def RequireAuth_def sample_call_def sample_api_def auth_of_def Let_def Claims_Validate_def sample_claims_def
       ResolveFromClaims_def scanUser_def new_user_def)
qed

lemma sample_nonce:
  "length (sd_nonces (ts_sessions (ap_trust (snd (NewRouter sample_options
     (sample_call RoleUser ''POST'' ''/api/v1/client/session/nonce'') sample_api))))) = 1"
proof -
  have "snd (NewRouter sample_options (sample_call RoleUser ''POST'' ''/api/v1/client/session/nonce'') sample_api) =
      snd (on_plane sample_options ClientPlane EpNonce (sample_call RoleUser ''POST'' ''/api/v1/client/session/nonce'') sample_api)"
    by (rule sample_dispatch [OF sample_routes(1)]) simp
  also have "length (sd_nonces (ts_sessions (ap_trust \<dots>))) = 1"
    unfolding on_plane.simps authenticated_def sample_token prod.case Let_def auth_result.case handle.simps issueNonce_def option.case
    by (simp add: IssueNonce_def GenerateNonce_def sample_api_def sample_trust_def set_sessions_def Let_def)
  finally show ?thesis .
qed

lemma sample_revocation:
  fixes s' defines "s' \<equiv> snd (NewRouter sample_options (sample_call RoleAdmin ''POST'' ''/api/v1/devices/{id}/revoke'') sample_api)"
  shows "map fst (snd (snd (administration s'))) = [3]" "ts_policies (ap_trust s') = ts_policies (ap_trust sample_api)"
    "dd_tokens (ts_devices (ap_trust s')) = dd_tokens (ts_devices (ap_trust sample_api))"
proof -
  have s': "s' = snd (on_plane sample_options (RolePlane [RoleAdmin]) EpRevoke (sample_call RoleAdmin ''POST'' ''/api/v1/devices/{id}/revoke'') sample_api)"
    unfolding s'_def by (rule sample_dispatch [OF sample_routes(2)]) simp
  show "map fst (snd (snd (administration s'))) = [3]" "ts_policies (ap_trust s') = ts_policies (ap_trust sample_api)"
    "dd_tokens (ts_devices (ap_trust s')) = dd_tokens (ts_devices (ap_trust sample_api))"
    unfolding s' on_plane.simps authenticated_def sample_token prod.case Let_def auth_result.case handle.simps
    by (simp_all add: with_role_def RequireRole_def HasAnyRole_iff revokeDevice_def uuid_param_def decodeJSON_def sample_lib_def Revoke_def
        administration_def administered_def revocation_def sample_api_def sample_trust_def set_devices_def audited_def enrolled_row_def mark_revoked_def)
qed

theorem trust_change_authorised_witness:
  "\<exists>out s'. NewRouter sample_options (sample_call RoleUser ''POST'' ''/api/v1/client/session/nonce'') sample_api = (out, s') \<and>
     length (sd_nonces (ts_sessions (ap_trust s'))) = 1 \<and> own_sessions_only 9 (ap_trust sample_api) (ap_trust s')"
proof -
  let ?c = "sample_call RoleUser ''POST'' ''/api/v1/client/session/nonce''"
  obtain out s' where run: "NewRouter sample_options ?c sample_api = (out, s')" by fastforce
  have one: "length (sd_nonces (ts_sessions (ap_trust s'))) = 1" using sample_nonce run by simp
  then have ch: "ap_trust s' \<noteq> ap_trust sample_api" by (auto simp: sample_api_def sample_trust_def)
  have "fst (check_signature ?c sample_api) = Reject401"
    by (simp add: check_signature_def RequireDeviceSignature_def signed_of_def sample_call_def)
  then have "\<nexists>d b db. check_signature ?c sample_api = (Accept d b, db)" by auto
  moreover have "decodeJSON ?c (lj_enroll (cx_Lib ?c)) = None" by (simp add: decodeJSON_def sample_lib_def)
  ultimately have "own_sessions_only 9 (ap_trust sample_api) (ap_trust s')"
    using trust_change_authorised [OF run ch] unfolding sample_token by auto
  then show ?thesis using run one by blast
qed

text \<open>
  C9: the policies, the enrollment tokens as issued (all of a token but its being spent) and the revocations
  of devices change only at the hands of an authenticated administrator, one policy, token or device at
  a time, and every such change gives the audit log one entry that names the administrator, the action
  for that kind of change and its target.  The change does not wait for the log: with the audit store
  as recorder the entry becomes one record unless a statement of the store or the encoder fails, and
  then the change stands without a record.
\<close>

theorem administration_audited:
  assumes "NewRouter o' c s = (out, s')" "administration s' \<noteq> administration s"
  shows "\<exists>p us e. check_token c s = (Authenticated p, us, ap_audit s) \<and> RoleAdmin \<in> set (pl_Roles p) \<and>
    names_change p e s s' \<and> given_to_log (cx_Recorder c) e (ap_audit s) (ap_audit s')"
proof -
  have "administration (snd (NewRouter o' c s)) \<noteq> administration s" using assms by simp
  then obtain e q where eq: "snd (NewRouter o' c s) = snd (on_plane o' (plane_of e) e (c\<lparr>cx_Param := q\<rparr>) s)"
    by (rule adm.router_passes)
  let ?c = "c\<lparr>cx_Param := q\<rparr>"
  have ch: "administration (snd (on_plane o' (plane_of e) e ?c s)) \<noteq> administration s" using eq assms by simp
  obtain roles where roles: "plane_of e = RolePlane roles" using ch administers_role by blast
  obtain p us where t: "check_token ?c s = (Authenticated p, us, ap_audit s)" "\<exists>r \<in> set roles. r \<in> set (pl_Roles p)"
    and h: "snd (on_plane o' (plane_of e) e ?c s) = snd (handle o' e None (Some p) ?c (s\<lparr>ap_users := us\<rparr>))"
    using ch unfolding roles by (rule adm.role_plane_passes)
  let ?s = "s\<lparr>ap_users := us\<rparr>"
  have ch2: "administration (snd (handle o' e None (Some p) ?c ?s)) \<noteq> administration ?s" using ch h adm.view_users by simp
  then have e: "e \<in> {EpCreatePolicy, EpIssueToken, EpRevoke}" using role_endpoints_administer [OF roles] by blast
  then have "administers ?c p ?s (snd (handle o' e None (Some p) ?c ?s))"
    using ch2 createPolicy_administers [of p ?c ?s] revokeDevice_administers [of p ?c ?s]
      issueEnrollmentToken_administers [of p ?c ?s] by auto
  then have "administers ?c p ?s s'" using eq h assms(1) by simp
  moreover have "RoleAdmin \<in> set (pl_Roles p)" using e roles t(2) by auto
  ultimately show ?thesis using t(1) by (auto simp: administers_def names_change_def)
qed

theorem administration_audited_witness:
  "\<exists>out s' rec. NewRouter sample_options (sample_call RoleAdmin ''POST'' ''/api/v1/devices/{id}/revoke'') sample_api = (out, s') \<and>
     map fst (snd (snd (administration s'))) = [3] \<and> au_rows (ap_audit s') = [rec] \<and>
     entry_fact (ar_Entry rec) = (ActorUser, uuid_String 9, ActionDeviceRevoke, ''device'', uuid_String 3, ResultSuccess)"
proof -
  let ?c = "sample_call RoleAdmin ''POST'' ''/api/v1/devices/{id}/revoke''"
  obtain out s' where run: "NewRouter sample_options ?c sample_api = (out, s')" by fastforce
  have one: "map fst (snd (snd (administration s'))) = [3]" "ts_policies (ap_trust s') = ts_policies (ap_trust sample_api)"
      "dd_tokens (ts_devices (ap_trust s')) = dd_tokens (ts_devices (ap_trust sample_api))"
    using sample_revocation run by simp_all
  have none: "snd (snd (administration sample_api)) = []"
    by (simp add: administration_def administered_def sample_api_def sample_trust_def enrolled_row_def)
  with one(1) have "administration s' \<noteq> administration sample_api" by auto
  from administration_audited [OF run this] obtain p us e where
      p: "check_token ?c sample_api = (Authenticated p, us, ap_audit sample_api)" "names_change p e sample_api s'"
      "given_to_log (cx_Recorder ?c) e (ap_audit sample_api) (ap_audit s')" by blast
  obtain rec where rec: "au_rows (ap_audit s') = [rec]" "entry_fact (ar_Entry rec) = entry_fact e"
    using given_recorded [OF p(3) [unfolded sample_call_sel]] by (auto simp: sample_api_def)
  obtain now i reason where i: "dd_devices (ts_devices (ap_trust s')) = map (mark_revoked now i reason) (dd_devices (ts_devices (ap_trust sample_api)))"
      "entry_fact e = (ActorUser, uuid_String (pl_UserID p), ActionDeviceRevoke, ''device'', uuid_String i, ResultSuccess)"
    using p(2) one(2,3) by (auto simp: names_change_def entry_fact_def Let_def) blast
  then have "i = 3"
    using one(1) by (auto simp: administration_def administered_def sample_api_def sample_trust_def enrolled_row_def mark_revoked_def split: if_splits)
  moreover have "pl_UserID p = 9" using p(1) unfolding sample_token by auto
  ultimately show ?thesis using run one(1) rec i(2) by auto
qed

text \<open>
  C28: every request is answered, also one whose handler panics; every answer carries the identifier the
  server gave the request and the security headers, and grants cross-origin access to no origin but the
  caller's, and only when the configuration lists it.
\<close>

theorem every_response_hardened:
  "\<exists>r. fst (NewRouter o' c s) = Inr r \<and> (RequestIDHeader, cx_RequestID c) \<in> set (rp_Headers r) \<and>
     set security_headers \<subseteq> set (rp_Headers r) \<and>
     {origin. (''Access-Control-Allow-Origin'', origin) \<in> set (rp_Headers r)} \<subseteq> {hr_Origin (cx_Request c)} \<inter> set (op_AllowedOrigins o')"
proof -
  let ?h = "SecurityHeaders (CORS (op_AllowedOrigins o') (dispatch o'))"
  note sec = secured [of "op_AllowedOrigins o'" o' c s]
  obtain r own where r: "fst (Recoverer ?h c s) = Inr r" "distinct (map fst own)" "fst ` set own \<subseteq> reply_keys"
      "rp_Headers r = merge_headers (headers_of (fst (?h c s))) own" by (rule recovered)
  have inner: "distinct (map fst (rp_Headers r))" "RequestIDHeader \<notin> fst ` set (rp_Headers r)"
    using sec(3) r(3) keys_apart(3) by (auto simp: r(4) merge_headers_distinct [OF sec(1)] merge_headers_keys [OF r(2)])
  let ?r = "r\<lparr>rp_Headers := merge_headers [(RequestIDHeader, cx_RequestID c)] (rp_Headers r)\<rparr>"
  have "fst (NewRouter o' c s) = Inr ?r"
    using r(1) by (cases "Recoverer ?h c s") (simp add: NewRouter_def RequestID_def setting_def)
  moreover have outer: "set (rp_Headers ?r) = {(RequestIDHeader, cx_RequestID c)} \<union> set (rp_Headers r)"
    using inner by (auto simp: merge_headers_set [OF inner(1)] not_key)
  moreover have set_r: "set (rp_Headers r) = {x \<in> set (headers_of (fst (?h c s))). fst x \<notin> fst ` set own} \<union> set own"
    unfolding r(4) by (rule merge_headers_set [OF r(2)])
  moreover have "set security_headers \<subseteq> set (rp_Headers r)" using sec(2) r(3) keys_apart(2) unfolding set_r by blast
  moreover have "''Access-Control-Allow-Origin'' \<noteq> RequestIDHeader" "''Access-Control-Allow-Origin'' \<notin> reply_keys" by code_simp+
  then have "''Access-Control-Allow-Origin'' \<notin> fst ` set own" using r(3) by blast
  then have "{v. (''Access-Control-Allow-Origin'', v) \<in> set (rp_Headers ?r)} \<subseteq>
      {v. (''Access-Control-Allow-Origin'', v) \<in> set (headers_of (fst (?h c s)))}"
    using \<open>''Access-Control-Allow-Origin'' \<noteq> RequestIDHeader\<close> unfolding outer set_r by (auto simp: not_key)
  ultimately show ?thesis using sec(4) by (intro exI [of _ ?r] conjI) blast+
qed

text \<open>
  C38: a request to the ingest route that the signature check does not accept is answered 401 or 500 and
  leaves no trace: also the limiter of the route never counts it, so it neither uses up the quota of the
  device it names nor is it ever answered 429.
\<close>

theorem unsigned_ingest_uncounted:
  assumes "op_Devices o'" "op_Telemetry o'" "hr_Method (cx_Request c) = ''POST''" "hr_Path (cx_Request c) = path"
    "lb_chi (cx_Lib c) (map (\<lambda>(m, pattern, _, _). (m, pattern)) (routes o')) ''POST'' path = Matched ''POST'' ''/api/v1/agent/events'' q"
    "\<nexists>d b db. check_signature c s = (Accept d b, db)" "NewRouter o' c s = (out, s')"
  shows "s' = s \<and> (\<exists>r. out = Inr r \<and> rp_Status r \<in> {401, 500})"
proof -
  let ?c = "c\<lparr>cx_Param := q\<rparr>"
  obtain x db where x: "check_signature c s = (x, db)" by fastforce
  have "db = ts_devices (ap_trust s)"
    using x assms(6) RequireDeviceSignature_db unfolding check_signature_def by blast
  then have same: "set_devices db s = s" by (simp add: set_devices_def)
  obtain t d n where n: "n \<in> {401, 500}" "signed (\<lambda>d. limitIngest (handle o' EpEvents d None)) ?c s = fails ?c n t d s"
    using x assms(6) same by (cases x) (fastforce simp: signed_def)+
  have "dispatch o' c s = fails ?c n t d s"
    using assms(3-5) ingest_route [OF assms(1,2)] n(2) by (simp add: dispatch_def)
  then show ?thesis
    using assms(3,7) n(1)
    by (auto simp: NewRouter_def RequestID_def Recoverer_def SecurityHeaders_def CORS_def setting_def fails_def WriteProblem_def Let_def)
qed

theorem unsigned_ingest_uncounted_witness:
  "\<exists>r. NewRouter sample_options (sample_call RoleUser ''POST'' ''/api/v1/agent/events'') sample_api = (Inr r, sample_api) \<and>
     rp_Status r \<in> {401, 500}"
proof -
  let ?c = "sample_call RoleUser ''POST'' ''/api/v1/agent/events''"
  obtain out s' where run: "NewRouter sample_options ?c sample_api = (out, s')" by fastforce
  have "fst (check_signature ?c sample_api) = Reject401"
    by (simp add: check_signature_def RequireDeviceSignature_def signed_of_def sample_call_def)
  then have no: "\<nexists>d b db. check_signature ?c sample_api = (Accept d b, db)" by auto
  have on: "op_Devices sample_options" "op_Telemetry sample_options" by (simp_all add: sample_options_def)
  have "lb_chi (cx_Lib ?c) (map (\<lambda>(m, pattern, _, _). (m, pattern)) (routes sample_options)) ''POST'' ''/api/v1/agent/events'' =
      Matched ''POST'' ''/api/v1/agent/events'' (\<lambda>_. [])"
    using find_route_listed [OF sample_routes(3)] by (simp add: sample_lib_def)
  from unsigned_ingest_uncounted [OF on _ _ this no run]
  have "s' = sample_api \<and> (\<exists>r. out = Inr r \<and> rp_Status r \<in> {401, 500})" by (simp add: sample_call_def)
  then show ?thesis using run by auto
qed

end
