(* ===== verification/Config.thy ===== *)
theory Config
  imports TrustRoutes
begin

section \<open>Config: the environment the backend is started with\<close>

text \<open>
  \<^verbatim>\<open>internal/config/config.go\<close>, with what it uses of \<^verbatim>\<open>strconv\<close> and \<^verbatim>\<open>time\<close>: \<^verbatim>\<open>ParseBool\<close>, \<^verbatim>\<open>ParseFloat\<close> and
  \<^verbatim>\<open>ParseDuration\<close> are written out from the Go library.  The process environment is a function from names to
  values.  Loading goes on after an error, with the value zero, and collects all the errors.
\<close>

subsection \<open>strconv.ParseBool and strconv.ParseFloat\<close>

definition ParseBool :: "string \<Rightarrow> bool option" where
  "ParseBool s =
     (if s \<in> {''1'', ''t'', ''T'', ''TRUE'', ''true'', ''True''} then Some True
      else if s \<in> {''0'', ''f'', ''F'', ''FALSE'', ''false'', ''False''} then Some False
      else None)"

definition take_sign :: "string \<Rightarrow> bool \<times> string" where
  "take_sign s = (case s of c # cs \<Rightarrow> if c = CHR ''-'' then (True, cs) else if c = CHR ''+'' then (False, cs) else (False, s)
                  | [] \<Rightarrow> (False, []))"

definition digit_value :: "nat \<Rightarrow> char \<Rightarrow> nat option" where
  "digit_value base c =
     (let n = byte c; l = byte (to_lower_char c)
      in if 48 \<le> n \<and> n \<le> 57 then Some (n - 48)
         else if base = 16 \<and> 97 \<le> l \<and> l \<le> 102 then Some (l - 87)
         else None)"

text \<open>
  \<open>read_mantissa base dot places m digits s\<close> reads digits, underscores and one point: it yields the mantissa,
  the number of digits after the point, whether there were digits, and the rest.
\<close>

fun read_mantissa :: "nat \<Rightarrow> bool \<Rightarrow> nat \<Rightarrow> nat \<Rightarrow> bool \<Rightarrow> string \<Rightarrow> nat \<times> nat \<times> bool \<times> string" where
  "read_mantissa base dot places m digits [] = (m, places, digits, [])"
| "read_mantissa base dot places m digits (c # cs) =
     (if c = CHR ''_'' then read_mantissa base dot places m digits cs
      else if c = CHR ''.'' then (if dot then (m, places, digits, c # cs) else read_mantissa base True places m digits cs)
      else case digit_value base c of
             None \<Rightarrow> (m, places, digits, c # cs)
           | Some d \<Rightarrow> read_mantissa base dot (if dot then places + 1 else places) (m * base + d) True cs)"

text \<open>The exponent stops growing at 10000; the value is far out of range by then.\<close>

fun read_exponent :: "nat \<Rightarrow> string \<Rightarrow> nat \<times> string" where
  "read_exponent e [] = (e, [])"
| "read_exponent e (c # cs) =
     (if c = CHR ''_'' then read_exponent e cs
      else if is_digit c then read_exponent (if e < 10000 then e * 10 + (byte c - 48) else e) cs
      else (e, c # cs))"

fun underscores_ok :: "bool \<Rightarrow> char \<Rightarrow> string \<Rightarrow> bool" where
  "underscores_ok hex prev [] \<longleftrightarrow> prev \<noteq> CHR ''_''"
| "underscores_ok hex prev (c # cs) \<longleftrightarrow>
     (if digit_value (if hex then 16 else 10) c \<noteq> None then underscores_ok hex (CHR ''0'') cs
      else if c = CHR ''_'' then prev = CHR ''0'' \<and> underscores_ok hex (CHR ''_'') cs
      else prev \<noteq> CHR ''_'' \<and> underscores_ok hex (CHR ''!'') cs)"

definition underscoreOK :: "string \<Rightarrow> bool" where
  "underscoreOK s =
     (let (_, s) = take_sign s
      in case s of
           a # b # cs \<Rightarrow>
             if a = CHR ''0'' \<and> to_lower_char b \<in> {CHR ''b'', CHR ''o'', CHR ''x''}
             then underscores_ok (to_lower_char b = CHR ''x'') (CHR ''0'') cs
             else underscores_ok False (CHR ''^'') s
         | _ \<Rightarrow> underscores_ok False (CHR ''^'') s)"

definition readFloat :: "string \<Rightarrow> rat option" where
  "readFloat s =
     (let (neg, s1) = take_sign s;
          (base, s2) = (case s1 of a # b # c # cs \<Rightarrow>
                            if a = CHR ''0'' \<and> to_lower_char b = CHR ''x'' then (16, c # cs) else (10, s1)
                          | _ \<Rightarrow> (10, s1));
          (m, places, digits, s3) = read_mantissa base False 0 0 False s2;
          scaled = (\<lambda>e :: int. (if neg then -1 else 1) * of_nat m *
                      (if base = 16 then 2 powi (e - 4 * int places) else 10 powi (e - int places)))
      in if \<not> digits \<or> (CHR ''_'' \<in> set s \<and> \<not> underscoreOK s) then None
         else case s3 of
                [] \<Rightarrow> if base = 16 then None else Some (scaled 0)
              | c # cs \<Rightarrow>
                  if to_lower_char c \<noteq> (if base = 16 then CHR ''p'' else CHR ''e'') then None
                  else
                    (let (eneg, s4) = take_sign cs
                     in if s4 = [] \<or> \<not> is_digit (hd s4) then None
                        else (let (e, rest) = read_exponent 0 s4
                              in if rest \<noteq> [] then None else Some (scaled (if eneg then - int e else int e)))))"

text \<open>A number out of range is an error; the words for infinity and not-a-number are not.\<close>

definition ParseFloat :: "string \<Rightarrow> f64 option" where
  "ParseFloat s =
     (let (neg, t) = take_sign s
      in if map to_lower_char t \<in> {''inf'', ''infinity''} then Some (inf_of neg)
         else if map to_lower_char s = ''nan'' then Some NaN
         else case readFloat s of
                None \<Rightarrow> None
              | Some q \<Rightarrow> (case f64_round q of Fin x \<Rightarrow> Some (Fin x) | _ \<Rightarrow> None))"

subsection \<open>time.ParseDuration\<close>

definition millisecond :: duration where [go_consts]: "millisecond = 1000000"

definition unitMap :: "(string \<times> int) list" where
  "unitMap = [(''ns'', nanosecond), (''us'', microsecond), ([CHR 0xC2, CHR 0xB5, CHR ''s''], microsecond),
     ([CHR 0xCE, CHR 0xBC, CHR ''s''], microsecond), (''ms'', millisecond), (''s'', second), (''m'', minute), (''h'', hour)]"

fun leadingInt :: "int \<Rightarrow> string \<Rightarrow> (int \<times> string) option" where
  "leadingInt x [] = Some (x, [])"
| "leadingInt x (c # cs) =
     (if \<not> is_digit c then Some (x, c # cs)
      else if x > 2 ^ 63 div 10 then None
      else (let y = x * 10 + int (byte c - 48) in if y > 2 ^ 63 then None else leadingInt y cs))"

text \<open>Digits of a fraction that no longer fit are read and ignored.\<close>

fun leadingFraction :: "int \<Rightarrow> f64 \<Rightarrow> bool \<Rightarrow> string \<Rightarrow> int \<times> f64 \<times> string" where
  "leadingFraction x scale overflow [] = (x, scale, [])"
| "leadingFraction x scale overflow (c # cs) =
     (if \<not> is_digit c then (x, scale, c # cs)
      else if overflow \<or> x > (2 ^ 63 - 1) div 10 then leadingFraction x scale True cs
      else (let y = x * 10 + int (byte c - 48)
            in if y > 2 ^ 63 then leadingFraction x scale True cs else leadingFraction y (scale * Fin 10) False cs))"

definition unit_char :: "char \<Rightarrow> bool" where
  "unit_char c \<longleftrightarrow> c \<noteq> CHR ''.'' \<and> \<not> is_digit c"

text \<open>One number with its unit, in nanoseconds, and the rest.\<close>

definition duration_term :: "string \<Rightarrow> (int \<times> string) option" where
  "duration_term s =
     (if s = [] \<or> (hd s \<noteq> CHR ''.'' \<and> \<not> is_digit (hd s)) then None
      else case leadingInt 0 s of
             None \<Rightarrow> None
           | Some (v, s1) \<Rightarrow>
               (let pre = (length s1 \<noteq> length s);
                    (f, scale, s2, post) =
                      (if s1 \<noteq> [] \<and> hd s1 = CHR ''.''
                       then (let (f, scale, r) = leadingFraction 0 (Fin 1) False (tl s1) in (f, scale, r, length r \<noteq> length (tl s1)))
                       else (0, Fin 1, s1, False));
                    u = takeWhile unit_char s2
                in if \<not> pre \<and> \<not> post then None
                   else if u = [] then None
                   else case map_of unitMap u of
                          None \<Rightarrow> None
                        | Some unit \<Rightarrow>
                            if v > 2 ^ 63 div unit then None
                            else
                              (let v = v * unit;
                                   v = (if f > 0 then v + f64_to_int (f64_of_int f * (f64_of_int unit div scale)) else v)
                               in if v > 2 ^ 63 then None else Some (v, dropWhile unit_char s2))))"

text \<open>The total is kept modulo \<open>2 ^ 64\<close>; a term consumes at least its unit.\<close>

lemma leadingInt_shorter: "leadingInt x s = Some (y, r) \<Longrightarrow> length r \<le> length s"
  by (induction x s rule: leadingInt.induct) (auto simp: Let_def split: if_splits)

lemma leadingFraction_shorter: "leadingFraction x scale ovf s = (y, scale', r) \<Longrightarrow> length r \<le> length s"
  by (induction x scale ovf s arbitrary: y scale' r rule: leadingFraction.induct) (auto simp: Let_def split: if_splits, fastforce+)

lemma duration_term_shorter: "duration_term s = Some (v, r) \<Longrightarrow> length r < length s"
proof -
  assume a: "duration_term s = Some (v, r)"
  have drop: "takeWhile unit_char t \<noteq> [] \<Longrightarrow> length (dropWhile unit_char t) < length t" for t
    by (cases t) (auto simp: length_dropWhile_le le_imp_less_Suc split: if_splits)
  obtain v0 s1 where s1: "leadingInt 0 s = Some (v0, s1)"
    using a by (cases "leadingInt 0 s") (auto simp: duration_term_def split: if_splits)
  obtain f scale s2 where f: "leadingFraction 0 (Fin 1) False (tl s1) = (f, scale, s2)" by (metis prod_cases3)
  have le: "length s1 \<le> length s" "length s2 \<le> length (tl s1)"
    using leadingInt_shorter [OF s1] leadingFraction_shorter [OF f] by simp_all
  show ?thesis
  proof (cases "s1 \<noteq> [] \<and> hd s1 = CHR ''.''")
    case True
    then have "r = dropWhile unit_char s2" "takeWhile unit_char s2 \<noteq> []"
      using a s1 f by (auto simp: duration_term_def Let_def split: if_splits option.splits)
    then show ?thesis using drop [of s2] le by (auto intro: less_le_trans)
  next
    case False
    then have "r = dropWhile unit_char s1" "takeWhile unit_char s1 \<noteq> []"
      using a s1 by (auto simp: duration_term_def Let_def split: if_splits option.splits)
    then show ?thesis using drop [of s1] le by (auto intro: less_le_trans)
  qed
qed

function duration_sum :: "int \<Rightarrow> string \<Rightarrow> int option" where
  "duration_sum d s =
     (if s = [] then Some d
      else case duration_term s of
             None \<Rightarrow> None
           | Some (v, r) \<Rightarrow> (let d = (d + v) mod 2 ^ 64 in if d > 2 ^ 63 then None else duration_sum d r))"
  by pat_completeness auto
termination by (relation "measure (\<lambda>(d, s). length s)") (auto dest: duration_term_shorter)

declare duration_sum.simps [simp del]

definition ParseDuration :: "string \<Rightarrow> duration option" where
  "ParseDuration s =
     (let (neg, s) = take_sign s
      in if s = ''0'' then Some 0
         else if s = [] then None
         else case duration_sum 0 s of
                None \<Rightarrow> None
              | Some d \<Rightarrow> if neg then Some (wrap64 (- d)) else if d > 2 ^ 63 - 1 then None else Some d)"

subsection \<open>config.go: the configuration\<close>

record PostureConfig =
  pc_Weights :: posture_Weights
  pc_ExpectedAgentVersion :: string

record LogConfig =
  lc_Level :: string
  lc_Format :: string

record HTTPConfig =
  hc_Addr :: string
  hc_ReadTimeout :: duration
  hc_WriteTimeout :: duration
  hc_ShutdownTimeout :: duration
  hc_AllowedOrigins :: "string list"

text \<open>The bounds of the pool are \<^verbatim>\<open>int32\<close>.\<close>

record DatabaseConfig =
  db_URL :: string
  db_MaxConns :: int
  db_MinConns :: int
  db_AutoMigrate :: bool

record OIDCConfig =
  oc_Issuer :: string
  oc_ClientID :: string
  oc_Audience :: string
  oc_DevAuthEnabled :: bool
  oc_DevAuthTTL :: duration

record RiskThresholds =
  rt_Low :: int
  rt_Medium :: int
  rt_Elevated :: int
  rt_High :: int

record RiskConfig =
  rc_RiskThresholds :: RiskThresholds
  rc_Weights :: Weights

record Config =
  cf_Env :: string
  cf_Log :: LogConfig
  cf_HTTP :: HTTPConfig
  cf_Database :: DatabaseConfig
  cf_OIDC :: OIDCConfig
  cf_Risk :: RiskConfig
  cf_Posture :: PostureConfig

definition EnvDevelopment :: string where "EnvDevelopment = ''development''"
definition EnvStaging :: string where "EnvStaging = ''staging''"
definition EnvProduction :: string where "EnvProduction = ''production''"

datatype config_error =
  ErrEnv string
| ErrNotInteger string
| ErrNotBoolean string
| ErrNotNumber string
| ErrNotDuration string
| ErrNotPositive string duration
| ErrRequired string
| ErrDevAuthEnv string
| ErrOIDCRequired
| ErrRiskWeights risk_error
| ErrPostureWeights posture_error
| ErrLogLevel string
| ErrLogFormat string
| ErrConns int int
| ErrRiskThresholds int int int int

definition RiskConfig_Thresholds :: "RiskConfig \<Rightarrow> Thresholds" where
  "RiskConfig_Thresholds r =
     (let t = rc_RiskThresholds r in \<lparr>T_Low = rt_Low t, T_Medium = rt_Medium t, T_Elevated = rt_Elevated t, T_High = rt_High t\<rparr>)"

definition RiskThresholds_Validate :: "RiskThresholds \<Rightarrow> config_error option" where
  "RiskThresholds_Validate r =
     (if rt_Low r \<le> 0 \<or> rt_Low r \<ge> rt_Medium r \<or> rt_Medium r \<ge> rt_Elevated r \<or> rt_Elevated r \<ge> rt_High r \<or> rt_High r \<ge> 100
      then Some (ErrRiskThresholds (rt_Low r) (rt_Medium r) (rt_Elevated r) (rt_High r))
      else None)"

subsection \<open>config.go: variables\<close>

type_synonym environ = "string \<Rightarrow> string option"

definition lookup_var :: "environ \<Rightarrow> string \<Rightarrow> string option" where
  "lookup_var env key = (case env key of None \<Rightarrow> None | Some raw \<Rightarrow> if raw = [] then None else Some raw)"

definition stringVar :: "environ \<Rightarrow> string \<Rightarrow> string \<Rightarrow> string" where
  "stringVar env key fallback = (case lookup_var env key of Some v \<Rightarrow> v | None \<Rightarrow> fallback)"

definition listVar :: "environ \<Rightarrow> string \<Rightarrow> string list" where
  "listVar env key =
     (let raw = stringVar env key []
      in if raw = [] then [] else filter (\<lambda>p. p \<noteq> []) (map TrimSpace (Split raw (CHR '',''))))"

text \<open>A variable that does not parse yields zero and an error.\<close>

definition parsed_var :: "(string \<Rightarrow> 'a option) \<Rightarrow> 'a \<Rightarrow> config_error \<Rightarrow> environ \<Rightarrow> string \<Rightarrow> 'a \<Rightarrow> 'a \<times> config_error option" where
  "parsed_var parse zero err env key fallback =
     (case lookup_var env key of
        None \<Rightarrow> (fallback, None)
      | Some raw \<Rightarrow> (case parse raw of None \<Rightarrow> (zero, Some err) | Some v \<Rightarrow> (v, None)))"

definition intVar :: "environ \<Rightarrow> string \<Rightarrow> int \<Rightarrow> int \<times> config_error option" where
  "intVar env key = parsed_var ParseInt 0 (ErrNotInteger key) env key"

definition boolVar :: "environ \<Rightarrow> string \<Rightarrow> bool \<Rightarrow> bool \<times> config_error option" where
  "boolVar env key = parsed_var ParseBool False (ErrNotBoolean key) env key"

definition floatVar :: "environ \<Rightarrow> string \<Rightarrow> f64 \<Rightarrow> f64 \<times> config_error option" where
  "floatVar env key = parsed_var ParseFloat (Fin 0) (ErrNotNumber key) env key"

definition durationVar :: "environ \<Rightarrow> string \<Rightarrow> duration \<Rightarrow> duration \<times> config_error option" where
  "durationVar env key fallback =
     (case lookup_var env key of
        None \<Rightarrow> (fallback, None)
      | Some raw \<Rightarrow>
          (case ParseDuration raw of
             None \<Rightarrow> (0, Some (ErrNotDuration key))
           | Some v \<Rightarrow> if v \<le> 0 then (0, Some (ErrNotPositive key v)) else (v, None)))"

subsection \<open>config.go: Load\<close>

type_synonym ('w, 'a) binding = "string \<times> ('w \<Rightarrow> 'a) \<times> ('a \<Rightarrow> 'w \<Rightarrow> 'w)"

fun bind_vars ::
  "(string \<Rightarrow> 'a \<Rightarrow> 'a \<times> config_error option) \<Rightarrow> ('w, 'a) binding list \<Rightarrow> 'w \<Rightarrow> 'w \<times> config_error option list" where
  "bind_vars var [] w = (w, [])"
| "bind_vars var ((key, get, put) # bs) w =
     (let (v, e) = var key (get w); (w', es) = bind_vars var bs (put v w) in (w', e # es))"

definition risk_bindings :: "(Weights, f64) binding list" where
  "risk_bindings =
     [(''NETRA_RISK_WEIGHT_IDENTITY'', W_Identity, \<lambda>v. W_Identity_update (\<lambda>_. v)),
      (''NETRA_RISK_WEIGHT_DEVICE'', W_Device, \<lambda>v. W_Device_update (\<lambda>_. v)),
      (''NETRA_RISK_WEIGHT_BEHAVIOUR'', W_Behaviour, \<lambda>v. W_Behaviour_update (\<lambda>_. v)),
      (''NETRA_RISK_WEIGHT_NETWORK'', W_Network, \<lambda>v. W_Network_update (\<lambda>_. v)),
      (''NETRA_RISK_WEIGHT_RESOURCE'', W_Resource, \<lambda>v. W_Resource_update (\<lambda>_. v)),
      (''NETRA_RISK_WEIGHT_HISTORY'', W_History, \<lambda>v. W_History_update (\<lambda>_. v))]"

definition posture_bindings :: "(posture_Weights, int) binding list" where
  "posture_bindings =
     [(''NETRA_POSTURE_WEIGHT_DEVICE_IDENTITY'', pw_DeviceIdentity, \<lambda>v. pw_DeviceIdentity_update (\<lambda>_. v)),
      (''NETRA_POSTURE_WEIGHT_AGENT_HEALTH'', pw_AgentHealth, \<lambda>v. pw_AgentHealth_update (\<lambda>_. v)),
      (''NETRA_POSTURE_WEIGHT_DISK_ENCRYPTION'', pw_DiskEncryption, \<lambda>v. pw_DiskEncryption_update (\<lambda>_. v)),
      (''NETRA_POSTURE_WEIGHT_SECURE_BOOT'', pw_SecureBoot, \<lambda>v. pw_SecureBoot_update (\<lambda>_. v)),
      (''NETRA_POSTURE_WEIGHT_OS_SUPPORTED'', pw_OSSupported, \<lambda>v. pw_OSSupported_update (\<lambda>_. v)),
      (''NETRA_POSTURE_WEIGHT_FIREWALL'', pw_Firewall, \<lambda>v. pw_Firewall_update (\<lambda>_. v)),
      (''NETRA_POSTURE_WEIGHT_SCREEN_LOCK'', pw_ScreenLock, \<lambda>v. pw_ScreenLock_update (\<lambda>_. v)),
      (''NETRA_POSTURE_WEIGHT_ANTI_MALWARE'', pw_AntiMalware, \<lambda>v. pw_AntiMalware_update (\<lambda>_. v))]"

definition wrap32 :: "int \<Rightarrow> int" where
  "wrap32 n = (n + 2 ^ 31) mod 2 ^ 32 - 2 ^ 31"

definition failing :: "bool \<Rightarrow> config_error \<Rightarrow> config_error option" where
  "failing b e = (if b then Some e else None)"

definition collect :: "config_error option list \<Rightarrow> config_error list" where
  "collect es = List.map_filter id es"

text \<open>
  \<open>ro\<close> and \<open>po\<close> are the orders in which the two validations range over their maps.  \<open>collected\<close> lists what is
  collected, in the order of the code.
\<close>

definition config_values ::
  "((string \<times> f64) list \<Rightarrow> (string \<times> f64) list) \<Rightarrow> ((string \<times> int) list \<Rightarrow> (string \<times> int) list) \<Rightarrow> environ \<Rightarrow>
   config_error option list \<times> Config" where
  "config_values ro po environ =
     (let env = ToLower (stringVar environ ''NETRA_ENV'' EnvDevelopment);
          (httpRead, e1) = durationVar environ ''NETRA_HTTP_READ_TIMEOUT'' (15 * second);
          (httpWrite, e2) = durationVar environ ''NETRA_HTTP_WRITE_TIMEOUT'' (30 * second);
          (httpShutdown, e3) = durationVar environ ''NETRA_HTTP_SHUTDOWN_TIMEOUT'' (15 * second);
          (maxConns, e4) = intVar environ ''NETRA_DB_MAX_CONNS'' 10;
          (minConns, e5) = intVar environ ''NETRA_DB_MIN_CONNS'' 1;
          (autoMigrate, e6) = boolVar environ ''NETRA_DB_AUTO_MIGRATE'' True;
          dbURL = stringVar environ ''NETRA_DATABASE_URL'' [];
          (low, e7) = intVar environ ''NETRA_RISK_THRESHOLD_LOW'' 30;
          (medium, e8) = intVar environ ''NETRA_RISK_THRESHOLD_MEDIUM'' 50;
          (elevated, e9) = intVar environ ''NETRA_RISK_THRESHOLD_ELEVATED'' 70;
          (high, e10) = intVar environ ''NETRA_RISK_THRESHOLD_HIGH'' 85;
          (devAuth, e11) = boolVar environ ''NETRA_DEV_AUTH_ENABLED'' False;
          (devAuthTTL, e12) = durationVar environ ''NETRA_DEV_AUTH_TTL'' hour;
          issuer = stringVar environ ''NETRA_OIDC_ISSUER'' [];
          audience = stringVar environ ''NETRA_OIDC_AUDIENCE'' [];
          (riskWeights, es1) = bind_vars (floatVar environ) risk_bindings DefaultWeights;
          (weights, es2) = bind_vars (intVar environ) posture_bindings posture_DefaultWeights;
          logLevel = ToLower (stringVar environ ''NETRA_LOG_LEVEL'' ''info'');
          logFormat = ToLower (stringVar environ ''NETRA_LOG_FORMAT'' ''json'');
          thresholds = \<lparr>rt_Low = low, rt_Medium = medium, rt_Elevated = elevated, rt_High = high\<rparr>;
          collected =
            [failing (env \<notin> {EnvDevelopment, EnvStaging, EnvProduction}) (ErrEnv env),
             e1, e2, e3, e4, e5, e6, failing (dbURL = []) (ErrRequired ''NETRA_DATABASE_URL''), e7, e8, e9, e10, e11, e12,
             failing (devAuth \<and> env \<noteq> EnvDevelopment) (ErrDevAuthEnv env),
             failing (\<not> devAuth \<and> (issuer = [] \<or> audience = [])) ErrOIDCRequired] @
            es1 @ [map_option ErrRiskWeights (Weights_Validate (ro (weight_entries riskWeights)))] @
            es2 @ [map_option ErrPostureWeights (posture_Weights_Validate (po (posture_weight_entries weights)) weights),
             failing (logLevel \<notin> {''debug'', ''info'', ''warn'', ''error''}) (ErrLogLevel logLevel),
             failing (logFormat \<noteq> ''json'' \<and> logFormat \<noteq> ''text'') (ErrLogFormat logFormat),
             failing (minConns > maxConns) (ErrConns minConns maxConns),
             RiskThresholds_Validate thresholds];
          cfg = \<lparr>cf_Env = env, cf_Log = \<lparr>lc_Level = logLevel, lc_Format = logFormat\<rparr>,
             cf_HTTP = \<lparr>hc_Addr = stringVar environ ''NETRA_HTTP_ADDR'' '':8080'', hc_ReadTimeout = httpRead, hc_WriteTimeout = httpWrite,
               hc_ShutdownTimeout = httpShutdown, hc_AllowedOrigins = listVar environ ''NETRA_CORS_ALLOWED_ORIGINS''\<rparr>,
             cf_Database = \<lparr>db_URL = dbURL, db_MaxConns = wrap32 maxConns, db_MinConns = wrap32 minConns, db_AutoMigrate = autoMigrate\<rparr>,
             cf_OIDC = \<lparr>oc_Issuer = issuer, oc_ClientID = stringVar environ ''NETRA_OIDC_CLIENT_ID'' [], oc_Audience = audience,
               oc_DevAuthEnabled = devAuth, oc_DevAuthTTL = devAuthTTL\<rparr>,
             cf_Risk = \<lparr>rc_RiskThresholds = thresholds, rc_Weights = riskWeights\<rparr>,
             cf_Posture = \<lparr>pc_Weights = weights, pc_ExpectedAgentVersion = stringVar environ ''NETRA_EXPECTED_AGENT_VERSION'' []\<rparr>\<rparr>
      in (collected, cfg))"

definition config_Load ::
  "((string \<times> f64) list \<Rightarrow> (string \<times> f64) list) \<Rightarrow> ((string \<times> int) list \<Rightarrow> (string \<times> int) list) \<Rightarrow> environ \<Rightarrow>
   config_error list + Config" where
  "config_Load ro po environ =
     (let (collected, cfg) = config_values ro po environ; errs = collect collected
      in if errs \<noteq> [] then Inl errs else Inr cfg)"

definition IsDevelopment :: "Config \<Rightarrow> bool" where
  "IsDevelopment c \<longleftrightarrow> cf_Env c = EnvDevelopment"

subsection \<open>What loading has checked\<close>

lemma collect_Nil: "collect xs = [] \<longleftrightarrow> (\<forall>x \<in> set xs. x = None)"
  unfolding collect_def by (induction xs) (auto simp: List.map_filter_def)

lemma failing_None [simp]: "failing b e = None \<longleftrightarrow> \<not> b"
  by (simp add: failing_def)

lemma durationVar_pos:
  "snd (durationVar env key d) = None \<Longrightarrow> 0 < d \<Longrightarrow> 0 < fst (durationVar env key d)"
  by (auto simp: durationVar_def split: option.splits if_splits)

lemma RiskThresholds_Validate_iff:
  "RiskThresholds_Validate (rc_RiskThresholds r) = None \<longleftrightarrow> Thresholds_Validate (RiskConfig_Thresholds r) = None"
  by (simp add: RiskThresholds_Validate_def Thresholds_Validate_def RiskConfig_Thresholds_def Let_def)

lemma config_Load_checks:
  assumes "config_Load ro po environ = Inr cfg"
  shows "cf_Env cfg \<in> {EnvDevelopment, EnvStaging, EnvProduction}"
    "oc_DevAuthEnabled (cf_OIDC cfg) \<Longrightarrow> IsDevelopment cfg"
    "\<not> oc_DevAuthEnabled (cf_OIDC cfg) \<Longrightarrow> oc_Issuer (cf_OIDC cfg) \<noteq> [] \<and> oc_Audience (cf_OIDC cfg) \<noteq> []"
    "db_URL (cf_Database cfg) \<noteq> []"
    "0 < hc_ReadTimeout (cf_HTTP cfg)" "0 < hc_WriteTimeout (cf_HTTP cfg)" "0 < hc_ShutdownTimeout (cf_HTTP cfg)"
    "0 < oc_DevAuthTTL (cf_OIDC cfg)"
    "RiskThresholds_Validate (rc_RiskThresholds (cf_Risk cfg)) = None"
    "Weights_Validate (ro (weight_entries (rc_Weights (cf_Risk cfg)))) = None"
    "posture_Weights_Validate (po (posture_weight_entries (pc_Weights (cf_Posture cfg)))) (pc_Weights (cf_Posture cfg)) = None"
    "lc_Level (cf_Log cfg) \<in> {''debug'', ''info'', ''warn'', ''error''}" "lc_Format (cf_Log cfg) \<in> {''json'', ''text''}"
proof -
  have c: "\<forall>x \<in> set (fst (config_values ro po environ)). x = None" and cfg: "cfg = snd (config_values ro po environ)"
    using assms by (simp_all add: config_Load_def collect_Nil case_prod_beta Let_def split: if_splits)
  show "cf_Env cfg \<in> {EnvDevelopment, EnvStaging, EnvProduction}"
    "oc_DevAuthEnabled (cf_OIDC cfg) \<Longrightarrow> IsDevelopment cfg"
    "\<not> oc_DevAuthEnabled (cf_OIDC cfg) \<Longrightarrow> oc_Issuer (cf_OIDC cfg) \<noteq> [] \<and> oc_Audience (cf_OIDC cfg) \<noteq> []"
    "db_URL (cf_Database cfg) \<noteq> []"
    "0 < hc_ReadTimeout (cf_HTTP cfg)" "0 < hc_WriteTimeout (cf_HTTP cfg)" "0 < hc_ShutdownTimeout (cf_HTTP cfg)"
    "0 < oc_DevAuthTTL (cf_OIDC cfg)"
    "RiskThresholds_Validate (rc_RiskThresholds (cf_Risk cfg)) = None"
    "Weights_Validate (ro (weight_entries (rc_Weights (cf_Risk cfg)))) = None"
    "posture_Weights_Validate (po (posture_weight_entries (pc_Weights (cf_Posture cfg)))) (pc_Weights (cf_Posture cfg)) = None"
    "lc_Level (cf_Log cfg) \<in> {''debug'', ''info'', ''warn'', ''error''}" "lc_Format (cf_Log cfg) \<in> {''json'', ''text''}"
    using c unfolding cfg config_values_def Let_def case_prod_beta fst_conv snd_conv IsDevelopment_def
    by (simp_all add: durationVar_pos go_consts)
qed

subsection \<open>Properties\<close>

text \<open>
  C27: a configuration that loads has been checked: the environment is a known one, development
  authentication is on only in development and an identity provider is named otherwise, timeouts are
  positive, the risk bands increase strictly between 0 and 100, no risk weight is negative or above 5,
  and the posture weights are non-negative with a (64-bit) sum of 100.
\<close>

theorem loaded_config_checked:
  assumes "config_Load ro po environ = Inr cfg" "\<And>es. mset (ro es) = mset es" "\<And>es. mset (po es) = mset es"
  shows "cf_Env cfg \<in> {EnvDevelopment, EnvStaging, EnvProduction} \<and>
    (if oc_DevAuthEnabled (cf_OIDC cfg) then IsDevelopment cfg
     else oc_Issuer (cf_OIDC cfg) \<noteq> [] \<and> oc_Audience (cf_OIDC cfg) \<noteq> []) \<and>
    db_URL (cf_Database cfg) \<noteq> [] \<and> 0 < hc_ReadTimeout (cf_HTTP cfg) \<and> 0 < hc_WriteTimeout (cf_HTTP cfg) \<and>
    0 < hc_ShutdownTimeout (cf_HTTP cfg) \<and> 0 < oc_DevAuthTTL (cf_OIDC cfg) \<and>
    Thresholds_Validate (RiskConfig_Thresholds (cf_Risk cfg)) = None \<and> weights_ok (rc_Weights (cf_Risk cfg)) \<and>
    list_all (\<lambda>(name, v). 0 \<le> v) (posture_weight_entries (pc_Weights (cf_Posture cfg))) \<and> Total (pc_Weights (cf_Posture cfg)) = 100"
proof -
  note checks = config_Load_checks [OF assms(1)]
  have "weights_ok (rc_Weights (cf_Risk cfg))"
    using checks(10) Weights_Validate_weights_ok [OF assms(2)] by blast
  moreover have "first_negative (po (posture_weight_entries (pc_Weights (cf_Posture cfg)))) = None" "Total (pc_Weights (cf_Posture cfg)) = 100"
    using checks(11) by (simp_all add: posture_Weights_Validate_def split: option.splits if_splits)
  moreover from this(1) have "list_all (\<lambda>(name, v). 0 \<le> v) (posture_weight_entries (pc_Weights (cf_Posture cfg)))"
    using mset_eq_setD [OF assms(3)] by (simp add: first_negative_None list_all_iff)
  ultimately show ?thesis using checks(1-9) RiskThresholds_Validate_iff by simp
qed

definition sample_environ :: "(string \<times> string) list \<Rightarrow> environ" where
  "sample_environ extra = map_of (extra @ [(''NETRA_DATABASE_URL'', ''postgres://n''), (''NETRA_OIDC_ISSUER'', ''https://idp''),
     (''NETRA_OIDC_AUDIENCE'', ''netra'')])"

theorem loaded_config_checked_witness:
  "\<exists>cfg. config_Load id id (sample_environ []) = Inr cfg \<and> cf_Env cfg \<in> {EnvDevelopment, EnvStaging, EnvProduction} \<and>
     oc_Issuer (cf_OIDC cfg) \<noteq> [] \<and> weights_ok (rc_Weights (cf_Risk cfg)) \<and> Total (pc_Weights (cf_Posture cfg)) = 100"
proof -
  have "case config_Load id id (sample_environ []) of Inl _ \<Rightarrow> False | Inr cfg \<Rightarrow> \<not> oc_DevAuthEnabled (cf_OIDC cfg)" by code_simp
  then obtain cfg where cfg: "config_Load id id (sample_environ []) = Inr cfg" "\<not> oc_DevAuthEnabled (cf_OIDC cfg)"
    by (auto split: sum.splits)
  show ?thesis using loaded_config_checked [OF cfg(1)] cfg by auto
qed

lemmas var_defs = intVar_def boolVar_def floatVar_def durationVar_def parsed_var_def lookup_var_def stringVar_def sample_environ_def
  ParseInt_def nat_of_digits.simps is_digit_def fits64_def ToLower_ascii to_lower_char_def

lemmas load_defs = config_Load_def config_values_def risk_bindings_def posture_bindings_def Let_def collect_def failing_def wrap32_def
  EnvDevelopment_def EnvStaging_def EnvProduction_def RiskThresholds_Validate_def weight_entries_def DefaultWeights_def
  posture_DefaultWeights_def posture_weight_entries_def posture_Weights_Validate_def Total_def wrap64_def

text \<open>
  The bounds of the connection pool are compared before they are cut to 32 bits: a configuration
  that loads can have a least number of connections above the greatest.
\<close>

theorem pool_bounds_truncated:
  "\<exists>cfg. config_Load id id (sample_environ [(''NETRA_DB_MAX_CONNS'', ''4294967297''), (''NETRA_DB_MIN_CONNS'', ''2'')]) = Inr cfg \<and>
     db_MinConns (cf_Database cfg) = 2 \<and> db_MaxConns (cf_Database cfg) = 1"
  by (simp add: load_defs var_defs)

text \<open>
  The sum of the posture weights is taken in 64 bits: weights as great as the machine allows load as
  a model of 100 points.
\<close>

theorem wrapped_posture_weights_load:
  "\<exists>cfg. config_Load id id (sample_environ
       [(''NETRA_POSTURE_WEIGHT_DEVICE_IDENTITY'', ''9223372036854775807''), (''NETRA_POSTURE_WEIGHT_AGENT_HEALTH'', ''9223372036854775807''),
        (''NETRA_POSTURE_WEIGHT_DISK_ENCRYPTION'', ''57'')]) = Inr cfg \<and>
     pw_DeviceIdentity (pc_Weights (cf_Posture cfg)) = 2 ^ 63 - 1"
  by (simp add: load_defs var_defs)

text \<open>A risk weight that is not a number loads: neither comparison of the validation rejects it.\<close>

theorem nan_weight_loads:
  "\<exists>cfg. config_Load id id (sample_environ [(''NETRA_RISK_WEIGHT_IDENTITY'', ''NaN'')]) = Inr cfg \<and>
     W_Identity (rc_Weights (cf_Risk cfg)) = NaN"
proof -
  have "case config_Load id id (sample_environ [(''NETRA_RISK_WEIGHT_IDENTITY'', ''NaN'')]) of Inl _ \<Rightarrow> False
      | Inr cfg \<Rightarrow> W_Identity (rc_Weights (cf_Risk cfg)) = NaN" by code_simp
  then show ?thesis by (auto split: sum.splits)
qed

end
