(* ===== verification/Spec2Isabelle.thy ===== *)
theory Spec2Isabelle
  imports Risk Posture Policy AuditLog Device Session Telemetry Behaviour Incident RiskStore Trust RateLimit Identity Simulator Access Config Boot
begin

text \<open>
  NETRA is a continuous-trust control plane.  Endpoints enrol with a key of their own and sign every
  request; users authenticate with tokens and open sessions that the device attests; agents report
  posture and telemetry; every new batch has the session scored, judged by policies and, if need be,
  restricted, isolated or turned into an incident; every security-relevant action goes to a hash-chained
  audit log.  The backend is a Go program under \<^verbatim>\<open>src/backend\<close>; this library models it and proves what makes
  it correct.

  \<^bold>\<open>Conventions.\<close>  A Go struct is a \<open>record\<close>, an enumeration a \<open>datatype\<close> (with a constructor for other strings
  where the code converts from text), a table of the database a list of rows or a map, an operation a
  function from its inputs and the table to a result (\<open>error + value\<close>) and the new table.  \<^verbatim>\<open>int\<close> and \<^verbatim>\<open>Duration\<close>
  are \<open>int\<close> with \<open>wrap64\<close> where they can overflow; instants are nanoseconds; \<^verbatim>\<open>float64\<close> is the type \<open>f64\<close> with
  correctly rounded operations.  What the code cannot control is an argument: clock readings, random
  bytes, identifiers the database assigns, the iteration order of maps, and a list of the statements
  that fail, named by the text of the error they cause, so that every error path is a branch of the model.
  Code outside the repository (SHA-256, Ed25519, JSON, JWT and OIDC libraries, \<^verbatim>\<open>chi\<close>, PostgreSQL's input
  conversions) is a parameter, with what is relied on as a hypothesis of the theorem that needs it.

  \<^bold>\<open>Foundations.\<close>  \<open>Unicode\<close>: UTF-8 and, on it, case mapping, folding and trimming as package \<^verbatim>\<open>strings\<close> has them.
  \<open>Prelude\<close>: integers, instants, strings, identifiers, faults.  \<open>Slices\<close>: sorting with a \<open>less\<close> function, as the
  locale \<open>slice_order\<close>.  \<open>Codec\<close>: base64, hex, decimal parsing.  \<open>Float64\<close>: IEEE double
  arithmetic on rationals.  \<open>Single_Use\<close>: the locale of resources that back one success at most, with
  its run lemma; enrollment tokens interpret it.

  \<^bold>\<open>Components\<close> (packages under \<^verbatim>\<open>src/backend/internal\<close>).
  \<^item> \<open>Risk\<close> (\<^verbatim>\<open>risk/model.go\<close>, \<^verbatim>\<open>risk/engine.go\<close>): signals of six dimensions, weighting, clamping and explanation.  A score
    is the sum of its factors and lies between 0 and 100; more alarming inputs never lower it.
  \<^item> \<open>Posture\<close> (\<^verbatim>\<open>posture\<close>): device trust scores and their records.
  \<^item> \<open>Policy\<close> (\<^verbatim>\<open>policy\<close>): matching, the most restrictive decision, degraded mode, versioned storage, shipped rules.
    More policies never make a decision less severe, in an outage either.
  \<^item> \<open>AuditLog\<close> (\<^verbatim>\<open>audit\<close>): what is recorded verifies, what is altered is located, paging changes nothing.
  \<^item> \<open>Device\<close> (\<^verbatim>\<open>device\<close>): enrollment, signed requests, replay protection and its pruning, revocation, over arbitrary
    runs of operations.
  \<^item> \<open>Session\<close> (\<^verbatim>\<open>session\<close>): challenges, attested establishment, ending.
  \<^item> \<open>Telemetry\<close> (\<^verbatim>\<open>telemetry\<close>): normalisation, batches, retries, queries.
  \<^item> \<open>Behaviour\<close> (\<^verbatim>\<open>behaviour\<close>): baselines and their round trip through the store.
  \<^item> \<open>Incident\<close> (\<^verbatim>\<open>incident\<close>), \<open>RiskStore\<close> (\<^verbatim>\<open>risk/store.go\<close>): one incident per key, recorded scores.
  \<^item> \<open>Trust\<close> (\<^verbatim>\<open>trust\<close>): the loop over the tables of all of these, \<open>trust_state\<close>: load, gather, score, record, decide,
    open an incident, enforce, log.  What is decided is enforced and recorded, ended sessions stay
    ended, every score is explained, and a known session is always evaluated to the end.
  \<^item> \<open>RateLimit\<close> (\<^verbatim>\<open>httpapi/ratelimit.go\<close>): how many requests any window can admit.
  \<^item> \<open>Identity\<close> (\<^verbatim>\<open>identity\<close>, \<^verbatim>\<open>user\<close>, \<^verbatim>\<open>auth\<close>): roles, tokens, accounts, the two guards of the user planes.
  \<^item> \<open>Simulator\<close> (\<^verbatim>\<open>simulator\<close>): scenarios as lists of primitives and their runner on the live tables.
  \<^item> \<open>Http\<close>, \<open>DeviceRoutes\<close>, \<open>TrustRoutes\<close>, \<open>Router\<close> (\<^verbatim>\<open>httpapi\<close>): the wire types, the middleware, every handler, and the
    table of routes with the guards before each.  \<open>api_state\<close> is the state of the whole service.  An entry for the
    audit log is handed over once and lost if its insertion fails: theorems that speak of records say so.
  \<^item> \<open>Access\<close>: what the composed service guarantees: who may change what, what is audited, what every answer
    carries.  Its locale \<open>unlogged\<close> carries any view of the state through the middleware and is
    interpreted for the state of trust and for what administrators decide.
  \<^item> \<open>Config\<close> (\<^verbatim>\<open>config\<close>): the environment, parsed and checked.
  \<^item> \<open>Boot\<close> (\<^verbatim>\<open>store\<close>, \<^verbatim>\<open>logging\<close>, \<^verbatim>\<open>cmd/netrad/main.go\<close>): migrations, redaction, opening the pool, the choice of the verifier,
    the pruner and the start of the service.  Interrupted migrations resume, a service that serves is
    configured safely, pruning forgets nothing usable.

  \<^bold>\<open>Bounds and fuel.\<close>  No definition runs on fuel: loops are structural or proved to terminate by a measure
  (the paging of the audit log, the terms of a duration, the scan of a message for credentials).  Theorems about numbers name the ranges they need.

  \<^bold>\<open>Not modelled.\<close>  The lines of the log and build information (nothing reads them back), the connection pool and the
  network listener with its shutdown (input and output of libraries), the concurrency of requests
  beyond the transaction or lock that serialises each operation: an operation is one step on the
  tables.  The agent, dashboard and client under \<^verbatim>\<open>src/agent\<close>, \<^verbatim>\<open>src/dashboard\<close> and \<^verbatim>\<open>src/electron\<close> are other programs in
  other languages.
\<close>

end
